theory Spec2Isabelle
  imports Main "HOL-Library.Word"
begin

unbundle bit_operations_syntax

section \<open>JavaScript numbers and bit operators\<close>

text \<open>
  The translator is TypeScript run on node.js. Sizes, offsets and class
  identifiers are JavaScript Numbers that only ever hold integers, so they are
  modelled as \<^typ>\<open>int\<close>. The bit operators first convert their operands
  to 32 bits (ToInt32 / ToUint32), operate there, and return a signed result
  (an unsigned one for \<^verbatim>\<open>>>>\<close>); that conversion is written out with
  \<^typ>\<open>32 word\<close>.
\<close>

definition js_and :: "int \<Rightarrow> int \<Rightarrow> int" where
  "js_and a b = sint ((word_of_int a :: 32 word) AND word_of_int b)"

definition js_or :: "int \<Rightarrow> int \<Rightarrow> int" where
  "js_or a b = sint ((word_of_int a :: 32 word) OR word_of_int b)"

definition js_xor :: "int \<Rightarrow> int \<Rightarrow> int" where
  "js_xor a b = sint ((word_of_int a :: 32 word) XOR word_of_int b)"

definition js_not :: "int \<Rightarrow> int" where
  "js_not a = sint (NOT (word_of_int a :: 32 word))"

definition js_shl :: "int \<Rightarrow> nat \<Rightarrow> int" where
  "js_shl a n = sint (push_bit (n mod 32) (word_of_int a :: 32 word))"

definition js_shr :: "int \<Rightarrow> nat \<Rightarrow> int" where
  "js_shr a n = sint (signed_drop_bit (n mod 32) (word_of_int a :: 32 word))"

definition js_ushr :: "int \<Rightarrow> nat \<Rightarrow> int" where
  "js_ushr a n = uint (drop_bit (n mod 32) (word_of_int a :: 32 word))"

text \<open>
  A \<^verbatim>\<open>var\<close> is hoisted to the top of its function and holds
  \<^verbatim>\<open>undefined\<close> until its initialiser runs. A relational comparison with
  \<^verbatim>\<open>undefined\<close> converts it to NaN and is false.
\<close>

datatype jsnum = Undefined | Num int

fun js_le :: "jsnum \<Rightarrow> int \<Rightarrow> bool" where
  "js_le Undefined b = False"
| "js_le (Num a) b = (a \<le> b)"

section \<open>Errors\<close>

datatype error =
    SyntaxError string nat string
  | DuplicateTypeName string
  | MissingBaseType string
  | NotAnAtomicType string
  | UndefinedType string
  | RecursiveStruct string string
  | RecursiveClass string
  | DuplicateClassId string int
  | BadCharacterInClassName char
  | MethodNotFound string
  | StringsInArguments
  | UnknownTypeArgumentToNew string
  | WrongNumberOfArgumentsToNewArray string
  | UnknownTypeArgumentToNewArray string
  | UnknownTypeInSizeofType string
  | Log2Error int
  | TypeError

section \<open>JavaScript objects used as dictionaries\<close>

text \<open>
  The translator keeps its tables in plain object literals (\<^verbatim>\<open>{}\<close>).
  Such an object is modelled as an association list in insertion order, which
  is also the order of \<^verbatim>\<open>for (n in obj)\<close> for keys that are not array
  indices. Every key the translator stores is an identifier that starts with a
  letter (or a decimal class identifier in \<^verbatim>\<open>knownIds\<close>).

  A read \<^verbatim>\<open>obj[k]\<close> also sees the properties every object inherits from
  \<^verbatim>\<open>Object.prototype\<close>; \<^verbatim>\<open>obj.hasOwnProperty(k)\<close> sees own keys
  only, but it is itself looked up through \<^verbatim>\<open>obj\<close>, so an own key of
  that name (whose value is no function) makes the call a TypeError.
\<close>

type_synonym 'v jsobj = "(string \<times> 'v) list"

definition objectPrototypeKeys :: "string list" where
  "objectPrototypeKeys =
     [''constructor'', ''toString'', ''toLocaleString'', ''valueOf'',
      ''hasOwnProperty'', ''isPrototypeOf'', ''propertyIsEnumerable'',
      ''__proto__'', ''__defineGetter__'', ''__defineSetter__'',
      ''__lookupGetter__'', ''__lookupSetter__'']"

datatype 'v lookup = Own 'v | Inherited | Absent

definition js_get :: "'v jsobj \<Rightarrow> string \<Rightarrow> 'v lookup" where
  "js_get obj k =
     (case map_of obj k of
        Some v \<Rightarrow> Own v
      | None \<Rightarrow> if k \<in> set objectPrototypeKeys then Inherited else Absent)"

fun js_put :: "('k \<times> 'v) list \<Rightarrow> 'k \<Rightarrow> 'v \<Rightarrow> ('k \<times> 'v) list" where
  "js_put [] k v = [(k, v)]"
| "js_put ((k', v') # rest) k v =
     (if k' = k then (k', v) # rest else (k', v') # js_put rest k v)"

definition isOwn :: "'v jsobj \<Rightarrow> string \<Rightarrow> bool" where
  "isOwn obj k = (case map_of obj k of None \<Rightarrow> False | Some v \<Rightarrow> True)"

definition hasOwnProperty :: "'v jsobj \<Rightarrow> string \<Rightarrow> error + bool" where
  "hasOwnProperty obj k =
     (if isOwn obj ''hasOwnProperty'' then Inl TypeError else Inr (isOwn obj k))"

section \<open>Data model\<close>

datatype DefnKind = Class | Struct | Primitive

datatype PropQual = NoQual | Atomic | Synchronic

datatype MethodKind = Virtual | Get | Set | Copy

record PrimitiveDefn =
  prim_name :: string
  prim_size :: int
  prim_align :: int
  prim_atomic :: bool

definition memory :: "PrimitiveDefn \<Rightarrow> string" where
  "memory pt = ''_mem_'' @ prim_name pt"

text \<open>
  Objects refer to each other by reference in the source. A primitive
  descriptor is immutable, so a reference to it is the descriptor itself; a
  user definition is mutated by the passes, so a reference to it is its name,
  the key of \<^verbatim>\<open>knownTypes\<close> (names are unique there).
\<close>

datatype TypeRef = PrimRef PrimitiveDefn | UserRef string

record Prop =
  prop_line :: nat
  prop_name :: string
  prop_qual :: PropQual
  prop_isArray :: bool
  prop_typeName :: string
  prop_typeRef :: "TypeRef option"

record Method =
  meth_line :: nat
  meth_kind :: MethodKind
  meth_name :: string
  meth_body :: "string list"

record MapEntry =
  ent_name :: string
  ent_expand :: bool
  ent_offset :: int
  ent_type :: TypeRef

record VirtualEntry =
  virt_name :: string
  virt_reverseCases :: "int list jsobj"
  virt_default :: "string option"

text \<open>
  \<^verbatim>\<open>UserDefn\<close> with its two subclasses \<^verbatim>\<open>ClassDefn\<close> and
  \<^verbatim>\<open>StructDefn\<close>, told apart by \<open>d_kind\<close>. The fields from
  \<open>d_baseName\<close> to \<open>d_vtable\<close> are those of a class, the last two those of
  a struct. \<^verbatim>\<open>null\<close> is \<open>None\<close>. The marks \<^verbatim>\<open>live\<close> and
  \<^verbatim>\<open>checked\<close> of \<^verbatim>\<open>checkRecursion\<close> are kept by that pass, and the
  unused \<^verbatim>\<open>typeRef\<close> is left out.
\<close>

record UserDefn =
  d_file :: string
  d_line :: nat
  d_name :: string
  d_kind :: DefnKind
  d_props :: "Prop list"
  d_methods :: "Method list"
  d_origin :: nat
  d_size :: int
  d_align :: int
  d_map :: "MapEntry jsobj option"
  d_baseName :: string
  d_baseTypeRef :: "string option"
  d_className :: string
  d_classId :: int
  d_subclasses :: "string list"
  d_vtable :: "VirtualEntry list option"
  d_hasGetMethod :: bool
  d_hasSetMethod :: bool

definition ClassDefn ::
  "string \<Rightarrow> nat \<Rightarrow> string \<Rightarrow> string \<Rightarrow> Prop list \<Rightarrow> Method list \<Rightarrow> nat \<Rightarrow> UserDefn" where
  "ClassDefn f ln nm base ps ms orig =
     \<lparr>d_file = f, d_line = ln, d_name = nm, d_kind = Class, d_props = ps,
      d_methods = ms, d_origin = orig, d_size = 0, d_align = 0, d_map = None,
      d_baseName = base, d_baseTypeRef = None, d_className = [], d_classId = 0,
      d_subclasses = [], d_vtable = None,
      d_hasGetMethod = False, d_hasSetMethod = False\<rparr>"

definition StructDefn ::
  "string \<Rightarrow> nat \<Rightarrow> string \<Rightarrow> Prop list \<Rightarrow> Method list \<Rightarrow> nat \<Rightarrow> UserDefn" where
  "StructDefn f ln nm ps ms orig =
     \<lparr>d_file = f, d_line = ln, d_name = nm, d_kind = Struct, d_props = ps,
      d_methods = ms, d_origin = orig, d_size = 0, d_align = 0, d_map = None,
      d_baseName = [], d_baseTypeRef = None, d_className = [], d_classId = 0,
      d_subclasses = [], d_vtable = None,
      d_hasGetMethod = list_ex (\<lambda>m. meth_kind m = Get) ms,
      d_hasSetMethod = list_ex (\<lambda>m. meth_kind m = Set) ms\<rparr>"

definition mkProp :: "nat \<Rightarrow> string \<Rightarrow> PropQual \<Rightarrow> bool \<Rightarrow> string \<Rightarrow> Prop" where
  "mkProp ln nm q arr tn =
     \<lparr>prop_line = ln, prop_name = nm, prop_qual = q, prop_isArray = arr,
      prop_typeName = tn, prop_typeRef = None\<rparr>"

definition mkMethod :: "nat \<Rightarrow> MethodKind \<Rightarrow> string \<Rightarrow> string list \<Rightarrow> Method" where
  "mkMethod ln k nm b = \<lparr>meth_line = ln, meth_kind = k, meth_name = nm, meth_body = b\<rparr>"

definition mkMapEntry :: "string \<Rightarrow> bool \<Rightarrow> int \<Rightarrow> TypeRef \<Rightarrow> MapEntry" where
  "mkMapEntry nm ex off ty =
     \<lparr>ent_name = nm, ent_expand = ex, ent_offset = off, ent_type = ty\<rparr>"

definition mkPrimitive :: "string \<Rightarrow> int \<Rightarrow> bool \<Rightarrow> PrimitiveDefn" where
  "mkPrimitive nm sz at =
     \<lparr>prim_name = nm, prim_size = sz, prim_align = sz, prim_atomic = at\<rparr>"

definition builtinTypes :: "PrimitiveDefn jsobj" where
  "builtinTypes =
     [(''int8'', mkPrimitive ''int8'' 1 True),
      (''uint8'', mkPrimitive ''uint8'' 1 True),
      (''int16'', mkPrimitive ''int16'' 2 True),
      (''uint16'', mkPrimitive ''uint16'' 2 True),
      (''int32'', mkPrimitive ''int32'' 4 True),
      (''uint32'', mkPrimitive ''uint32'' 4 True),
      (''float32'', mkPrimitive ''float32'' 4 False),
      (''float64'', mkPrimitive ''float64'' 8 False)]"

definition builtin_int32 :: PrimitiveDefn where
  "builtin_int32 = mkPrimitive ''int32'' 4 True"

definition atomicTypes :: "string list" where
  "atomicTypes = [''int8'', ''uint8'', ''int16'', ''uint16'', ''int32'', ''uint32'']"

text \<open>
  The global tables. \<^verbatim>\<open>allTypes\<close> lists the definitions in the order in
  which \<^verbatim>\<open>buildTypeMap\<close> inserted them into \<^verbatim>\<open>knownTypes\<close>, so the
  association list \<open>knownTypes\<close> stands for both. \<^verbatim>\<open>knownIds\<close> maps a
  class identifier to the dotted class name that took it.
\<close>

record Tables =
  knownTypes :: "UserDefn jsobj"
  knownIds :: "(int \<times> string) list"

definition allTypes :: "Tables \<Rightarrow> string list" where
  "allTypes T = map fst (knownTypes T)"

definition getDefn :: "Tables \<Rightarrow> string \<Rightarrow> UserDefn option" where
  "getDefn T nm = map_of (knownTypes T) nm"

definition putDefn :: "Tables \<Rightarrow> UserDefn \<Rightarrow> Tables" where
  "putDefn T d = T\<lparr>knownTypes := js_put (knownTypes T) (d_name d) d\<rparr>"

section \<open>Regular expressions\<close>

text \<open>
  The regular expressions of the translator, as data, and a backtracking
  matcher with the priorities of JavaScript: alternatives are tried left to
  right, quantifiers are greedy, the first complete match wins. Every
  quantifier \<^verbatim>\<open>*\<close> or \<^verbatim>\<open>+\<close> in the source applies to a single character
  class (\<open>Many\<close>, \<open>Many1\<close>); \<^verbatim>\<open>?\<close> is \<open>Opt\<close>; \<open>Grp n\<close> is the
  n-th capturing group; a non-capturing group is plain nesting. Strings are
  sequences of 8-bit characters.
\<close>

datatype charset = Range char char | Single char | Space | AnyChar

fun inCharset :: "char \<Rightarrow> charset \<Rightarrow> bool" where
  "inCharset c (Range lo hi) = ((of_char lo :: nat) \<le> of_char c \<and> (of_char c :: nat) \<le> of_char hi)"
| "inCharset c (Single x) = (c = x)"
| "inCharset c Space = ((of_char c :: nat) \<in> {9, 10, 11, 12, 13, 32, 160})"
| "inCharset c AnyChar = ((of_char c :: nat) \<notin> {10, 13})"

definition inClass :: "char \<Rightarrow> charset list \<Rightarrow> bool" where
  "inClass c cs = list_ex (inCharset c) cs"

datatype regex =
    Lit string
  | Cls "charset list"
  | Many "charset list"
  | Many1 "charset list"
  | Seq regex regex
  | Alt regex regex
  | Opt regex
  | Grp nat regex
  | Bol
  | Eol

fun cat :: "regex list \<Rightarrow> regex" where
  "cat [] = Lit []"
| "cat [r] = r"
| "cat (r # rs) = Seq r (cat rs)"

datatype frame = Match regex | Close nat nat

type_synonym captures = "(nat \<times> string) list"

fun rweight :: "regex \<Rightarrow> nat" where
  "rweight (Seq a b) = rweight a + rweight b + 2"
| "rweight (Alt a b) = rweight a + rweight b + 1"
| "rweight (Opt a) = rweight a + 1"
| "rweight (Grp n a) = rweight a + 2"
| "rweight r = 1"

fun fweight :: "frame \<Rightarrow> nat" where
  "fweight (Match r) = rweight r"
| "fweight (Close n start) = 1"

text \<open>
  \<open>run text k s pos c\<close> matches the stack of pending items \<open>k\<close> against the
  rest \<open>s\<close> of \<open>text\<close> that starts at index \<open>pos\<close>, with the captures \<open>c\<close>
  so far; it returns the end index and the captures of the first match found.
\<close>

function (sequential) run ::
  "string \<Rightarrow> frame list \<Rightarrow> string \<Rightarrow> nat \<Rightarrow> captures \<Rightarrow> (nat \<times> captures) option" where
  "run text [] s pos c = Some (pos, c)"
| "run text (Close n start # k) s pos c =
     run text k s pos ((n, take (pos - start) (drop start text)) # c)"
| "run text (Match (Lit []) # k) s pos c = run text k s pos c"
| "run text (Match (Lit (x # xs)) # k) [] pos c = None"
| "run text (Match (Lit (x # xs)) # k) (y # ys) pos c =
     (if x = y then run text (Match (Lit xs) # k) ys (Suc pos) c else None)"
| "run text (Match (Cls cs) # k) [] pos c = None"
| "run text (Match (Cls cs) # k) (y # ys) pos c =
     (if inClass y cs then run text k ys (Suc pos) c else None)"
| "run text (Match (Many cs) # k) [] pos c = run text k [] pos c"
| "run text (Match (Many cs) # k) (y # ys) pos c =
     (if inClass y cs then
        (case run text (Match (Many cs) # k) ys (Suc pos) c of
           Some r \<Rightarrow> Some r
         | None \<Rightarrow> run text k (y # ys) pos c)
      else run text k (y # ys) pos c)"
| "run text (Match (Many1 cs) # k) [] pos c = None"
| "run text (Match (Many1 cs) # k) (y # ys) pos c =
     (if inClass y cs then run text (Match (Many cs) # k) ys (Suc pos) c else None)"
| "run text (Match (Seq a b) # k) s pos c = run text (Match a # Match b # k) s pos c"
| "run text (Match (Alt a b) # k) s pos c =
     (case run text (Match a # k) s pos c of
        Some r \<Rightarrow> Some r
      | None \<Rightarrow> run text (Match b # k) s pos c)"
| "run text (Match (Opt a) # k) s pos c =
     (case run text (Match a # k) s pos c of
        Some r \<Rightarrow> Some r
      | None \<Rightarrow> run text k s pos c)"
| "run text (Match (Grp n a) # k) s pos c = run text (Match a # Close n pos # k) s pos c"
| "run text (Match Bol # k) s pos c = (if pos = 0 then run text k s pos c else None)"
| "run text (Match Eol # k) s pos c = (if s = [] then run text k s pos c else None)"
  by pat_completeness auto
termination
  by (relation "inv_image (less_than <*lex*> less_than)
                  (\<lambda>(text, k, s, pos, c). (length s, sum_list (map fweight k)))") auto

record rmatch =
  m_index :: nat
  m_end :: nat
  m_groups :: captures

definition matched :: "string \<Rightarrow> rmatch \<Rightarrow> string" where
  "matched text m = take (m_end m - m_index m) (drop (m_index m) text)"

definition grp :: "rmatch \<Rightarrow> nat \<Rightarrow> string option" where
  "grp m n = map_of (m_groups m) n"

text \<open>The search for the leftmost match at or after index \<open>pos\<close>.\<close>

fun search :: "string \<Rightarrow> regex \<Rightarrow> string \<Rightarrow> nat \<Rightarrow> rmatch option" where
  "search text r [] pos =
     (case run text [Match r] [] pos [] of
        Some (e, c) \<Rightarrow> Some \<lparr>m_index = pos, m_end = e, m_groups = c\<rparr>
      | None \<Rightarrow> None)"
| "search text r (y # ys) pos =
     (case run text [Match r] (y # ys) pos [] of
        Some (e, c) \<Rightarrow> Some \<lparr>m_index = pos, m_end = e, m_groups = c\<rparr>
      | None \<Rightarrow> search text r ys (Suc pos))"

text \<open>
  \<^verbatim>\<open>re.exec(text)\<close> for a regular expression whose \<^verbatim>\<open>lastIndex\<close> is
  \<open>lastIndex\<close> (0 for a regular expression without the global flag), and
  \<^verbatim>\<open>re.test(text)\<close>.
\<close>

definition re_exec :: "regex \<Rightarrow> string \<Rightarrow> nat \<Rightarrow> rmatch option" where
  "re_exec r text lastIndex =
     (if lastIndex > length text then None
      else search text r (drop lastIndex text) lastIndex)"

definition re_test :: "regex \<Rightarrow> string \<Rightarrow> bool" where
  "re_test r text = (case re_exec r text 0 of None \<Rightarrow> False | Some m \<Rightarrow> True)"

definition letter :: "charset list" where
  "letter = [Range CHR ''A'' CHR ''Z'', Range CHR ''a'' CHR ''z'']"

definition alnum :: "charset list" where
  "alnum = [Range CHR ''A'' CHR ''Z'', Range CHR ''a'' CHR ''z'', Range CHR ''0'' CHR ''9'']"

definition wordChar :: "charset list" where
  "wordChar = [Range CHR ''a'' CHR ''z'', Range CHR ''A'' CHR ''Z'', Range CHR ''0'' CHR ''9'',
               Single CHR ''_'']"

definition Ws :: regex where "Ws = Many1 [Space]"
definition Os :: regex where "Os = Many [Space]"
definition Id :: regex where "Id = Seq (Cls letter) (Many alnum)"
definition Lbrace :: regex where "Lbrace = Seq Os (Lit ''{'')"
definition Rbrace :: regex where "Rbrace = Seq Os (Lit ''}'')"
definition Comment :: regex where "Comment = Seq Os (Opt (Seq (Lit ''//'') (Many [AnyChar])))"

definition start_re :: regex where
  "start_re = cat [Bol, Os, Lit ''@shared'', Ws, Alt (Lit ''struct'') (Lit ''class''), Ws, Id]"

definition end_re :: regex where
  "end_re = cat [Bol, Rbrace, Os, Lit ''@end'', Comment, Eol]"

definition struct_re :: regex where
  "struct_re = cat [Bol, Os, Lit ''@shared'', Ws, Lit ''struct'', Ws, Grp 1 Id, Lbrace, Comment, Eol]"

definition class_re :: regex where
  "class_re = cat [Bol, Os, Lit ''@shared'', Ws, Lit ''class'', Ws, Grp 1 Id, Os,
                   Opt (cat [Lit ''extends'', Ws, Grp 2 Id]), Lbrace, Comment, Eol]"

definition special_re :: regex where
  "special_re = cat [Bol, Os, Lit ''@'', Grp 1 (Alt (Lit ''get'') (Alt (Lit ''set'') (Lit ''copy''))),
                     Os, Grp 2 (cat [Lit ''('', Os, Lit ''self'', Many [AnyChar]]), Eol]"

definition method_re :: regex where
  "method_re = cat [Bol, Os, Lit ''@method'', Ws, Grp 1 Id, Os,
                    Grp 2 (cat [Lit ''('', Os, Lit ''self'', Many [AnyChar]]), Eol]"

definition blank_re :: regex where
  "blank_re = cat [Bol, Os, Comment, Eol]"

definition prop_re :: regex where
  "prop_re = cat [Bol, Os, Grp 1 Id, Os, Lit '':'', Os,
                  Opt (cat [Grp 2 (Alt (Lit ''atomic'') (Lit ''synchronic'')), Ws]),
                  Grp 3 Id, Os, Opt (Lit '';''), Comment, Eol]"

definition aprop_re :: regex where
  "aprop_re = cat [Bol, Os, Grp 1 Id, Os, Lit '':'', Os, Lit ''array'', Os, Lit ''('', Os,
                   Grp 2 Id, Os, Lit '')'', Os, Opt (Lit '';''), Comment, Eol]"

definition acc_re :: regex where
  "acc_re = cat [Grp 1 (Seq (Cls letter) (Many alnum)), Lit ''.'',
                 Opt (Grp 2 (Alt (Lit ''set_'') (Lit ''ref_''))),
                 Grp 3 (Many1 wordChar), Many [Space], Lit ''('']"

definition arr_re :: regex where
  "arr_re = cat [Grp 1 (Seq (Cls letter) (Many alnum)), Lit ''.array_'',
                 Grp 2 (Alt (Lit ''get'') (Lit ''set'')),
                 Opt (cat [Lit ''_'', Grp 3 (Many1 wordChar)]), Many [Space], Lit ''('']"

definition new_re :: regex where
  "new_re = cat [Lit ''@new'', Many1 [Space],
                 Alt (cat [Lit ''array'', Many [Space], Lit ''('', Many [Space],
                           Grp 1 (Seq (Cls letter) (Many alnum)), Many [Space], Lit '',''])
                     (Grp 2 (Seq (Cls letter) (Many alnum)))]"


section \<open>Lexical collector\<close>

text \<open>
  The local variables of \<^verbatim>\<open>collectDefinitions\<close> that live across the
  lines of one definition.
\<close>

record Collecting =
  properties :: "Prop list"
  methods :: "Method list"
  in_method :: bool
  mbody :: "string list"
  method_type :: MethodKind
  method_name :: string

definition startCollecting :: Collecting where
  "startCollecting =
     \<lparr>properties = [], methods = [], in_method = False, mbody = [],
      method_type = Virtual, method_name = []\<rparr>"

text \<open>\<^verbatim>\<open>if (in_method) methods.push(new Method(i, method_type, method_name, mbody))\<close>\<close>

definition flushMethod :: "nat \<Rightarrow> Collecting \<Rightarrow> Method list" where
  "flushMethod i st =
     (if in_method st
      then methods st @ [mkMethod i (method_type st) (method_name st) (mbody st)]
      else methods st)"

definition groupOrEmpty :: "rmatch \<Rightarrow> nat \<Rightarrow> string" where
  "groupOrEmpty m n = (case grp m n of Some g \<Rightarrow> g | None \<Rightarrow> [])"

text \<open>
  The inner loop, over the lines after an opener. \<open>i\<close> is the number of lines
  read so far, the source's \<^verbatim>\<open>i\<close> before \<^verbatim>\<open>lines[i++]\<close>. The loop ends at
  a line that matches \<^verbatim>\<open>end_re\<close> or at the end of the input; the result is
  the state, the new \<^verbatim>\<open>i\<close> and the lines not yet read.
\<close>

fun collectBody ::
  "string \<Rightarrow> nat \<Rightarrow> string list \<Rightarrow> Collecting \<Rightarrow> error + Collecting \<times> nat \<times> string list" where
  "collectBody filename i [] st = Inr (st, i, [])"
| "collectBody filename i (l # ls) st =
     (if re_test end_re l then Inr (st, Suc i, ls)
      else
        (case re_exec method_re l 0 of
           Some m \<Rightarrow>
             collectBody filename (Suc i) ls
               (st\<lparr>methods := flushMethod (Suc i) st, in_method := True,
                    method_type := Virtual, method_name := groupOrEmpty m 1,
                    mbody := [groupOrEmpty m 2]\<rparr>)
         | None \<Rightarrow>
             (case re_exec special_re l 0 of
                Some m \<Rightarrow>
                  collectBody filename (Suc i) ls
                    (st\<lparr>methods := flushMethod (Suc i) st, in_method := True,
                         method_type :=
                           (if grp m 1 = Some ''get'' then Get
                            else if grp m 1 = Some ''set'' then Set
                            else if grp m 1 = Some ''copy'' then Copy
                            else method_type st),
                         method_name := [],
                         mbody := [groupOrEmpty m 2]\<rparr>)
              | None \<Rightarrow>
                  (case re_exec prop_re l 0 of
                     Some m \<Rightarrow>
                       collectBody filename (Suc i) ls
                         (st\<lparr>properties := properties st @
                               [mkProp (Suc i) (groupOrEmpty m 1)
                                  (if grp m 2 = Some ''synchronic'' then Synchronic
                                   else if grp m 2 = Some ''atomic'' then Atomic
                                   else NoQual)
                                  False (groupOrEmpty m 3)]\<rparr>)
                   | None \<Rightarrow>
                       (case re_exec aprop_re l 0 of
                          Some m \<Rightarrow>
                            collectBody filename (Suc i) ls
                              (st\<lparr>properties := properties st @
                                    [mkProp (Suc i) (groupOrEmpty m 1) NoQual True
                                       (groupOrEmpty m 2)]\<rparr>)
                        | None \<Rightarrow>
                            if in_method st then
                              collectBody filename (Suc i) ls (st\<lparr>mbody := mbody st @ [l]\<rparr>)
                            else if re_test blank_re l then collectBody filename (Suc i) ls st
                            else Inl (SyntaxError filename (Suc i)
                                        (''Not a property or method: '' @ l)))))))"

lemma collectBody_rest:
  "collectBody filename i ls st = Inr (st', i', rest) \<Longrightarrow> length rest \<le> length ls"
proof (induction ls arbitrary: i st)
  case Nil
  then show ?case by simp
next
  case (Cons l ls)
  from Cons.prems have
    "rest = ls \<or> (\<exists>i2 st2. collectBody filename i2 ls st2 = Inr (st', i', rest))"
    by (simp split: if_splits option.splits) blast+
  then show ?case
  proof
    assume "rest = ls"
    then show ?thesis by simp
  next
    assume "\<exists>i2 st2. collectBody filename i2 ls st2 = Inr (st', i', rest)"
    then obtain i2 st2 where "collectBody filename i2 ls st2 = Inr (st', i', rest)" by blast
    from Cons.IH [OF this] show ?thesis by simp
  qed
qed

text \<open>
  The outer loop. \<open>defs\<close> and \<open>nlines\<close> are the source's arrays; the result
  of \<^verbatim>\<open>collectDefinitions\<close> is the pair of them.
\<close>

function collectLoop ::
  "string \<Rightarrow> nat \<Rightarrow> string list \<Rightarrow> UserDefn list \<Rightarrow> string list \<Rightarrow>
   error + UserDefn list \<times> string list" where
  "collectLoop filename i [] defs nlines = Inr (defs, nlines)"
| "collectLoop filename i (l # ls) defs nlines =
     (if \<not> re_test start_re l then collectLoop filename (Suc i) ls defs (nlines @ [l])
      else
        (case (case re_exec struct_re l 0 of
                 Some m \<Rightarrow> Inr (''struct'', groupOrEmpty m 1, [])
               | None \<Rightarrow>
                   (case re_exec class_re l 0 of
                      Some m \<Rightarrow> Inr (''class'', groupOrEmpty m 1, groupOrEmpty m 2)
                    | None \<Rightarrow>
                        Inl (SyntaxError filename (Suc i) ''Malformed definition line''))) of
           Inl e \<Rightarrow> Inl e
         | Inr (kind, name, inherit) \<Rightarrow>
             (case collectBody filename (Suc i) ls startCollecting of
                Inl e \<Rightarrow> Inl e
              | Inr (st, i', rest) \<Rightarrow>
                  collectLoop filename i' rest
                    (defs @
                     [if kind = ''class''
                      then ClassDefn filename (Suc i) name inherit (properties st)
                             (flushMethod i' st) (length nlines)
                      else StructDefn filename (Suc i) name (properties st)
                             (flushMethod i' st) (length nlines)])
                    nlines)))"
  by pat_completeness auto
termination
  by (relation "measure (\<lambda>(filename, i, ls, defs, nlines). length ls)")
     (auto dest: collectBody_rest)

definition collectDefinitions :: "string \<Rightarrow> string list \<Rightarrow> error + UserDefn list \<times> string list" where
  "collectDefinitions filename lines = collectLoop filename 0 lines [] []"

section \<open>Type registry and reference resolver\<close>

fun buildTypeMap :: "Tables \<Rightarrow> UserDefn list \<Rightarrow> error + Tables" where
  "buildTypeMap T [] = Inr T"
| "buildTypeMap T (d # ds) =
     (case hasOwnProperty (knownTypes T) (d_name d) of
        Inl e \<Rightarrow> Inl e
      | Inr True \<Rightarrow> Inl (DuplicateTypeName (d_name d))
      | Inr False \<Rightarrow> buildTypeMap (putDefn T d) ds)"

text \<open>The loop over \<^verbatim>\<open>d.props\<close> in \<^verbatim>\<open>resolveTypeRefs\<close>.\<close>

fun resolveProps :: "Tables \<Rightarrow> Prop list \<Rightarrow> error + Prop list" where
  "resolveProps T [] = Inr []"
| "resolveProps T (p # ps) =
     (if prop_qual p \<noteq> NoQual \<and> prop_typeName p \<notin> set atomicTypes
      then Inl (NotAnAtomicType (prop_typeName p))
      else
        (case map_of builtinTypes (prop_typeName p) of
           Some pt \<Rightarrow>
             (case resolveProps T ps of
                Inl e \<Rightarrow> Inl e
              | Inr ps' \<Rightarrow> Inr (p\<lparr>prop_typeRef := Some (PrimRef pt)\<rparr> # ps'))
         | None \<Rightarrow>
             (case hasOwnProperty (knownTypes T) (prop_typeName p) of
                Inl e \<Rightarrow> Inl e
              | Inr False \<Rightarrow> Inl (UndefinedType (prop_typeName p))
              | Inr True \<Rightarrow>
                  (case resolveProps T ps of
                     Inl e \<Rightarrow> Inl e
                   | Inr ps' \<Rightarrow>
                       Inr (p\<lparr>prop_typeRef := Some (UserRef (prop_typeName p))\<rparr> # ps')))))"

text \<open>
  The class part of the loop body: bind \<^verbatim>\<open>baseTypeRef\<close> and push the class
  onto the base's \<^verbatim>\<open>subclasses\<close>. A base that is a struct has no
  \<^verbatim>\<open>subclasses\<close> array, so the push is a TypeError.
\<close>

definition resolveBase :: "Tables \<Rightarrow> UserDefn \<Rightarrow> error + Tables" where
  "resolveBase T d =
     (if d_kind d = Class \<and> d_baseName d \<noteq> [] then
        (case hasOwnProperty (knownTypes T) (d_baseName d) of
           Inl e \<Rightarrow> Inl e
         | Inr False \<Rightarrow> Inl (MissingBaseType (d_baseName d))
         | Inr True \<Rightarrow>
             (let T1 = putDefn T (d\<lparr>d_baseTypeRef := Some (d_baseName d)\<rparr>) in
              case getDefn T1 (d_baseName d) of
                None \<Rightarrow> Inl TypeError
              | Some b \<Rightarrow>
                  if d_kind b = Class
                  then Inr (putDefn T1 (b\<lparr>d_subclasses := d_subclasses b @ [d_name d]\<rparr>))
                  else Inl TypeError))
      else Inr T)"

fun resolveTypeRefsLoop :: "Tables \<Rightarrow> string list \<Rightarrow> error + Tables" where
  "resolveTypeRefsLoop T [] = Inr T"
| "resolveTypeRefsLoop T (nm # rest) =
     (case getDefn T nm of
        None \<Rightarrow> Inl TypeError
      | Some d \<Rightarrow>
          (case resolveBase T d of
             Inl e \<Rightarrow> Inl e
           | Inr T1 \<Rightarrow>
               (case getDefn T1 nm of
                  None \<Rightarrow> Inl TypeError
                | Some d1 \<Rightarrow>
                    (case resolveProps T1 (d_props d1) of
                       Inl e \<Rightarrow> Inl e
                     | Inr ps \<Rightarrow> resolveTypeRefsLoop (putDefn T1 (d1\<lparr>d_props := ps\<rparr>)) rest))))"

definition resolveTypeRefs :: "Tables \<Rightarrow> error + Tables" where
  "resolveTypeRefs T = resolveTypeRefsLoop T (allTypes T)"

section \<open>Recursion check\<close>

text \<open>
  \<^verbatim>\<open>checkRecursion\<close> marks the definitions with the flags \<^verbatim>\<open>live\<close> and
  \<^verbatim>\<open>checked\<close>, which no other pass reads: the flags are kept here as the
  lists of the names that carry them. The assignment \<^verbatim>\<open>p.typeRef = s\<close>
  stores the reference that \<^verbatim>\<open>resolveTypeRefs\<close> has stored already. The
  first argument bounds the depth of the recursion.
\<close>

record Flags =
  live :: "string list"
  checked :: "string list"

fun checkRecursionForStruct :: "nat \<Rightarrow> Tables \<Rightarrow> Flags \<Rightarrow> string \<Rightarrow> (error + Flags) option"
  and checkStructProps ::
    "nat \<Rightarrow> Tables \<Rightarrow> Flags \<Rightarrow> string \<Rightarrow> Prop list \<Rightarrow> (error + Flags) option" where
  "checkRecursionForStruct 0 T F nm = None"
| "checkRecursionForStruct (Suc n) T F nm =
     (if nm \<in> set (checked F) then Some (Inr F)
      else
        (case getDefn T nm of
           None \<Rightarrow> Some (Inl TypeError)
         | Some d \<Rightarrow>
             (case checkStructProps n T (F\<lparr>live := nm # live F\<rparr>) nm (d_props d) of
                None \<Rightarrow> None
              | Some (Inl e) \<Rightarrow> Some (Inl e)
              | Some (Inr F1) \<Rightarrow>
                  Some (Inr (F1\<lparr>live := removeAll nm (live F1), checked := nm # checked F1\<rparr>)))))"
| "checkStructProps n T F nm [] = Some (Inr F)"
| "checkStructProps n T F nm (p # ps) =
     (if prop_isArray p then checkStructProps n T F nm ps
      else if isOwn builtinTypes (prop_typeName p) then checkStructProps n T F nm ps
      else
        (case js_get (knownTypes T) (prop_typeName p) of
           Absent \<Rightarrow> Some (Inl TypeError)
         | Inherited \<Rightarrow> checkStructProps n T F nm ps
         | Own probe \<Rightarrow>
             if d_kind probe \<noteq> Struct then checkStructProps n T F nm ps
             else if d_name probe \<in> set (live F)
             then Some (Inl (RecursiveStruct (prop_typeName p) nm))
             else
               (case checkRecursionForStruct n T F (d_name probe) of
                  None \<Rightarrow> None
                | Some (Inl e) \<Rightarrow> Some (Inl e)
                | Some (Inr F1) \<Rightarrow> checkStructProps n T F1 nm ps)))"

fun checkRecursionForClass :: "nat \<Rightarrow> Tables \<Rightarrow> Flags \<Rightarrow> string \<Rightarrow> (error + Flags) option" where
  "checkRecursionForClass 0 T F nm = None"
| "checkRecursionForClass (Suc n) T F nm =
     (if nm \<in> set (checked F) then Some (Inr F)
      else
        (case getDefn T nm of
           None \<Rightarrow> Some (Inl TypeError)
         | Some d \<Rightarrow>
             (case d_baseTypeRef d of
                None \<Rightarrow>
                  Some (Inr (F\<lparr>live := removeAll nm (live F), checked := nm # checked F\<rparr>))
              | Some b \<Rightarrow>
                  if b \<in> set (nm # live F) then Some (Inl (RecursiveClass nm))
                  else
                    (case checkRecursionForClass n T (F\<lparr>live := nm # live F\<rparr>) b of
                       None \<Rightarrow> None
                     | Some (Inl e) \<Rightarrow> Some (Inl e)
                     | Some (Inr F1) \<Rightarrow>
                         Some (Inr (F1\<lparr>live := removeAll nm (live F1),
                                        checked := nm # checked F1\<rparr>))))))"

fun checkRecursionLoop :: "nat \<Rightarrow> Tables \<Rightarrow> Flags \<Rightarrow> string list \<Rightarrow> (error + Flags) option" where
  "checkRecursionLoop fuel T F [] = Some (Inr F)"
| "checkRecursionLoop fuel T F (nm # rest) =
     (case getDefn T nm of
        None \<Rightarrow> Some (Inl TypeError)
      | Some d \<Rightarrow>
          (case (if d_kind d = Struct then checkRecursionForStruct fuel T F nm
                 else if d_kind d = Class then checkRecursionForClass fuel T F nm
                 else Some (Inr F)) of
             None \<Rightarrow> None
           | Some (Inl e) \<Rightarrow> Some (Inl e)
           | Some (Inr F1) \<Rightarrow> checkRecursionLoop fuel T F1 rest))"

definition checkRecursion :: "nat \<Rightarrow> Tables \<Rightarrow> (error + unit) option" where
  "checkRecursion fuel T =
     (case checkRecursionLoop fuel T \<lparr>live = [], checked = []\<rparr> (allTypes T) of
        None \<Rightarrow> None
      | Some (Inl e) \<Rightarrow> Some (Inl e)
      | Some (Inr F) \<Rightarrow> Some (Inr ()))"

section \<open>Class identifiers\<close>

definition charValue :: "char \<Rightarrow> error + int" where
  "charValue c =
     (let k = (of_char c :: int) in
      if of_char CHR ''A'' \<le> k \<and> k \<le> of_char CHR ''Z'' then Inr (k - of_char CHR ''A'')
      else if of_char CHR ''a'' \<le> k \<and> k \<le> of_char CHR ''z'' then Inr (k - of_char CHR ''a'' + 26)
      else if of_char CHR ''0'' \<le> k \<and> k \<le> of_char CHR ''9'' then Inr (k - of_char CHR ''0'' + 52)
      else if c = CHR ''_'' then Inr 62
      else if c = CHR ''>'' then Inr 63
      else Inl (BadCharacterInClassName c))"

fun classIdLoop :: "int \<Rightarrow> string \<Rightarrow> error + int" where
  "classIdLoop n [] = Inr n"
| "classIdLoop n (c # cs) =
     (case charValue c of
        Inl e \<Rightarrow> Inl e
      | Inr v \<Rightarrow>
          classIdLoop (js_xor (js_or (js_shl (js_and n 0x1FFFFFF) 3) (js_ushr n 25)) v) cs)"

definition computeClassId :: "string \<Rightarrow> error + int" where
  "computeClassId nm = classIdLoop (int (length nm)) nm"

text \<open>
  The recurrence as the specification words it, over unbounded natural
  numbers: start from the length of the name and, for each character, rotate
  the low 28 bits left by three (the low 25 bits move up, the bits from 25 on
  come down) and xor the character's code in.
\<close>

definition specCode :: "char \<Rightarrow> nat" where
  "specCode c =
     (if c \<in> set ''ABCDEFGHIJKLMNOPQRSTUVWXYZ'' then of_char c - 65
      else if c \<in> set ''abcdefghijklmnopqrstuvwxyz'' then of_char c - 97 + 26
      else if c \<in> set ''0123456789'' then of_char c - 48 + 52
      else if c = CHR ''_'' then 62
      else 63)"

definition specStep :: "nat \<Rightarrow> char \<Rightarrow> nat" where
  "specStep i c = ((push_bit 3 (i AND 0x1FFFFFF)) OR (drop_bit 25 i)) XOR specCode c"

definition specClassId :: "string \<Rightarrow> nat" where
  "specClassId nm = foldl specStep (length nm) nm"

definition classNameAlphabet :: "char set" where
  "classNameAlphabet =
     set ''ABCDEFGHIJKLMNOPQRSTUVWXYZabcdefghijklmnopqrstuvwxyz0123456789_>''"

section \<open>Layout engine\<close>

fun shallowCopyLoop :: "'v jsobj \<Rightarrow> 'v jsobj \<Rightarrow> 'v jsobj \<Rightarrow> error + 'v jsobj" where
  "shallowCopyLoop obj [] result = Inr result"
| "shallowCopyLoop obj ((n, v) # rest) result =
     (case hasOwnProperty obj n of
        Inl e \<Rightarrow> Inl e
      | Inr own \<Rightarrow> shallowCopyLoop obj rest (if own then js_put result n v else result))"

definition shallowCopy :: "'v jsobj \<Rightarrow> error + 'v jsobj" where
  "shallowCopy obj = shallowCopyLoop obj obj []"

text \<open>
  The inner loop of the struct case of \<^verbatim>\<open>layoutDefn\<close>: every entry of
  the struct's map is entered under the composite name, at the struct's offset
  plus its own.
\<close>

fun inlineStructFields ::
  "MapEntry jsobj \<Rightarrow> MapEntry jsobj \<Rightarrow> string \<Rightarrow> int \<Rightarrow> MapEntry jsobj \<Rightarrow> error + MapEntry jsobj" where
  "inlineStructFields stmap [] root sz m = Inr m"
| "inlineStructFields stmap ((n, fld) # rest) root sz m =
     (case hasOwnProperty stmap n of
        Inl e \<Rightarrow> Inl e
      | Inr own \<Rightarrow>
          (if own then
             (let fldname = root @ ''_'' @ ent_name fld in
              inlineStructFields stmap rest root sz
                (js_put m fldname (mkMapEntry fldname (ent_expand fld) (sz + ent_offset fld) (ent_type fld))))
           else inlineStructFields stmap rest root sz m))"

text \<open>
  \<^verbatim>\<open>layoutClass\<close> calls itself on the base class and \<^verbatim>\<open>layoutDefn\<close>
  calls \<^verbatim>\<open>layoutStruct\<close> on an embedded struct that has no map yet. The
  recursion ends when the cycle checker has accepted the definitions; the
  model bounds its depth by the first argument and returns \<open>None\<close> when the
  bound is reached. \<open>layoutProps\<close> is the loop over \<^verbatim>\<open>d.props\<close>.
\<close>

fun layoutProps ::
      "nat \<Rightarrow> Tables \<Rightarrow> Prop list \<Rightarrow> MapEntry jsobj \<Rightarrow> int \<Rightarrow> int \<Rightarrow>
       (error + Tables \<times> MapEntry jsobj \<times> int \<times> int) option"
  and layoutDefn ::
      "nat \<Rightarrow> Tables \<Rightarrow> string \<Rightarrow> MapEntry jsobj \<Rightarrow> int \<Rightarrow> int \<Rightarrow> (error + Tables) option"
where
  "layoutProps fuel T [] m sz al = Some (Inr (T, m, sz, al))"
| "layoutProps fuel T (p # ps) m sz al =
     (case prop_typeRef p of
        None \<Rightarrow> Some (Inl TypeError)
      | Some (PrimRef pt) \<Rightarrow>
          if prop_isArray p then
            (let sz1 = js_and (sz + 3) (js_not 3) in
             layoutProps fuel T ps
               (js_put m (prop_name p) (mkMapEntry (prop_name p) True sz1 (PrimRef builtin_int32)))
               (sz1 + 4) (max al 4))
          else
            (let sz1 = js_and (sz + prim_size pt - 1) (js_not (prim_size pt - 1)) in
             layoutProps fuel T ps
               (js_put m (prop_name p) (mkMapEntry (prop_name p) True sz1 (PrimRef pt)))
               (sz1 + prim_size pt) (max al (prim_align pt)))
      | Some (UserRef tn) \<Rightarrow>
          (case getDefn T tn of
             None \<Rightarrow> Some (Inl TypeError)
           | Some t \<Rightarrow>
               if prop_isArray p \<or> d_kind t = Class then
                 (let sz1 = js_and (sz + 3) (js_not 3) in
                  layoutProps fuel T ps
                    (js_put m (prop_name p) (mkMapEntry (prop_name p) True sz1 (PrimRef builtin_int32)))
                    (sz1 + 4) (max al 4))
               else if d_kind t = Struct then
                 (case (if d_map t = None
                        then (case fuel of 0 \<Rightarrow> None | Suc f \<Rightarrow> layoutDefn f T tn [] 0 0)
                        else Some (Inr T)) of
                    None \<Rightarrow> None
                  | Some (Inl e) \<Rightarrow> Some (Inl e)
                  | Some (Inr T1) \<Rightarrow>
                      (case getDefn T1 tn of
                         None \<Rightarrow> Some (Inl TypeError)
                       | Some st \<Rightarrow>
                           (case d_map st of
                              None \<Rightarrow> Some (Inl TypeError)
                            | Some stmap \<Rightarrow>
                                (let sz1 = js_and (sz + d_align st - 1) (js_not (d_align st - 1));
                                     m1 = js_put m (prop_name p)
                                            (mkMapEntry (prop_name p) False sz1 (UserRef tn))
                                 in case inlineStructFields stmap stmap (prop_name p) sz1 m1 of
                                      Inl e \<Rightarrow> Some (Inl e)
                                    | Inr m2 \<Rightarrow>
                                        layoutProps fuel T1 ps m2 (sz1 + d_size st)
                                          (max al (d_align st))))))
               else layoutProps fuel T ps m sz al))"
| "layoutDefn fuel T nm m sz al =
     (case getDefn T nm of
        None \<Rightarrow> Some (Inl TypeError)
      | Some d \<Rightarrow>
          (case layoutProps fuel T (d_props d) m sz al of
             None \<Rightarrow> None
           | Some (Inl e) \<Rightarrow> Some (Inl e)
           | Some (Inr (T1, m1, sz1, al1)) \<Rightarrow>
               (case getDefn T1 nm of
                  None \<Rightarrow> Some (Inl TypeError)
                | Some d1 \<Rightarrow>
                    (let sz2 = (if d_kind d1 = Struct
                                then js_and (sz1 + al1 - 1) (js_not (al1 - 1)) else sz1)
                     in Some (Inr (putDefn T1
                          (d1\<lparr>d_map := Some m1, d_size := sz2, d_align := al1\<rparr>)))))))"

definition layoutStruct :: "nat \<Rightarrow> Tables \<Rightarrow> string \<Rightarrow> (error + Tables) option" where
  "layoutStruct fuel T nm = layoutDefn fuel T nm [] 0 0"

text \<open>
  \<^verbatim>\<open>layoutClass\<close>, in three parts. \<open>assignClassId\<close> is what it does
  after \<^verbatim>\<open>layoutDefn\<close>: the dotted class name, the class identifier, and
  the check against \<^verbatim>\<open>knownIds\<close>. The check is
  \<^verbatim>\<open>if (knownIds[d.classId])\<close>: an identifier counts as taken when the
  name stored under it is a non-empty string (\<open>idTaken\<close>).
  \<open>startFromBase\<close> is the starting state copied from a base class that has
  been laid out: \<^verbatim>\<open>shallowCopy(d.baseTypeRef.map)\<close>, its size and its
  alignment.
\<close>

definition idTaken :: "Tables \<Rightarrow> int \<Rightarrow> bool" where
  "idTaken T cid = (case map_of (knownIds T) cid of Some prev \<Rightarrow> prev \<noteq> [] | None \<Rightarrow> False)"

definition assignClassId :: "Tables \<Rightarrow> string \<Rightarrow> error + Tables" where
  "assignClassId T nm =
     (case getDefn T nm of
        None \<Rightarrow> Inl TypeError
      | Some d \<Rightarrow>
          (case (case d_baseTypeRef d of
                   None \<Rightarrow> Inr (d_name d)
                 | Some b \<Rightarrow>
                     (case getDefn T b of
                        None \<Rightarrow> Inl TypeError
                      | Some bd \<Rightarrow> Inr (d_className bd @ ''>'' @ d_name d))) of
             Inl e \<Rightarrow> Inl e
           | Inr cn \<Rightarrow>
               (case computeClassId cn of
                  Inl e \<Rightarrow> Inl e
                | Inr cid \<Rightarrow>
                    (if idTaken T cid
                     then Inl (DuplicateClassId cn cid)
                     else Inr ((putDefn T (d\<lparr>d_className := cn, d_classId := cid\<rparr>))
                                 \<lparr>knownIds := js_put (knownIds T) cid cn\<rparr>)))))"

definition startFromBase :: "Tables \<Rightarrow> string \<Rightarrow> error + MapEntry jsobj \<times> int \<times> int" where
  "startFromBase T b =
     (case getDefn T b of
        None \<Rightarrow> Inl TypeError
      | Some bd \<Rightarrow>
          (case d_map bd of
             None \<Rightarrow> Inl TypeError
           | Some bm \<Rightarrow>
               (case shallowCopy bm of
                  Inl e \<Rightarrow> Inl e
                | Inr m \<Rightarrow> Inr (m, d_size bd, d_align bd))))"

definition layoutDefnAndAssignId ::
  "nat \<Rightarrow> Tables \<Rightarrow> string \<Rightarrow> MapEntry jsobj \<Rightarrow> int \<Rightarrow> int \<Rightarrow> (error + Tables) option" where
  "layoutDefnAndAssignId fuel T nm m sz al =
     (case layoutDefn fuel T nm m sz al of
        None \<Rightarrow> None
      | Some (Inl e) \<Rightarrow> Some (Inl e)
      | Some (Inr T2) \<Rightarrow> Some (assignClassId T2 nm))"

fun layoutClass :: "nat \<Rightarrow> Tables \<Rightarrow> string \<Rightarrow> (error + Tables) option" where
  "layoutClass fuel T nm =
     (case getDefn T nm of
        None \<Rightarrow> Some (Inl TypeError)
      | Some d \<Rightarrow>
          if d_baseName d \<noteq> [] then
            (case d_baseTypeRef d of
               None \<Rightarrow> Some (Inl TypeError)
             | Some b \<Rightarrow>
                 (case getDefn T b of
                    None \<Rightarrow> Some (Inl TypeError)
                  | Some bd \<Rightarrow>
                      (case (if d_map bd = None
                             then (case fuel of 0 \<Rightarrow> None | Suc f \<Rightarrow> layoutClass f T b)
                             else Some (Inr T)) of
                         None \<Rightarrow> None
                       | Some (Inl e) \<Rightarrow> Some (Inl e)
                       | Some (Inr T1) \<Rightarrow>
                           (case startFromBase T1 b of
                              Inl e \<Rightarrow> Some (Inl e)
                            | Inr (m, sz, al) \<Rightarrow> layoutDefnAndAssignId fuel T1 nm m sz al))))
          else layoutDefnAndAssignId fuel T nm [] 4 4)"

declare layoutClass.simps [simp del]

fun layoutTypesLoop :: "nat \<Rightarrow> Tables \<Rightarrow> string list \<Rightarrow> (error + Tables) option" where
  "layoutTypesLoop fuel T [] = Some (Inr T)"
| "layoutTypesLoop fuel T (nm # rest) =
     (case getDefn T nm of
        None \<Rightarrow> Some (Inl TypeError)
      | Some d \<Rightarrow>
          (case (if d_kind d = Class then layoutClass fuel T nm else layoutStruct fuel T nm) of
             None \<Rightarrow> None
           | Some (Inl e) \<Rightarrow> Some (Inl e)
           | Some (Inr T1) \<Rightarrow> layoutTypesLoop fuel T1 rest))"

definition layoutTypes :: "nat \<Rightarrow> Tables \<Rightarrow> (error + Tables) option" where
  "layoutTypes fuel T = layoutTypesLoop fuel T (allTypes T)"

section \<open>Virtual-table builder\<close>

text \<open>
  The loops of this pass follow \<^verbatim>\<open>baseTypeRef\<close> and \<^verbatim>\<open>subclasses\<close>
  links, which end when the inheritance graph has no cycle. Each function takes
  a bound on the number of its loop iterations (recursive calls) as first
  argument and returns \<open>None\<close> when the bound is reached.
\<close>

definition hasMethod :: "UserDefn \<Rightarrow> string \<Rightarrow> bool" where
  "hasMethod cls nm = list_ex (\<lambda>m. meth_name m = nm) (d_methods cls)"

text \<open>\<^verbatim>\<open>stopAt\<close> is a class or \<^verbatim>\<open>null\<close>; classes are compared by identity.\<close>

fun findMethodImplFor ::
  "nat \<Rightarrow> Tables \<Rightarrow> string \<Rightarrow> string option \<Rightarrow> string \<Rightarrow> (error + string option) option" where
  "findMethodImplFor 0 T cls stopAt nm = None"
| "findMethodImplFor (Suc fuel) T cls stopAt nm =
     (if Some cls = stopAt then Some (Inr None)
      else
        (case getDefn T cls of
           None \<Rightarrow> Some (Inl TypeError)
         | Some c \<Rightarrow>
             if hasMethod c nm then Some (Inr (Some (d_name c @ ''.'' @ nm @ ''_impl'')))
             else
               (case d_baseTypeRef c of
                  Some b \<Rightarrow> findMethodImplFor fuel T b stopAt nm
                | None \<Rightarrow> Some (Inl (MethodNotFound nm)))))"

record VirtualMethodNameIterator =
  it_i :: nat
  it_inherited :: bool
  it_filter :: "bool jsobj"
  it_cls :: string

definition newVirtualMethodNameIterator :: "string \<Rightarrow> VirtualMethodNameIterator" where
  "newVirtualMethodNameIterator cls =
     \<lparr>it_i = 0, it_inherited = False, it_filter = [], it_cls = cls\<rparr>"

fun nextName ::
  "nat \<Rightarrow> Tables \<Rightarrow> VirtualMethodNameIterator \<Rightarrow>
   (error + (string \<times> bool) \<times> VirtualMethodNameIterator) option" where
  "nextName 0 T it = None"
| "nextName (Suc fuel) T it =
     (case getDefn T (it_cls it) of
        None \<Rightarrow> Some (Inl TypeError)
      | Some c \<Rightarrow>
          if it_i it = length (d_methods c) then
            (case d_baseTypeRef c of
               None \<Rightarrow> Some (Inr (([], False), it))
             | Some b \<Rightarrow> nextName fuel T (it\<lparr>it_i := 0, it_cls := b, it_inherited := True\<rparr>))
          else if it_i it < length (d_methods c) then
            (let m = d_methods c ! it_i it;
                 it1 = it\<lparr>it_i := it_i it + 1\<rparr>
             in if meth_kind m \<noteq> Virtual then nextName fuel T it1
                else if meth_name m = ''init'' then nextName fuel T it1
                else
                  (case hasOwnProperty (it_filter it1) (meth_name m) of
                     Inl e \<Rightarrow> Some (Inl e)
                   | Inr True \<Rightarrow> nextName fuel T it1
                   | Inr False \<Rightarrow>
                       Some (Inr ((meth_name m, it_inherited it1),
                                  it1\<lparr>it_filter := js_put (it_filter it1) (meth_name m) True\<rparr>))))
          else Some (Inl TypeError))"

text \<open>
  \<^verbatim>\<open>InclusiveSubclassIterator\<close>. Its stack holds a class, or an array of
  classes followed by an index into it; the two entries of the second kind are
  always pushed and popped together and are one frame here.
\<close>

datatype SubclassFrame = ClassFrame string | ArrayFrame "string list" nat

definition pushSubclasses :: "UserDefn \<Rightarrow> SubclassFrame list \<Rightarrow> SubclassFrame list" where
  "pushSubclasses cls stack =
     (if length (d_subclasses cls) > 0 then ArrayFrame (d_subclasses cls) 0 # stack else stack)"

fun nextSubclass ::
  "Tables \<Rightarrow> SubclassFrame list \<Rightarrow> error + string option \<times> SubclassFrame list" where
  "nextSubclass T [] = Inr (None, [])"
| "nextSubclass T (ArrayFrame xs x # stack) =
     (if x < length xs then
        (case getDefn T (xs ! x) of
           None \<Rightarrow> Inl TypeError
         | Some cls \<Rightarrow>
             Inr (Some (xs ! x),
                  pushSubclasses cls
                    (if x + 1 < length xs then ArrayFrame xs (x + 1) # stack else stack)))
      else Inl TypeError)"
| "nextSubclass T (ClassFrame c # stack) =
     (case getDefn T c of
        None \<Rightarrow> Inl TypeError
      | Some cls \<Rightarrow> Inr (Some c, pushSubclasses cls stack))"

text \<open>The loop over the inclusive subclasses that fills \<^verbatim>\<open>reverseCases\<close>.\<close>

fun reverseCasesLoop ::
  "nat \<Rightarrow> Tables \<Rightarrow> string option \<Rightarrow> string \<Rightarrow> SubclassFrame list \<Rightarrow> int list jsobj \<Rightarrow>
   (error + int list jsobj) option" where
  "reverseCasesLoop 0 T stopAt mname stack rc = None"
| "reverseCasesLoop (Suc fuel) T stopAt mname stack rc =
     (case nextSubclass T stack of
        Inl e \<Rightarrow> Some (Inl e)
      | Inr (None, stack1) \<Rightarrow> Some (Inr rc)
      | Inr (Some subcls, stack1) \<Rightarrow>
          (case findMethodImplFor (Suc fuel) T subcls stopAt mname of
             None \<Rightarrow> None
           | Some (Inl e) \<Rightarrow> Some (Inl e)
           | Some (Inr None) \<Rightarrow> reverseCasesLoop fuel T stopAt mname stack1 rc
           | Some (Inr (Some impl)) \<Rightarrow>
               (case getDefn T subcls of
                  None \<Rightarrow> Some (Inl TypeError)
                | Some sc \<Rightarrow>
                    (case hasOwnProperty rc impl of
                       Inl e \<Rightarrow> Some (Inl e)
                     | Inr own \<Rightarrow>
                         (let rc1 = (if own then rc else js_put rc impl []);
                              ids = (case map_of rc1 impl of Some l \<Rightarrow> l | None \<Rightarrow> [])
                          in reverseCasesLoop fuel T stopAt mname stack1
                               (js_put rc1 impl (ids @ [d_classId sc])))))))"

text \<open>The loop over the virtual method names that fills \<^verbatim>\<open>vtable\<close>.\<close>

fun vtableLoop ::
  "nat \<Rightarrow> Tables \<Rightarrow> UserDefn \<Rightarrow> VirtualMethodNameIterator \<Rightarrow> VirtualEntry list \<Rightarrow>
   (error + VirtualEntry list) option" where
  "vtableLoop 0 T cls mnames vtable = None"
| "vtableLoop (Suc fuel) T cls mnames vtable =
     (case nextName (Suc fuel) T mnames of
        None \<Rightarrow> None
      | Some (Inl e) \<Rightarrow> Some (Inl e)
      | Some (Inr ((mname, isInherited), mnames1)) \<Rightarrow>
          if mname = [] then Some (Inr vtable)
          else
            (case reverseCasesLoop (Suc fuel) T (d_baseTypeRef cls) mname
                    [ClassFrame (d_name cls)] [] of
               None \<Rightarrow> None
             | Some (Inl e) \<Rightarrow> Some (Inl e)
             | Some (Inr rc) \<Rightarrow>
                 (case (case d_baseTypeRef cls of
                          Some b \<Rightarrow>
                            if isInherited then findMethodImplFor (Suc fuel) T b None mname
                            else Some (Inr None)
                        | None \<Rightarrow> Some (Inr None)) of
                    None \<Rightarrow> None
                  | Some (Inl e) \<Rightarrow> Some (Inl e)
                  | Some (Inr def) \<Rightarrow>
                      vtableLoop fuel T cls mnames1
                        (vtable @ [\<lparr>virt_name = mname, virt_reverseCases = rc,
                                    virt_default = def\<rparr>]))))"

definition createVirtualsFor :: "nat \<Rightarrow> Tables \<Rightarrow> string \<Rightarrow> (error + Tables) option" where
  "createVirtualsFor fuel T nm =
     (case getDefn T nm of
        None \<Rightarrow> Some (Inl TypeError)
      | Some cls \<Rightarrow>
          (case vtableLoop fuel T cls (newVirtualMethodNameIterator nm) [] of
             None \<Rightarrow> None
           | Some (Inl e) \<Rightarrow> Some (Inl e)
           | Some (Inr vtable) \<Rightarrow> Some (Inr (putDefn T (cls\<lparr>d_vtable := Some vtable\<rparr>)))))"

fun createVirtualsLoop :: "nat \<Rightarrow> Tables \<Rightarrow> string list \<Rightarrow> (error + Tables) option" where
  "createVirtualsLoop fuel T [] = Some (Inr T)"
| "createVirtualsLoop fuel T (nm # rest) =
     (case getDefn T nm of
        None \<Rightarrow> Some (Inl TypeError)
      | Some t \<Rightarrow>
          if d_kind t = Class then
            (case createVirtualsFor fuel T nm of
               None \<Rightarrow> None
             | Some (Inl e) \<Rightarrow> Some (Inl e)
             | Some (Inr T1) \<Rightarrow> createVirtualsLoop fuel T1 rest)
          else createVirtualsLoop fuel T rest)"

definition createVirtuals :: "nat \<Rightarrow> Tables \<Rightarrow> (error + Tables) option" where
  "createVirtuals fuel T = createVirtualsLoop fuel T (allTypes T)"

section \<open>The passes over the type definitions\<close>

text \<open>
  The part of \<^verbatim>\<open>main\<close> between the collector and the paste-up, for the
  definitions collected from all files: \<^verbatim>\<open>buildTypeMap\<close>,
  \<^verbatim>\<open>resolveTypeRefs\<close>, \<^verbatim>\<open>checkRecursion\<close>, \<^verbatim>\<open>layoutTypes\<close> and
  \<^verbatim>\<open>createVirtuals\<close>.
\<close>

definition emptyTables :: Tables where
  "emptyTables = \<lparr>knownTypes = [], knownIds = []\<rparr>"

definition resolvePasses :: "UserDefn list \<Rightarrow> error + Tables" where
  "resolvePasses defs =
     (case buildTypeMap emptyTables defs of
        Inl e \<Rightarrow> Inl e
      | Inr T1 \<Rightarrow> resolveTypeRefs T1)"

definition layoutPasses :: "nat \<Rightarrow> UserDefn list \<Rightarrow> (error + Tables) option" where
  "layoutPasses fuel defs =
     (case resolvePasses defs of
        Inl e \<Rightarrow> Some (Inl e)
      | Inr T2 \<Rightarrow>
          (case checkRecursion fuel T2 of
             None \<Rightarrow> None
           | Some (Inl e) \<Rightarrow> Some (Inl e)
           | Some (Inr u) \<Rightarrow> layoutTypes fuel T2))"

definition typePasses :: "nat \<Rightarrow> UserDefn list \<Rightarrow> (error + Tables) option" where
  "typePasses fuel defs =
     (case layoutPasses fuel defs of
        None \<Rightarrow> None
      | Some (Inl e) \<Rightarrow> Some (Inl e)
      | Some (Inr T3) \<Rightarrow> createVirtuals fuel T3)"

definition tablesOf :: "(error + Tables) option \<Rightarrow> Tables" where
  "tablesOf r = (case r of Some (Inr T) \<Rightarrow> T | _ \<Rightarrow> emptyTables)"

definition vtableNames :: "UserDefn \<Rightarrow> string list" where
  "vtableNames d = (case d_vtable d of None \<Rightarrow> [] | Some vt \<Rightarrow> map virt_name vt)"

text \<open>Observers of the result of the passes.\<close>

definition definedType :: "(error + Tables) option \<Rightarrow> string \<Rightarrow> UserDefn option" where
  "definedType r nm = (case r of Some (Inr T) \<Rightarrow> getDefn T nm | _ \<Rightarrow> None)"

definition fieldEntry :: "(error + Tables) option \<Rightarrow> string \<Rightarrow> string \<Rightarrow> MapEntry option" where
  "fieldEntry r nm f =
     (case definedType r nm of
        Some d \<Rightarrow> (case d_map d of Some m \<Rightarrow> map_of m f | None \<Rightarrow> None)
      | None \<Rightarrow> None)"

definition vtableEntry :: "(error + Tables) option \<Rightarrow> string \<Rightarrow> string \<Rightarrow> VirtualEntry option" where
  "vtableEntry r nm f =
     (case definedType r nm of
        Some d \<Rightarrow>
          (case d_vtable d of
             Some vt \<Rightarrow> find (\<lambda>v. virt_name v = f) vt
           | None \<Rightarrow> None)
      | None \<Rightarrow> None)"

section \<open>The helper log2\<close>

text \<open>
  \<^verbatim>\<open>function log2(x) { if (i <= 0) throw ...; var i = 0;
  while (x > 1) { i++; x >>= 1; } return i; }\<close>
  The guard reads the hoisted \<^verbatim>\<open>i\<close>, not \<^verbatim>\<open>x\<close>.
\<close>

lemma js_shr_1_less: "1 < x \<Longrightarrow> js_shr x 1 < x"
proof -
  assume x: "1 < x"
  have "signed_take_bit 31 x \<le> x"
    using x by (simp add: signed_take_bit_int_less_eq_self_iff)
  then have "signed_take_bit 31 x div 2 < x"
    using x by linarith
  then show ?thesis
    by (simp add: js_shr_def sint_signed_drop_bit_eq sint_sbintrunc' drop_bit_eq_div)
qed

function log2_loop :: "int \<Rightarrow> int \<Rightarrow> int" where
  "log2_loop i x = (if 1 < x then log2_loop (i + 1) (js_shr x 1) else i)"
  by pat_completeness auto
termination
  by (relation "measure (\<lambda>(i, x). nat x)") (use js_shr_1_less in force)+

definition log2 :: "int \<Rightarrow> error + int" where
  "log2 x =
     (let i = Undefined in
      if js_le i 0 then Inl (Log2Error x)
      else Inr (log2_loop 0 x))"

section \<open>Global macro expander\<close>

subsection \<open>Numbers and strings\<close>

text \<open>The decimal digits of an integer, as string concatenation prints a Number.\<close>

function showNat :: "nat \<Rightarrow> string" where
  "showNat n =
     (if n < 10 then [char_of (48 + n)]
      else showNat (n div 10) @ [char_of (48 + n mod 10)])"
  by pat_completeness auto
termination
  by (relation "measure id") auto

declare showNat.simps [simp del]

definition showInt :: "int \<Rightarrow> string" where
  "showInt i = (if i < 0 then CHR ''-'' # showNat (nat (- i)) else showNat (nat i))"

text \<open>
  A field-map entry as the macros read it: an entry of the map, or a property
  every object inherits, whose \<^verbatim>\<open>offset\<close> and \<^verbatim>\<open>type\<close> are
  \<^verbatim>\<open>undefined\<close>.
\<close>

definition showOffset :: "MapEntry lookup \<Rightarrow> string" where
  "showOffset fld = (case fld of Own e \<Rightarrow> showInt (ent_offset e) | _ \<Rightarrow> ''undefined'')"

definition isSpace :: "char \<Rightarrow> bool" where
  "isSpace c = inCharset c Space"

text \<open>\<^verbatim>\<open>s.replace(/^\s*|\s*$/g, "")\<close>, then \<^verbatim>\<open>null\<close> for the empty string.\<close>

definition cleanupArg :: "string \<Rightarrow> string option" where
  "cleanupArg s =
     (let s1 = rev (dropWhile isSpace (rev (dropWhile isSpace s)))
      in if s1 = [] then None else Some s1)"

definition endstrip :: "string \<Rightarrow> string" where
  "endstrip x =
     (if x \<noteq> [] \<and> list_all (\<lambda>c. inClass c alnum) x then x else ''('' @ x @ '')'')"

subsection \<open>Argument parser\<close>

text \<open>
  \<^verbatim>\<open>ParamParser.allArgs\<close> with \<^verbatim>\<open>nextArg\<close> inlined: one scan over the
  characters of the input from \<^verbatim>\<open>pos\<close>. \<open>depth\<close> and \<open>arg\<close> (the
  characters since \<^verbatim>\<open>start\<close>) belong to the call of \<^verbatim>\<open>nextArg\<close> in
  progress, \<open>as\<close> is the array of \<^verbatim>\<open>allArgs\<close>. The scan ends when
  \<^verbatim>\<open>nextArg\<close> returns \<^verbatim>\<open>null\<close> (an empty argument, or the call after the
  closing parenthesis) or \<^verbatim>\<open>undefined\<close> (end of input). The result is the
  array and \<^verbatim>\<open>pp.where\<close>.
\<close>

fun allArgsScan ::
  "string \<Rightarrow> nat \<Rightarrow> int \<Rightarrow> string \<Rightarrow> string list \<Rightarrow> error + string list \<times> nat" where
  "allArgsScan [] pos depth arg as = Inr (as, pos)"
| "allArgsScan (ch # rest) pos depth arg as =
     (if ch = CHR '','' then
        (if depth = 0 then
           (case cleanupArg arg of
              None \<Rightarrow> Inr (as, Suc pos)
            | Some a \<Rightarrow> allArgsScan rest (Suc pos) 0 [] (as @ [a]))
         else allArgsScan rest (Suc pos) depth (arg @ [ch]) as)
      else if ch = CHR ''('' \<or> ch = CHR ''{'' \<or> ch = CHR ''['' then
        allArgsScan rest (Suc pos) (depth + 1) (arg @ [ch]) as
      else if ch = CHR ''}'' \<or> ch = CHR '']'' then
        allArgsScan rest (Suc pos) (depth - 1) (arg @ [ch]) as
      else if ch = CHR '')'' then
        (if depth = 0 then
           (case cleanupArg arg of
              None \<Rightarrow> Inr (as, Suc pos)
            | Some a \<Rightarrow> Inr (as @ [a], Suc pos))
         else allArgsScan rest (Suc pos) (depth - 1) (arg @ [ch]) as)
      else if ch = CHR 0x27 \<or> ch = CHR 0x22 then Inl StringsInArguments
      else allArgsScan rest (Suc pos) depth (arg @ [ch]) as)"

text \<open>\<^verbatim>\<open>new ParamParser(s, pos).allArgs()\<close> together with \<^verbatim>\<open>pp.where\<close>.\<close>

definition allArgs :: "string \<Rightarrow> nat \<Rightarrow> error + string list \<times> nat" where
  "allArgs input pos = allArgsScan (drop pos input) pos 0 [] []"

subsection \<open>The macros\<close>

text \<open>
  The macros call \<^verbatim>\<open>expandMacrosIn\<close> on their arguments; in the model they
  take that function as their first parameter \<open>expand\<close>. A macro returns the
  new text and the index at which the search continues.
\<close>

type_synonym expander = "string \<Rightarrow> (error + string) option"
type_synonym macroResult = "(error + string \<times> nat) option"

text \<open>\<^verbatim>\<open>UserDefn.findAccessibleFieldFor\<close>; the map of a type that has not been
  laid out is \<^verbatim>\<open>null\<close>.\<close>

definition findAccessibleFieldFor :: "UserDefn \<Rightarrow> string \<Rightarrow> string \<Rightarrow> error + MapEntry lookup" where
  "findAccessibleFieldFor d operation prop =
     (if operation = ''get_'' \<or> operation = ''set_'' \<or> operation = ''ref_'' then
        (case d_map d of
           None \<Rightarrow> Inl TypeError
         | Some m \<Rightarrow> Inr (js_get m prop))
      else Inr Absent)"

definition findType :: "Tables \<Rightarrow> string \<Rightarrow> error + TypeRef" where
  "findType T nm =
     (case map_of builtinTypes nm of
        Some pt \<Rightarrow> Inr (PrimRef pt)
      | None \<Rightarrow>
          (case hasOwnProperty (knownTypes T) nm of
             Inl e \<Rightarrow> Inl e
           | Inr True \<Rightarrow> Inr (UserRef nm)
           | Inr False \<Rightarrow> Inl (UnknownTypeInSizeofType nm)))"

text \<open>
  \<^verbatim>\<open>loadFromRef\<close>. \<open>type\<close> is \<open>None\<close> when the source passes
  \<^verbatim>\<open>undefined\<close> (the type of an inherited property), and reading its
  \<^verbatim>\<open>kind\<close> is a TypeError. \<open>after\<close> is \<^verbatim>\<open>s.substring(pp.where)\<close>.
\<close>

definition replaced :: "string \<Rightarrow> string \<Rightarrow> string \<Rightarrow> macroResult" where
  "replaced left expr after = Some (Inr (left @ expr @ after, length left + length expr))"

definition loadFromRef ::
  "expander \<Rightarrow> Tables \<Rightarrow> string \<Rightarrow> TypeRef option \<Rightarrow> string \<Rightarrow> string \<Rightarrow> string \<Rightarrow>
   string option \<Rightarrow> (string \<times> nat) \<Rightarrow> macroResult" where
  "loadFromRef expand T ref type left operation after rhs nomatch =
     (case (case type of
              None \<Rightarrow> Inl TypeError
            | Some (PrimRef pt) \<Rightarrow> Inr (memory pt, prim_size pt, None)
            | Some (UserRef tn) \<Rightarrow>
                (case getDefn T tn of
                   None \<Rightarrow> Inl TypeError
                 | Some t \<Rightarrow>
                     if d_kind t = Class then Inr (''_mem_int32'', 4, None)
                     else Inr ([], 0, Some t))) of
        Inl e \<Rightarrow> Some (Inl e)
      | Inr (mem, sz, struct) \<Rightarrow>
          if sz > 0 then
            (if operation = ''get_'' then
               (case log2 sz of
                  Inl e \<Rightarrow> Some (Inl e)
                | Inr k \<Rightarrow>
                    replaced left (''('' @ mem @ ''['' @ ref @ ''>>'' @ showInt k @ ''])'') after)
             else if operation = ''set_'' then
               (case log2 sz of
                  Inl e \<Rightarrow> Some (Inl e)
                | Inr k \<Rightarrow>
                    (case expand (endstrip (case rhs of Some r \<Rightarrow> r | None \<Rightarrow> ''undefined'')) of
                       None \<Rightarrow> None
                     | Some (Inl e) \<Rightarrow> Some (Inl e)
                     | Some (Inr r) \<Rightarrow>
                         replaced left
                           (''('' @ mem @ ''['' @ ref @ ''>>'' @ showInt k @ ''] = '' @ r @ '')'')
                           after))
             else Some (Inr nomatch))
          else
            (case struct of
               None \<Rightarrow> Some (Inl TypeError)
             | Some t \<Rightarrow>
                 if operation = ''get_'' then
                   (if \<not> d_hasGetMethod t then Some (Inr nomatch)
                    else replaced left (''('' @ d_name t @ ''._get_impl('' @ ref @ ''))'') after)
                 else if operation = ''set_'' then
                   (if \<not> d_hasSetMethod t then Some (Inr nomatch)
                    else
                      (case expand (endstrip (case rhs of Some r \<Rightarrow> r | None \<Rightarrow> ''undefined'')) of
                         None \<Rightarrow> None
                       | Some (Inl e) \<Rightarrow> Some (Inl e)
                       | Some (Inr r) \<Rightarrow>
                           replaced left
                             (''('' @ d_name t @ ''._set_impl('' @ ref @ '','' @ r @ ''))'')
                             after))
                 else Some (Inr nomatch)))"

text \<open>
  \<^verbatim>\<open>expandMacrosIn(endstrip(as[k]))\<close>. When the array has no element k the
  argument is \<^verbatim>\<open>undefined\<close>, which passes through \<^verbatim>\<open>endstrip\<close> and the
  expander unchanged and is printed as the text \<^verbatim>\<open>undefined\<close>.
\<close>

definition expandArg :: "expander \<Rightarrow> string list \<Rightarrow> nat \<Rightarrow> (error + string) option" where
  "expandArg expand as k =
     (if k < length as then expand (endstrip (as ! k)) else Some (Inr ''undefined''))"

definition argOpt :: "string list \<Rightarrow> nat \<Rightarrow> string option" where
  "argOpt as k = (if k < length as then Some (as ! k) else None)"

definition accMacro :: "expander \<Rightarrow> Tables \<Rightarrow> string \<Rightarrow> nat \<Rightarrow> rmatch \<Rightarrow> macroResult" where
  "accMacro expand T s p ms =
     (let m = matched s ms;
          className = groupOrEmpty ms 1;
          operation = (case grp ms 2 of Some opn \<Rightarrow> opn | None \<Rightarrow> ''get_'');
          propName = groupOrEmpty ms 3;
          nomatch = (s, p + length m);
          left = take p s
      in case js_get (knownTypes T) className of
           Absent \<Rightarrow> Some (Inr nomatch)
         | Inherited \<Rightarrow> Some (Inl TypeError)
         | Own cls \<Rightarrow>
             (case findAccessibleFieldFor cls operation propName of
                Inl e \<Rightarrow> Some (Inl e)
              | Inr Absent \<Rightarrow> Some (Inr nomatch)
              | Inr fld \<Rightarrow>
                  (case allArgs s (p + length m) of
                     Inl e \<Rightarrow> Some (Inl e)
                   | Inr (as, wh) \<Rightarrow>
                       if operation = ''get_'' \<and> length as \<noteq> 1 then Some (Inr nomatch)
                       else if operation = ''set_'' \<and> length as \<noteq> 2 then Some (Inr nomatch)
                       else
                         (case expandArg expand as 0 of
                            None \<Rightarrow> None
                          | Some (Inl e) \<Rightarrow> Some (Inl e)
                          | Some (Inr a0) \<Rightarrow>
                              (let ref = ''('' @ a0 @ ''+'' @ showOffset fld @ '')'' in
                               if operation = ''ref_'' then replaced left ref (drop wh s)
                               else
                                 loadFromRef expand T ref
                                   (case fld of Own e \<Rightarrow> Some (ent_type e) | _ \<Rightarrow> None)
                                   left operation (drop wh s) (argOpt as 1) nomatch)))))"

definition arrMacro :: "expander \<Rightarrow> Tables \<Rightarrow> string \<Rightarrow> nat \<Rightarrow> rmatch \<Rightarrow> macroResult" where
  "arrMacro expand T s p ms =
     (let m = matched s ms;
          typeName = groupOrEmpty ms 1;
          field = grp ms 3;
          nomatch = (s, p + length m)
      in case findType T typeName of
           Inl e \<Rightarrow> Some (Inl e)
         | Inr type \<Rightarrow>
             (case allArgs s (p + length m) of
                Inl e \<Rightarrow> Some (Inl e)
              | Inr (as, wh) \<Rightarrow>
                  if grp ms 2 = Some ''get'' \<and> length as \<noteq> 2 then Some (Inr nomatch)
                  else if grp ms 2 = Some ''set'' \<and> length as \<noteq> 3 then Some (Inr nomatch)
                  else
                    (let operation = (if grp ms 2 = Some ''get'' then ''get_''
                                      else if grp ms 2 = Some ''set'' then ''set_''
                                      else groupOrEmpty ms 2)
                     in case (case type of
                                PrimRef pt \<Rightarrow> Inr (Primitive, prim_size pt, None)
                              | UserRef tn \<Rightarrow>
                                  (case getDefn T tn of
                                     None \<Rightarrow> Inl TypeError
                                   | Some t \<Rightarrow> Inr (d_kind t, d_size t, Some t))) of
                          Inl e \<Rightarrow> Some (Inl e)
                        | Inr (kind, sz, user) \<Rightarrow>
                            if (kind = Primitive \<or> kind = Class) \<and> field \<noteq> None
                            then Some (Inr nomatch)
                            else
                              (case expandArg expand as 0 of
                                 None \<Rightarrow> None
                               | Some (Inl e) \<Rightarrow> Some (Inl e)
                               | Some (Inr a0) \<Rightarrow>
                                   (case expandArg expand as 1 of
                                      None \<Rightarrow> None
                                    | Some (Inl e) \<Rightarrow> Some (Inl e)
                                    | Some (Inr a1) \<Rightarrow>
                                        (let ref = ''('' @ a0 @ ''+'' @ showInt sz @ ''*'' @ a1 @ '')'' in
                                         case field of
                                           None \<Rightarrow>
                                             loadFromRef expand T ref (Some type) (take p s)
                                               operation (drop wh s) (argOpt as 2) nomatch
                                         | Some f \<Rightarrow>
                                             (case user of
                                                None \<Rightarrow> Some (Inl TypeError)
                                              | Some t \<Rightarrow>
                                                  (case findAccessibleFieldFor t operation f of
                                                     Inl e \<Rightarrow> Some (Inl e)
                                                   | Inr Absent \<Rightarrow> Some (Inr nomatch)
                                                   | Inr fld \<Rightarrow>
                                                       loadFromRef expand T
                                                         (''('' @ ref @ ''+'' @ showOffset fld @ '')'')
                                                         (case fld of Own e \<Rightarrow> Some (ent_type e)
                                                                    | _ \<Rightarrow> None)
                                                         (take p s) operation (drop wh s)
                                                         (argOpt as 2) nomatch))))))))"

text \<open>
  In \<^verbatim>\<open>newMacro\<close> the type of \<^verbatim>\<open>@new T\<close> is read with
  \<^verbatim>\<open>knownTypes[classType]\<close>; for an inherited property its \<^verbatim>\<open>size\<close> and
  \<^verbatim>\<open>align\<close> are \<^verbatim>\<open>undefined\<close>.
\<close>

definition newMacro :: "expander \<Rightarrow> Tables \<Rightarrow> string \<Rightarrow> nat \<Rightarrow> rmatch \<Rightarrow> macroResult" where
  "newMacro expand T s p ms =
     (let m = matched s ms;
          left = take p s
      in case grp ms 2 of
           Some classType \<Rightarrow>
             (case js_get (knownTypes T) classType of
                Absent \<Rightarrow> Some (Inl (UnknownTypeArgumentToNew classType))
              | Inherited \<Rightarrow>
                  replaced left
                    (''('' @ classType @ ''.initInstance(Parlang.alloc(undefined,undefined)))'')
                    (drop (p + length m) s)
              | Own t \<Rightarrow>
                  replaced left
                    (''('' @ classType @ ''.initInstance(Parlang.alloc('' @ showInt (d_size t)
                       @ '','' @ showInt (d_align t) @ '')))'')
                    (drop (p + length m) s))
         | None \<Rightarrow>
             (let arrayType = groupOrEmpty ms 1 in
              case allArgs s (p + length m) of
                Inl e \<Rightarrow> Some (Inl e)
              | Inr (as, wh) \<Rightarrow>
                  if length as \<noteq> 1 then Some (Inl (WrongNumberOfArgumentsToNewArray arrayType))
                  else
                    (case findType T arrayType of
                       Inl e \<Rightarrow> Some (Inl e)
                     | Inr type \<Rightarrow>
                         (case (case type of
                                  PrimRef pt \<Rightarrow> Inr (prim_size pt, prim_align pt)
                                | UserRef tn \<Rightarrow>
                                    (case getDefn T tn of
                                       None \<Rightarrow> Inl TypeError
                                     | Some t \<Rightarrow> Inr (d_size t, d_align t))) of
                            Inl e \<Rightarrow> Some (Inl e)
                          | Inr (sz, al) \<Rightarrow>
                              (case expandArg expand as 0 of
                                 None \<Rightarrow> None
                               | Some (Inl e) \<Rightarrow> Some (Inl e)
                               | Some (Inr a0) \<Rightarrow>
                                   replaced left
                                     (''(Parlang.alloc('' @ showInt sz @ '' * '' @ a0 @ '', ''
                                        @ showInt al @ ''))'')
                                     (drop wh s))))))"

subsection \<open>The expander\<close>

text \<open>
  \<^verbatim>\<open>myExec\<close>: the loop \<^verbatim>\<open>while (m = re.exec(text))\<close>, with
  \<^verbatim>\<open>re.lastIndex\<close> as the argument \<open>lastIndex\<close>. The first argument bounds
  the number of iterations; \<open>None\<close> says that the bound was reached.
\<close>

fun myExecLoop ::
  "nat \<Rightarrow> regex \<Rightarrow> (string \<Rightarrow> nat \<Rightarrow> rmatch \<Rightarrow> macroResult) \<Rightarrow> string \<Rightarrow> nat \<Rightarrow>
   (error + string) option" where
  "myExecLoop 0 re macro text lastIndex =
     (case re_exec re text lastIndex of None \<Rightarrow> Some (Inr text) | Some m \<Rightarrow> None)"
| "myExecLoop (Suc n) re macro text lastIndex =
     (case re_exec re text lastIndex of
        None \<Rightarrow> Some (Inr text)
      | Some m \<Rightarrow>
          (case macro text (m_end m - length (matched text m)) m of
             None \<Rightarrow> None
           | Some (Inl e) \<Rightarrow> Some (Inl e)
           | Some (Inr (newText, newStart)) \<Rightarrow> myExecLoop n re macro newText newStart))"

text \<open>
  Every iteration shortens the text behind \<^verbatim>\<open>lastIndex\<close>, so the loop runs
  at most once for each character of the text it starts on.
\<close>

definition myExec ::
  "regex \<Rightarrow> (string \<Rightarrow> nat \<Rightarrow> rmatch \<Rightarrow> macroResult) \<Rightarrow> string \<Rightarrow> (error + string) option" where
  "myExec re macro text = myExecLoop (length text) re macro text 0"

text \<open>
  \<^verbatim>\<open>expandMacrosIn\<close>:
  \<^verbatim>\<open>myExec(new_re, newMacro, myExec(arr_re, arrMacro, myExec(acc_re, accMacro, text)))\<close>.
  \<open>expandWith\<close> is its body, for a given expander of the arguments.
\<close>

definition expandWith :: "expander \<Rightarrow> Tables \<Rightarrow> string \<Rightarrow> (error + string) option" where
  "expandWith expand T text =
     (case myExec acc_re (accMacro expand T) text of
        None \<Rightarrow> None
      | Some (Inl e) \<Rightarrow> Some (Inl e)
      | Some (Inr t1) \<Rightarrow>
          (case myExec arr_re (arrMacro expand T) t1 of
             None \<Rightarrow> None
           | Some (Inl e) \<Rightarrow> Some (Inl e)
           | Some (Inr t2) \<Rightarrow> myExec new_re (newMacro expand T) t2))"

text \<open>
  The recursion of \<^verbatim>\<open>expandMacrosIn\<close> through the macros, bounded in depth
  by the first argument. An argument is shorter than the text it is taken
  from, so the length of the text bounds the depth.
\<close>

fun expandNested :: "nat \<Rightarrow> Tables \<Rightarrow> string \<Rightarrow> (error + string) option" where
  "expandNested 0 T text = expandWith (\<lambda>arg. None) T text"
| "expandNested (Suc n) T text = expandWith (expandNested n T) T text"

definition expandMacrosIn :: "Tables \<Rightarrow> string \<Rightarrow> (error + string) option" where
  "expandMacrosIn T text = expandNested (length text) T text"

section \<open>The scenarios of the specification\<close>

text \<open>
  The part of \<^verbatim>\<open>main\<close> from the collector to the virtual tables, for one
  input file: the tables after \<^verbatim>\<open>createVirtuals\<close>.
\<close>

definition definitionsOf :: "string list \<Rightarrow> UserDefn list" where
  "definitionsOf lines =
     (case collectDefinitions ''t.js.parlang'' lines of Inr (defs, nlines) \<Rightarrow> defs | Inl e \<Rightarrow> [])"

text \<open>The source text of each scenario, in the syntax the collector accepts.\<close>

definition pointSource :: "string list" where
  "pointSource =
     [''@shared class Point {'',
      ''  x: int32'',
      ''  y: int32'',
      ''} @end'']"

definition pointScenario :: "UserDefn list" where
  "pointScenario = definitionsOf pointSource"

definition pairBoxSource :: "string list" where
  "pairBoxSource =
     [''@shared struct Pair {'',
      ''  x: float64;'',
      ''  y: int32;'',
      ''} @end'',
      ''@shared class PairBox {'',
      ''  pad1: float32;'',
      ''  pad2: float64;'',
      ''  p: Pair;'',
      ''  pad3: int32;'',
      ''} @end'']"

definition pairBoxScenario :: "UserDefn list" where
  "pairBoxScenario = definitionsOf pairBoxSource"

text \<open>A struct without fields, embedded in a class before an int32 field.\<close>

definition emptyStructSource :: "string list" where
  "emptyStructSource =
     [''@shared struct E {'',
      ''} @end'',
      ''@shared class K {'',
      ''  e: E'',
      ''  x: int32'',
      ''} @end'']"

definition emptyStructScenario :: "UserDefn list" where
  "emptyStructScenario = definitionsOf emptyStructSource"

definition abcSource :: "string list" where
  "abcSource =
     [''@shared class A {'',
      ''  @method init(self) {'',
      ''  }'',
      ''  @method f(self) {'',
      ''  }'',
      ''} @end'',
      ''@shared class B extends A {'',
      ''  @method f(self) {'',
      ''  }'',
      ''} @end'',
      ''@shared class C extends B {'',
      ''} @end'']"

definition abcScenario :: "UserDefn list" where
  "abcScenario = definitionsOf abcSource"

text \<open>Two classes whose names hash to the same class identifier.\<close>

definition collisionSource :: "string list" where
  "collisionSource =
     [''@shared class AI {'',
      ''} @end'',
      ''@shared class BA {'',
      ''} @end'']"

definition collisionScenario :: "UserDefn list" where
  "collisionScenario = definitionsOf collisionSource"

text \<open>A class with a field named like the emitted \<^verbatim>\<open>initInstance\<close> function.\<close>

definition boxSource :: "string list" where
  "boxSource =
     [''@shared class Box {'',
      ''  initInstance: int32'',
      ''} @end'']"

definition boxScenario :: "UserDefn list" where
  "boxScenario = definitionsOf boxSource"

text \<open>The tables in which the macro expander runs for the class Point and for Box.\<close>

definition pointTables :: Tables where
  "pointTables = tablesOf (typePasses 10 pointScenario)"

definition boxTables :: Tables where
  "boxTables = tablesOf (typePasses 10 boxScenario)"

section \<open>Notions used in the proofs\<close>

text \<open>
  \<open>stepW\<close> is one step of the class-identifier loop on 32-bit words.
  \<open>freshTables\<close> describes the tables before the layout pass: every
  definition is stored under its own, non-empty name and no class has a dotted
  class name yet. The other predicates state what the layout pass preserves:
  \<open>idView\<close> is the part of a definition that matters for class identifiers,
  \<open>idFrame\<close> says that a step changed neither \<^verbatim>\<open>knownIds\<close> nor any
  \<open>idView\<close>, and \<open>idsInv\<close> that the identifier of every class laid out so
  far is taken in \<^verbatim>\<open>knownIds\<close> and differs from the others.
\<close>

definition stepW :: "32 word \<Rightarrow> 32 word \<Rightarrow> 32 word" where
  "stepW n v = (push_bit 3 (n AND mask 25) OR drop_bit 25 n) XOR v"

definition idView :: "UserDefn \<Rightarrow> string \<times> DefnKind \<times> string \<times> int" where
  "idView d = (d_name d, d_kind d, d_className d, d_classId d)"

definition idFrame :: "Tables \<Rightarrow> Tables \<Rightarrow> bool" where
  "idFrame T T1 \<longleftrightarrow>
     knownIds T1 = knownIds T \<and>
     (\<forall>n. map_option idView (getDefn T1 n) = map_option idView (getDefn T n))"

definition wellFormedTables :: "Tables \<Rightarrow> bool" where
  "wellFormedTables T \<longleftrightarrow> (\<forall>n d. getDefn T n = Some d \<longrightarrow> d_name d = n \<and> n \<noteq> [])"

definition laidOut :: "Tables \<Rightarrow> string \<Rightarrow> bool" where
  "laidOut T n \<longleftrightarrow> (\<exists>d. getDefn T n = Some d \<and> d_className d \<noteq> [])"

definition idsInv :: "Tables \<Rightarrow> bool" where
  "idsInv T \<longleftrightarrow>
     wellFormedTables T \<and>
     (\<forall>n d. getDefn T n = Some d \<longrightarrow> d_className d \<noteq> [] \<longrightarrow> idTaken T (d_classId d)) \<and>
     (\<forall>n1 n2 d1 d2. n1 \<noteq> n2 \<longrightarrow> getDefn T n1 = Some d1 \<longrightarrow> getDefn T n2 = Some d2 \<longrightarrow>
        d_className d1 \<noteq> [] \<longrightarrow> d_className d2 \<noteq> [] \<longrightarrow> d_classId d1 \<noteq> d_classId d2)"

definition sameKinds :: "Tables \<Rightarrow> Tables \<Rightarrow> bool" where
  "sameKinds T T1 \<longleftrightarrow> (\<forall>n. map_option d_kind (getDefn T1 n) = map_option d_kind (getDefn T n))"

definition idsProgress :: "Tables \<Rightarrow> Tables \<Rightarrow> bool" where
  "idsProgress T T1 \<longleftrightarrow>
     idsInv T1 \<and> (\<forall>n. laidOut T n \<longrightarrow> laidOut T1 n) \<and> sameKinds T T1"

definition freshTables :: "Tables \<Rightarrow> bool" where
  "freshTables T =
     list_all (\<lambda>(n, d). d_name d = n \<and> n \<noteq> [] \<and> d_className d = []) (knownTypes T)"




subsection \<open>What the collector reads after an opener\<close>

text \<open>
  A description of the lines after an opener that does not follow the loop of
  \<^verbatim>\<open>collectDefinitions\<close>: the method headers among the lines, the property
  lines, the properties read from them, and the methods, each made of a
  header, the lines up to the next header that are no property lines, and
  the line number at which the collector closes it (the line of the next
  header, or the last line of the input). \<open>prev\<close> is the kind of the method
  before, which a special header with an unknown keyword would keep.
\<close>

definition headerOf :: "MethodKind \<Rightarrow> string \<Rightarrow> (MethodKind \<times> string \<times> string) option" where
  "headerOf prev l =
     (case re_exec method_re l 0 of
        Some m \<Rightarrow> Some (Virtual, groupOrEmpty m 1, groupOrEmpty m 2)
      | None \<Rightarrow>
          (case re_exec special_re l 0 of
             Some m \<Rightarrow>
               Some (if grp m 1 = Some ''get'' then Get
                     else if grp m 1 = Some ''set'' then Set
                     else if grp m 1 = Some ''copy'' then Copy
                     else prev,
                     [], groupOrEmpty m 2)
           | None \<Rightarrow> None))"

definition isHeader :: "string \<Rightarrow> bool" where
  "isHeader l = (re_exec method_re l 0 \<noteq> None \<or> re_exec special_re l 0 \<noteq> None)"

definition propertyOf :: "nat \<Rightarrow> string \<Rightarrow> Prop option" where
  "propertyOf k l =
     (case re_exec prop_re l 0 of
        Some m \<Rightarrow>
          Some (mkProp k (groupOrEmpty m 1)
                  (if grp m 2 = Some ''synchronic'' then Synchronic
                   else if grp m 2 = Some ''atomic'' then Atomic
                   else NoQual)
                  False (groupOrEmpty m 3))
      | None \<Rightarrow>
          (case re_exec aprop_re l 0 of
             Some m \<Rightarrow> Some (mkProp k (groupOrEmpty m 1) NoQual True (groupOrEmpty m 2))
           | None \<Rightarrow> None))"

definition isProperty :: "string \<Rightarrow> bool" where
  "isProperty l = (re_exec prop_re l 0 \<noteq> None \<or> re_exec aprop_re l 0 \<noteq> None)"

definition propertiesRead :: "nat \<Rightarrow> string list \<Rightarrow> Prop list" where
  "propertiesRead k ls =
     List.map_filter (\<lambda>(n, l). if isHeader l then None else propertyOf n l) (List.enumerate k ls)"

definition bodyLines :: "string list \<Rightarrow> string list" where
  "bodyLines ls = filter (\<lambda>l. \<not> isProperty l) ls"

function methodsRead :: "MethodKind \<Rightarrow> nat \<Rightarrow> string list \<Rightarrow> Method list" where
  "methodsRead prev k [] = []"
| "methodsRead prev k (l # ls) =
     (case headerOf prev l of
        None \<Rightarrow> methodsRead prev (Suc k) ls
      | Some (kind, name, first) \<Rightarrow>
          mkMethod (k + length (takeWhile (\<lambda>x. \<not> isHeader x) ls)
                      + (if dropWhile (\<lambda>x. \<not> isHeader x) ls = [] then 0 else 1))
            kind name (first # bodyLines (takeWhile (\<lambda>x. \<not> isHeader x) ls))
          # methodsRead kind (Suc k + length (takeWhile (\<lambda>x. \<not> isHeader x) ls))
              (dropWhile (\<lambda>x. \<not> isHeader x) ls))"
  by pat_completeness auto
termination
  by (relation "measure (\<lambda>(prev, k, ls). length ls)")
     (auto simp: le_imp_less_Suc length_dropWhile_le)

definition definitionRead :: "string \<Rightarrow> nat \<Rightarrow> nat \<Rightarrow> string \<Rightarrow> string list \<Rightarrow> UserDefn option" where
  "definitionRead filename k origin l ls =
     (case re_exec struct_re l 0 of
        Some m \<Rightarrow>
          Some (StructDefn filename k (groupOrEmpty m 1)
                  (propertiesRead (Suc k) ls) (methodsRead Virtual (Suc k) ls) origin)
      | None \<Rightarrow>
          (case re_exec class_re l 0 of
             Some m \<Rightarrow>
               Some (ClassDefn filename k (groupOrEmpty m 1) (groupOrEmpty m 2)
                       (propertiesRead (Suc k) ls) (methodsRead Virtual (Suc k) ls) origin)
           | None \<Rightarrow> None))"

definition firstBadLine :: "nat \<Rightarrow> string list \<Rightarrow> (nat \<times> string) option" where
  "firstBadLine k ls =
     find (\<lambda>(n, l). \<not> isProperty l \<and> \<not> re_test blank_re l)
       (List.enumerate k (takeWhile (\<lambda>x. \<not> isHeader x) ls))"

subsection \<open>Lines with one macro call\<close>

text \<open>
  Text without the characters the macros look for; text before a call, which
  does not end in a letter or digit, and text after one, which does not
  start with one; arguments made of letters and digits. \<open>pointFieldX\<close> and
  \<open>pointAllocatable\<close> say of the tables what the macros read in them for the
  class Point of the specification: the int32 field x at offset 4; size 12,
  alignment 4, no field named \<^verbatim>\<open>initInstance\<close>, and no type named
  \<^verbatim>\<open>Parlang\<close>. \<open>stableExpansion T s out\<close>: the expander turns \<open>s\<close> into
  \<open>out\<close> and leaves \<open>out\<close> as it is.
\<close>

definition plainText :: "string \<Rightarrow> bool" where
  "plainText s = (CHR ''.'' \<notin> set s \<and> CHR ''@'' \<notin> set s)"








section \<open>Properties\<close>

subsection \<open>Dictionaries\<close>

lemma set_js_put: "set (js_put m k v) \<subseteq> insert (k, v) (set m)"
  by (induction m) (auto split: if_splits)

lemma map_of_js_put: "map_of (js_put m k v) k' = (if k' = k then Some v else map_of m k')"
  by (induction m) auto

subsection \<open>Class identifiers\<close>

lemma step_word:
  "js_xor (js_or (js_shl (js_and n 0x1FFFFFF) 3) (js_ushr n 25)) v
     = sint (stepW (word_of_int n) (word_of_int v))"
proof -
  have m: "(0x1FFFFFF :: 32 word) = mask 25" by (simp add: mask_eq_exp_minus_1)
  show ?thesis
    by (simp add: js_xor_def js_or_def js_shl_def js_and_def js_ushr_def stepW_def m)
qed

lemma stepW_take_bit:
  assumes "v < 64"
  shows "take_bit 28 (stepW n v) = stepW n v"
proof (rule bit_eqI)
  fix i
  have "v < 2 ^ 6" using assms by simp
  then have v6: "take_bit 6 v = v"
    by (simp add: mod_word_less take_bit_eq_mod)
  have c: "bit v i \<Longrightarrow> i < 6"
    by (subst (asm) v6 [symmetric]) (simp add: bit_simps)
  have a: "bit (push_bit 3 (n AND mask 25)) i \<Longrightarrow> i < 28"
    by (auto simp: bit_simps)
  have b: "bit (drop_bit 25 n) i \<Longrightarrow> i < 7"
    by (auto simp: bit_simps dest: bit_imp_le_length)
  show "bit (take_bit 28 (stepW n v)) i = bit (stepW n v) i"
    unfolding stepW_def bit_take_bit_iff bit_xor_iff bit_or_iff
    using a b c by fastforce
qed

lemma stepW_bound:
  assumes "v < 64"
  shows "uint (stepW n v) < 2 ^ 28" "sint (stepW n v) = uint (stepW n v)"
proof -
  have t: "take_bit 28 (stepW n v) = stepW n v" using assms by (rule stepW_take_bit)
  show u: "uint (stepW n v) < 2 ^ 28"
    by (metis t take_bit_int_less_exp unsigned_take_bit_eq)
  have hi: "uint (stepW n v) < 2 ^ 31" using u by simp
  have lo: "- (2 ^ 31) \<le> uint (stepW n v)"
    by (rule order_trans [OF _ uint_ge_0]) simp
  have "sint (stepW n v) = signed_take_bit 31 (uint (stepW n v))"
    by (simp add: sint_uint)
  also have "\<dots> = uint (stepW n v)"
    using lo hi by (rule signed_take_bit_int_eq_self)
  finally show "sint (stepW n v) = uint (stepW n v)" .
qed

lemma uint_stepW_nat:
  assumes "n < 2 ^ 32" "v < 64"
  shows "uint (stepW (of_nat n) (of_nat v))
           = int ((push_bit 3 (n AND 0x1FFFFFF) OR drop_bit 25 n) XOR v)"
proof -
  have m: "(0x1FFFFFF :: nat) = mask 25" by (simp add: mask_eq_exp_minus_1)
  have un: "uint (of_nat n :: 32 word) = int n"
    using assms(1) by (simp add: unsigned_of_nat take_bit_nat_eq_self)
  have uv: "uint (of_nat v :: 32 word) = int v"
    using assms(2) by (simp add: unsigned_of_nat take_bit_nat_eq_self)
  have "take_bit 25 (int n) < 2 ^ 25" by (rule take_bit_int_less_exp)
  then have small: "push_bit 3 (int n AND mask 25) < 2 ^ 32"
    by (simp add: take_bit_eq_mask [symmetric] push_bit_eq_mult)
  have "uint (stepW (of_nat n) (of_nat v))
          = (take_bit 32 (push_bit 3 (int n AND mask 25)) OR drop_bit 25 (take_bit 32 (int n))) XOR int v"
    by (simp add: stepW_def unsigned_xor_eq unsigned_or_eq unsigned_push_bit_eq
          unsigned_drop_bit_eq unsigned_and_eq un uv uint_mask_eq)
  also have "\<dots> = (push_bit 3 (int n AND mask 25) OR drop_bit 25 (int n)) XOR int v"
    using small assms(1)
    by (smt (verit, best) and_negative_int_iff push_bit_negative_int_iff
        take_bit_int_eq_self take_bit_nat_eq_self_iff take_bit_nonnegative take_bit_of_nat)
  also have "\<dots> = int ((push_bit 3 (n AND mask 25) OR drop_bit 25 n) XOR v)"
    by (simp add: of_nat_xor_eq of_nat_or_eq of_nat_push_bit of_nat_and_eq of_nat_drop_bit of_nat_mask_eq)
  finally show ?thesis by (simp add: m)
qed

lemma word_of_int_small:
  assumes "0 \<le> v" "v < 64"
  shows "(word_of_int v :: 32 word) < 64"
proof -
  have "take_bit 32 v = v"
    using assms by (simp add: take_bit_int_eq_self)
  then show ?thesis
    using assms by (simp add: word_less_alt uint_word_of_int_eq)
qed

lemma charValue_range: "charValue c = Inr v \<Longrightarrow> 0 \<le> v \<and> v < 64"
  by (auto simp: charValue_def Let_def split: if_splits)

lemma step_range:
  assumes "0 \<le> v" "v < 64"
  shows "0 \<le> js_xor (js_or (js_shl (js_and n 0x1FFFFFF) 3) (js_ushr n 25)) v
         \<and> js_xor (js_or (js_shl (js_and n 0x1FFFFFF) 3) (js_ushr n 25)) v < 2 ^ 28"
  using stepW_bound [OF word_of_int_small [OF assms], of "word_of_int n"]
  by (simp add: step_word)

lemma classIdLoop_range:
  "classIdLoop n cs = Inr cid \<Longrightarrow> cs \<noteq> [] \<or> (0 \<le> n \<and> n < 2 ^ 28) \<Longrightarrow>
   0 \<le> cid \<and> cid < 2 ^ 28"
proof (induction cs arbitrary: n)
  case Nil
  then show ?case by simp
next
  case (Cons c cs)
  from Cons.prems(1) obtain v where v: "charValue c = Inr v"
    and rest: "classIdLoop (js_xor (js_or (js_shl (js_and n 0x1FFFFFF) 3) (js_ushr n 25)) v) cs = Inr cid"
    by (auto split: sum.splits)
  from charValue_range [OF v] have "0 \<le> v" "v < 64" by simp_all
  from step_range [OF this, of n] Cons.IH [OF rest] show ?case by blast
qed

lemma alphabet_code:
  "c \<in> classNameAlphabet \<Longrightarrow> charValue c = Inr (int (specCode c)) \<and> specCode c < 64"
  unfolding classNameAlphabet_def
  by (auto simp: charValue_def specCode_def)

lemma step_refines:
  assumes "n < 2 ^ 32" "c \<in> classNameAlphabet"
  shows "js_xor (js_or (js_shl (js_and (int n) 0x1FFFFFF) 3) (js_ushr (int n) 25)) (int (specCode c))
          = int (specStep n c)"
    and "specStep n c < 2 ^ 32"
proof -
  from alphabet_code [OF assms(2)] have v: "specCode c < 64" by simp
  then have w: "(of_nat (specCode c) :: 32 word) < 64"
    using word_of_int_small [of "int (specCode c)"] by simp
  have e: "uint (stepW (of_nat n) (of_nat (specCode c))) = int (specStep n c)"
    using uint_stepW_nat [OF assms(1) v] by (simp add: specStep_def)
  show "js_xor (js_or (js_shl (js_and (int n) 0x1FFFFFF) 3) (js_ushr (int n) 25)) (int (specCode c))
          = int (specStep n c)"
    using stepW_bound(2) [OF w, of "of_nat n"] e by (simp add: step_word)
  have "int (specStep n c) < 2 ^ 28"
    using stepW_bound(1) [OF w, of "of_nat n"] e by simp
  then show "specStep n c < 2 ^ 32" by (simp add: nat_less_iff [symmetric]) linarith?
qed

lemma classIdLoop_refines:
  "n < 2 ^ 32 \<Longrightarrow> set cs \<subseteq> classNameAlphabet \<Longrightarrow>
   classIdLoop (int n) cs = Inr (int (foldl specStep n cs))"
proof (induction cs arbitrary: n)
  case Nil
  then show ?case by simp
next
  case (Cons c cs)
  from Cons.prems have c: "c \<in> classNameAlphabet" and cs: "set cs \<subseteq> classNameAlphabet"
    by simp_all
  from alphabet_code [OF c] step_refines [OF Cons.prems(1) c] Cons.IH [OF _ cs]
  show ?case by simp
qed

lemma idFrame_refl: "idFrame T T"
  by (simp add: idFrame_def)

lemma idFrame_trans: "idFrame T T1 \<Longrightarrow> idFrame T1 T2 \<Longrightarrow> idFrame T T2"
  by (simp add: idFrame_def)

lemma getDefn_putDefn:
  "getDefn (putDefn T d) n = (if n = d_name d then Some d else getDefn T n)"
  by (simp add: getDefn_def putDefn_def map_of_js_put)

lemma knownIds_putDefn: "knownIds (putDefn T d) = knownIds T"
  by (simp add: putDefn_def)

lemma idFrame_wf: "idFrame T T1 \<Longrightarrow> wellFormedTables T \<Longrightarrow> wellFormedTables T1"
proof -
  assume f: "idFrame T T1" and wf: "wellFormedTables T"
  show ?thesis
    unfolding wellFormedTables_def
  proof (intro allI impI)
    fix n d1
    assume d1: "getDefn T1 n = Some d1"
    from f have "map_option idView (getDefn T n) = map_option idView (getDefn T1 n)"
      by (simp add: idFrame_def)
    with d1 obtain d where "getDefn T n = Some d" "idView d = idView d1"
      by (cases "getDefn T n") auto
    with wf show "d_name d1 = n \<and> n \<noteq> []"
      by (auto simp: wellFormedTables_def idView_def)
  qed
qed

lemma idFrame_putDefn:
  assumes "getDefn T nm = Some d" "d_name d = nm" "idView d' = idView d"
  shows "idFrame T (putDefn T d')"
  using assms by (auto simp: idFrame_def getDefn_putDefn knownIds_putDefn idView_def)

lemma layoutDefn_frame_from_props:
  assumes props: "\<And>T ps m sz al T1 m1 sz1 al1.
            wellFormedTables T \<Longrightarrow>
            layoutProps fuel T ps m sz al = Some (Inr (T1, m1, sz1, al1)) \<Longrightarrow> idFrame T T1"
    and wf: "wellFormedTables T"
    and run: "layoutDefn fuel T nm m sz al = Some (Inr T1)"
  shows "idFrame T T1"
proof -
  from run obtain d where d: "getDefn T nm = Some d"
    by (auto split: option.splits)
  from run d obtain T2 m2 sz2 al2 where
    p: "layoutProps fuel T (d_props d) m sz al = Some (Inr (T2, m2, sz2, al2))"
    by (auto split: option.splits sum.splits)
  from run d p obtain d1 where d1: "getDefn T2 nm = Some d1"
    by (auto split: option.splits)
  from props [OF wf p] have f: "idFrame T T2" .
  then have wf2: "wellFormedTables T2" using wf by (rule idFrame_wf)
  then have nm: "d_name d1 = nm" using d1 by (simp add: wellFormedTables_def)
  define sz3 where
    "sz3 = (if d_kind d1 = Struct then js_and (sz2 + al2 - 1) (js_not (al2 - 1)) else sz2)"
  from run d p d1 have
    T1: "T1 = putDefn T2 (d1\<lparr>d_map := Some m2, d_size := sz3, d_align := al2\<rparr>)"
    by (simp add: Let_def sz3_def)
  have "idFrame T2 T1"
    unfolding T1 by (rule idFrame_putDefn [OF d1 nm]) (simp add: idView_def)
  with f show ?thesis by (rule idFrame_trans)
qed

lemma layoutProps_frame_step:
  assumes defn: "\<And>f T nm m sz al T1.
            fuel = Suc f \<Longrightarrow> wellFormedTables T \<Longrightarrow>
            layoutDefn f T nm m sz al = Some (Inr T1) \<Longrightarrow> idFrame T T1"
  shows "wellFormedTables T \<Longrightarrow>
         layoutProps fuel T ps m sz al = Some (Inr (T1, m1, sz1, al1)) \<Longrightarrow> idFrame T T1"
proof (induction ps arbitrary: T m sz al)
  case Nil
  then show ?case by (simp add: idFrame_refl)
next
  case (Cons p ps)
  show ?case
  proof (cases "prop_typeRef p")
    case None
    with Cons.prems show ?thesis by simp
  next
    case (Some tr)
    show ?thesis
    proof (cases tr)
      case (PrimRef pt)
      with Some Cons.prems(2) have
        "\<exists>m2 sz2 al2. layoutProps fuel T ps m2 sz2 al2 = Some (Inr (T1, m1, sz1, al1))"
        by (simp add: Let_def split: if_splits) blast+
      then show ?thesis using Cons.IH [OF Cons.prems(1)] by blast
    next
      case (UserRef tn)
      from Cons.prems(2) Some UserRef obtain t where t: "getDefn T tn = Some t"
        by (auto split: option.splits)
      show ?thesis
      proof (cases "prop_isArray p \<or> d_kind t = Class")
        case True
        with Some UserRef t Cons.prems(2) have
          "\<exists>m2 sz2 al2. layoutProps fuel T ps m2 sz2 al2 = Some (Inr (T1, m1, sz1, al1))"
          by (simp add: Let_def split: if_splits) blast+
        then show ?thesis using Cons.IH [OF Cons.prems(1)] by blast
      next
        case nc: False
        show ?thesis
        proof (cases "d_kind t = Struct")
          case False
          with nc Some UserRef t Cons.prems(2) have
            "layoutProps fuel T ps m sz al = Some (Inr (T1, m1, sz1, al1))"
            by simp
          then show ?thesis using Cons.IH [OF Cons.prems(1)] by blast
        next
          case st: True
          let ?sub = "(if d_map t = None
                        then (case fuel of 0 \<Rightarrow> None | Suc f \<Rightarrow> layoutDefn f T tn [] 0 0)
                        else Some (Inr T))"
          from Cons.prems(2) Some UserRef t nc st obtain T2 where sub: "?sub = Some (Inr T2)"
            by (auto split: option.splits sum.splits)
          have f2: "idFrame T T2"
          proof (cases "d_map t = None")
            case True
            with sub obtain f where "fuel = Suc f" "layoutDefn f T tn [] 0 0 = Some (Inr T2)"
              by (auto split: nat.splits)
            then show ?thesis using defn Cons.prems(1) by blast
          next
            case False
            with sub show ?thesis by (simp add: idFrame_refl)
          qed
          then have wf2: "wellFormedTables T2" using Cons.prems(1) by (rule idFrame_wf)
          from Cons.prems(2) Some UserRef t nc st sub have
            "\<exists>m2 sz2 al2. layoutProps fuel T2 ps m2 sz2 al2 = Some (Inr (T1, m1, sz1, al1))"
            by (simp add: Let_def split: option.splits sum.splits) blast+
          then obtain m2 sz2 al2 where
            rest: "layoutProps fuel T2 ps m2 sz2 al2 = Some (Inr (T1, m1, sz1, al1))"
            by blast
          from f2 Cons.IH [OF wf2 rest] show ?thesis by (rule idFrame_trans)
        qed
      qed
    qed
  qed
qed

lemma layout_frame:
  "(\<forall>T ps m sz al T1 m1 sz1 al1. wellFormedTables T \<longrightarrow>
      layoutProps fuel T ps m sz al = Some (Inr (T1, m1, sz1, al1)) \<longrightarrow> idFrame T T1)
   \<and> (\<forall>T nm m sz al T1. wellFormedTables T \<longrightarrow>
      layoutDefn fuel T nm m sz al = Some (Inr T1) \<longrightarrow> idFrame T T1)"
proof (induction fuel)
  case 0
  have p: "\<And>T ps m sz al T1 m1 sz1 al1. wellFormedTables T \<Longrightarrow>
      layoutProps 0 T ps m sz al = Some (Inr (T1, m1, sz1, al1)) \<Longrightarrow> idFrame T T1"
    by (rule layoutProps_frame_step) simp_all
  with layoutDefn_frame_from_props [of 0] show ?case by blast
next
  case (Suc fuel)
  have p: "\<And>T ps m sz al T1 m1 sz1 al1. wellFormedTables T \<Longrightarrow>
      layoutProps (Suc fuel) T ps m sz al = Some (Inr (T1, m1, sz1, al1)) \<Longrightarrow> idFrame T T1"
    by (rule layoutProps_frame_step) (use Suc.IH in auto)
  with layoutDefn_frame_from_props [of "Suc fuel"] show ?case by blast
qed

lemma idFrame_back:
  assumes "idFrame T T1" "getDefn T1 n = Some d1"
  obtains d where "getDefn T n = Some d" "idView d = idView d1"
proof -
  from assms(1) have "map_option idView (getDefn T n) = map_option idView (getDefn T1 n)"
    by (simp add: idFrame_def)
  with assms(2) obtain d where "getDefn T n = Some d" "idView d = idView d1"
    by (cases "getDefn T n") auto
  then show ?thesis by (rule that)
qed

lemma idFrame_forth:
  assumes "idFrame T T1" "getDefn T n = Some d"
  obtains d1 where "getDefn T1 n = Some d1" "idView d1 = idView d"
proof -
  from assms(1) have "map_option idView (getDefn T1 n) = map_option idView (getDefn T n)"
    by (simp add: idFrame_def)
  with assms(2) obtain d1 where "getDefn T1 n = Some d1" "idView d1 = idView d"
    by (cases "getDefn T1 n") auto
  then show ?thesis by (rule that)
qed

lemma idView_fields:
  "idView a = idView b \<Longrightarrow>
   d_name a = d_name b \<and> d_kind a = d_kind b \<and> d_className a = d_className b
   \<and> d_classId a = d_classId b"
  by (simp add: idView_def)

lemma idFrame_idTaken: "idFrame T T1 \<Longrightarrow> idTaken T1 cid = idTaken T cid"
  by (simp add: idFrame_def idTaken_def)

lemma idFrame_inv:
  assumes f: "idFrame T T1" and inv: "idsInv T"
  shows "idsInv T1"
  unfolding idsInv_def
proof (intro conjI allI impI)
  from inv have "wellFormedTables T" by (simp add: idsInv_def)
  with f show "wellFormedTables T1" by (rule idFrame_wf)
next
  fix n d1
  assume a: "getDefn T1 n = Some d1" "d_className d1 \<noteq> []"
  from f a(1) obtain d where d: "getDefn T n = Some d" "idView d = idView d1"
    by (rule idFrame_back)
  from idView_fields [OF d(2)] a(2) have "d_className d \<noteq> []" "d_classId d = d_classId d1"
    by simp_all
  with inv d(1) have "idTaken T (d_classId d1)"
    unfolding idsInv_def by metis
  then show "idTaken T1 (d_classId d1)"
    using idFrame_idTaken [OF f] by simp
next
  fix n1 n2 d1 d2
  assume a: "n1 \<noteq> n2" "getDefn T1 n1 = Some d1" "getDefn T1 n2 = Some d2"
    "d_className d1 \<noteq> []" "d_className d2 \<noteq> []"
  from f a(2) obtain e1 where e1: "getDefn T n1 = Some e1" "idView e1 = idView d1"
    by (rule idFrame_back)
  from f a(3) obtain e2 where e2: "getDefn T n2 = Some e2" "idView e2 = idView d2"
    by (rule idFrame_back)
  from idView_fields [OF e1(2)] idView_fields [OF e2(2)] a(4,5)
  have ne: "d_className e1 \<noteq> []" "d_className e2 \<noteq> []"
    and eq: "d_classId e1 = d_classId d1" "d_classId e2 = d_classId d2"
    by simp_all
  from inv a(1) e1(1) e2(1) ne have "d_classId e1 \<noteq> d_classId e2"
    unfolding idsInv_def by blast
  with eq show "d_classId d1 \<noteq> d_classId d2" by simp
qed

lemma idFrame_laidOut: "idFrame T T1 \<Longrightarrow> laidOut T1 n = laidOut T n"
  unfolding laidOut_def
  by (metis idFrame_back idFrame_forth idView_fields)

lemma idFrame_sameKinds: "idFrame T T1 \<Longrightarrow> sameKinds T T1"
  unfolding sameKinds_def
proof
  fix n
  assume f: "idFrame T T1"
  then have "map_option idView (getDefn T1 n) = map_option idView (getDefn T n)"
    by (simp add: idFrame_def)
  then have "map_option (fst \<circ> snd) (map_option idView (getDefn T1 n))
               = map_option (fst \<circ> snd) (map_option idView (getDefn T n))"
    by simp
  then show "map_option d_kind (getDefn T1 n) = map_option d_kind (getDefn T n)"
    by (simp add: option.map_comp comp_def idView_def)
qed

lemma sameKinds_refl: "sameKinds T T"
  by (simp add: sameKinds_def)

lemma sameKinds_trans: "sameKinds T T1 \<Longrightarrow> sameKinds T1 T2 \<Longrightarrow> sameKinds T T2"
  by (simp add: sameKinds_def)

lemma assignClassId_result:
  assumes run: "assignClassId T nm = Inr T1" and wf: "wellFormedTables T"
  obtains d cn cid where
    "getDefn T nm = Some d" "cn \<noteq> []" "\<not> idTaken T cid"
    "T1 = (putDefn T (d\<lparr>d_className := cn, d_classId := cid\<rparr>))
             \<lparr>knownIds := js_put (knownIds T) cid cn\<rparr>"
proof -
  from run obtain d where d: "getDefn T nm = Some d"
    by (auto simp: assignClassId_def split: option.splits)
  define cnr where "cnr = (case d_baseTypeRef d of
                   None \<Rightarrow> Inr (d_name d)
                 | Some b \<Rightarrow>
                     (case getDefn T b of
                        None \<Rightarrow> Inl TypeError
                      | Some bd \<Rightarrow> Inr (d_className bd @ ''>'' @ d_name d)))"
  from run d obtain cn where cn: "cnr = Inr cn"
    by (auto simp: assignClassId_def cnr_def split: sum.splits)
  from wf d have "d_name d \<noteq> []" by (auto simp: wellFormedTables_def)
  with cn have ne: "cn \<noteq> []"
    by (auto simp: cnr_def split: option.splits)
  from run d cn obtain cid where cid: "computeClassId cn = Inr cid"
    by (auto simp: assignClassId_def cnr_def split: sum.splits)
  from run d cn cid have nt: "\<not> idTaken T cid"
    and T1: "T1 = (putDefn T (d\<lparr>d_className := cn, d_classId := cid\<rparr>))
             \<lparr>knownIds := js_put (knownIds T) cid cn\<rparr>"
    by (auto simp: assignClassId_def cnr_def idTaken_def split: if_splits)
  from d ne nt T1 show ?thesis by (rule that)
qed

lemma assignClassId_inv:
  assumes run: "assignClassId T nm = Inr T1" and inv: "idsInv T"
  shows "idsInv T1 \<and> laidOut T1 nm \<and> (\<forall>n. laidOut T n \<longrightarrow> laidOut T1 n) \<and> sameKinds T T1"
proof -
  from inv have wf: "wellFormedTables T" by (simp add: idsInv_def)
  from run wf obtain d cn cid where d: "getDefn T nm = Some d" and ne: "cn \<noteq> []"
    and nt: "\<not> idTaken T cid"
    and T1: "T1 = (putDefn T (d\<lparr>d_className := cn, d_classId := cid\<rparr>))
             \<lparr>knownIds := js_put (knownIds T) cid cn\<rparr>"
    by (rule assignClassId_result)
  let ?d' = "d\<lparr>d_className := cn, d_classId := cid\<rparr>"
  from wf d have nm: "d_name d = nm" "nm \<noteq> []" by (auto simp: wellFormedTables_def)
  have get: "\<And>n. getDefn T1 n = (if n = nm then Some ?d' else getDefn T n)"
    by (simp add: T1 getDefn_def putDefn_def map_of_js_put nm)
  have taken: "\<And>c. idTaken T1 c = (c = cid \<or> idTaken T c)"
    using ne by (auto simp: T1 idTaken_def putDefn_def map_of_js_put)
  have old: "\<And>n e. getDefn T n = Some e \<Longrightarrow> d_className e \<noteq> [] \<Longrightarrow> d_classId e \<noteq> cid"
    using inv nt unfolding idsInv_def by metis
  have "idsInv T1"
    unfolding idsInv_def
  proof (intro conjI allI impI)
    show "wellFormedTables T1"
      using wf nm by (auto simp: wellFormedTables_def get split: if_splits)
  next
    fix n e
    assume "getDefn T1 n = Some e" "d_className e \<noteq> []"
    then show "idTaken T1 (d_classId e)"
      using inv unfolding idsInv_def taken get by (auto split: if_splits)
  next
    fix n1 n2 d1 d2
    assume a: "n1 \<noteq> n2" "getDefn T1 n1 = Some d1" "getDefn T1 n2 = Some d2"
      "d_className d1 \<noteq> []" "d_className d2 \<noteq> []"
    show "d_classId d1 \<noteq> d_classId d2"
    proof (cases "n1 = nm")
      case True
      with a have "d_classId d1 = cid" "getDefn T n2 = Some d2" by (auto simp: get)
      with old [of n2 d2] a(5) show ?thesis by auto
    next
      case n1: False
      show ?thesis
      proof (cases "n2 = nm")
        case True
        with a n1 have "d_classId d2 = cid" "getDefn T n1 = Some d1" by (auto simp: get)
        with old [of n1 d1] a(4) show ?thesis by auto
      next
        case False
        with n1 a have "getDefn T n1 = Some d1" "getDefn T n2 = Some d2" by (auto simp: get)
        with inv a(1,4,5) show ?thesis unfolding idsInv_def by blast
      qed
    qed
  qed
  moreover have "laidOut T1 nm"
    using ne by (simp add: laidOut_def get)
  moreover have "\<forall>n. laidOut T n \<longrightarrow> laidOut T1 n"
    using ne by (auto simp: laidOut_def get)
  moreover have "sameKinds T T1"
    using d by (auto simp: sameKinds_def get)
  ultimately show ?thesis by blast
qed

lemma idsProgress_refl: "idsInv T \<Longrightarrow> idsProgress T T"
  by (simp add: idsProgress_def sameKinds_refl)

lemma idsProgress_trans: "idsProgress T T1 \<Longrightarrow> idsProgress T1 T2 \<Longrightarrow> idsProgress T T2"
  unfolding idsProgress_def using sameKinds_trans by blast

lemma idFrame_progress: "idFrame T T1 \<Longrightarrow> idsInv T \<Longrightarrow> idsProgress T T1"
  by (simp add: idsProgress_def idFrame_inv idFrame_laidOut idFrame_sameKinds)

lemma layoutDefn_progress:
  assumes "layoutDefn fuel T nm m sz al = Some (Inr T1)" "idsInv T"
  shows "idsProgress T T1" "idFrame T T1"
proof -
  from assms(2) have "wellFormedTables T" by (simp add: idsInv_def)
  with layout_frame [of fuel] assms(1) show "idFrame T T1" by blast
  then show "idsProgress T T1" using assms(2) by (rule idFrame_progress)
qed

lemma layoutDefnAndAssignId_progress:
  assumes run: "layoutDefnAndAssignId fuel T nm m sz al = Some (Inr T')" and inv: "idsInv T"
  shows "idsProgress T T' \<and> laidOut T' nm"
proof -
  from run obtain T2 where
    l: "layoutDefn fuel T nm m sz al = Some (Inr T2)" and a: "assignClassId T2 nm = Inr T'"
    by (auto simp: layoutDefnAndAssignId_def split: option.splits sum.splits)
  from layoutDefn_progress(1) [OF l inv] have p1: "idsProgress T T2" .
  then have "idsInv T2" by (simp add: idsProgress_def)
  from assignClassId_inv [OF a this] have "idsProgress T2 T'" "laidOut T' nm"
    by (simp_all add: idsProgress_def)
  with p1 show ?thesis using idsProgress_trans by blast
qed

lemma layoutClass_progress:
  "layoutClass fuel T nm = Some (Inr T') \<Longrightarrow> idsInv T \<Longrightarrow>
   idsProgress T T' \<and> laidOut T' nm"
proof (induction fuel arbitrary: T nm T')
  case 0
  note eq = layoutClass.simps [of 0 T nm]
  from "0.prems"(1) eq obtain d where d: "getDefn T nm = Some d"
    by (cases "getDefn T nm") simp_all
  show ?case
  proof (cases "d_baseName d = []")
    case True
    with "0.prems"(1) eq d have "layoutDefnAndAssignId 0 T nm [] 4 4 = Some (Inr T')" by simp
    then show ?thesis using "0.prems"(2) by (rule layoutDefnAndAssignId_progress)
  next
    case False
    with "0.prems"(1) eq d obtain b where b: "d_baseTypeRef d = Some b"
      by (cases "d_baseTypeRef d") simp_all
    from "0.prems"(1) eq d False b obtain bd where bd: "getDefn T b = Some bd"
      by (cases "getDefn T b") simp_all
    from "0.prems"(1) eq d False b bd have nn: "d_map bd \<noteq> None"
      by (cases "d_map bd = None") simp_all
    from "0.prems"(1) eq d False b bd nn obtain m sz al where
      s: "startFromBase T b = Inr (m, sz, al)"
      by (cases "startFromBase T b") auto
    from "0.prems"(1) eq d False b bd nn s
    have "layoutDefnAndAssignId 0 T nm m sz al = Some (Inr T')" by simp
    then show ?thesis using "0.prems"(2) by (rule layoutDefnAndAssignId_progress)
  qed
next
  case (Suc fuel)
  note eq = layoutClass.simps [of "Suc fuel" T nm]
  from Suc.prems(1) eq obtain d where d: "getDefn T nm = Some d"
    by (cases "getDefn T nm") simp_all
  show ?case
  proof (cases "d_baseName d = []")
    case True
    with Suc.prems(1) eq d have "layoutDefnAndAssignId (Suc fuel) T nm [] 4 4 = Some (Inr T')"
      by simp
    then show ?thesis using Suc.prems(2) by (rule layoutDefnAndAssignId_progress)
  next
    case False
    with Suc.prems(1) eq d obtain b where b: "d_baseTypeRef d = Some b"
      by (cases "d_baseTypeRef d") simp_all
    from Suc.prems(1) eq d False b obtain bd where bd: "getDefn T b = Some bd"
      by (cases "getDefn T b") simp_all
    let ?sub = "if d_map bd = None then layoutClass fuel T b else Some (Inr T)"
    from Suc.prems(1) eq d False b bd obtain T1 where sub: "?sub = Some (Inr T1)"
      by (cases ?sub) (auto split: sum.splits if_splits)
    have p0: "idsProgress T T1"
    proof (cases "d_map bd = None")
      case True
      with sub have "layoutClass fuel T b = Some (Inr T1)" by simp
      from Suc.IH [OF this Suc.prems(2)] show ?thesis by simp
    next
      case False
      with sub Suc.prems(2) show ?thesis by (simp add: idsProgress_refl)
    qed
    then have i1: "idsInv T1" by (simp add: idsProgress_def)
    from Suc.prems(1) eq d False b bd sub obtain m sz al where
      s: "startFromBase T1 b = Inr (m, sz, al)"
      by (cases "startFromBase T1 b") (auto split: if_splits)
    from Suc.prems(1) eq d False b bd sub s
    have "layoutDefnAndAssignId (Suc fuel) T1 nm m sz al = Some (Inr T')"
      by (auto split: if_splits)
    from layoutDefnAndAssignId_progress [OF this i1] p0 show ?thesis
      using idsProgress_trans by blast
  qed
qed

lemma layoutTypesLoop_progress:
  "layoutTypesLoop fuel T nms = Some (Inr T') \<Longrightarrow> idsInv T \<Longrightarrow>
   idsProgress T T' \<and>
   (\<forall>n \<in> set nms. \<forall>d. getDefn T n = Some d \<longrightarrow> d_kind d = Class \<longrightarrow> laidOut T' n)"
proof (induction nms arbitrary: T)
  case Nil
  then show ?case by (simp add: idsProgress_refl)
next
  case (Cons nm rest)
  from Cons.prems(1) obtain d where d: "getDefn T nm = Some d"
    by (cases "getDefn T nm") simp_all
  let ?one = "if d_kind d = Class then layoutClass fuel T nm else layoutStruct fuel T nm"
  from Cons.prems(1) d obtain T1 where one: "?one = Some (Inr T1)"
    and rest: "layoutTypesLoop fuel T1 rest = Some (Inr T')"
    by (cases ?one) (auto split: sum.splits if_splits)
  have p1: "idsProgress T T1 \<and> (d_kind d = Class \<longrightarrow> laidOut T1 nm)"
  proof (cases "d_kind d = Class")
    case True
    with one have "layoutClass fuel T nm = Some (Inr T1)" by simp
    from layoutClass_progress [OF this Cons.prems(2)] show ?thesis by simp
  next
    case False
    with one have "layoutDefn fuel T nm [] 0 0 = Some (Inr T1)"
      by (simp add: layoutStruct_def)
    from layoutDefn_progress(1) [OF this Cons.prems(2)] False show ?thesis by simp
  qed
  then have i1: "idsInv T1" by (simp add: idsProgress_def)
  from Cons.IH [OF rest i1] have p2: "idsProgress T1 T'"
    and lo: "\<forall>n \<in> set rest. \<forall>e. getDefn T1 n = Some e \<longrightarrow> d_kind e = Class \<longrightarrow> laidOut T' n"
    by simp_all
  have sk: "\<And>n e. getDefn T n = Some e \<Longrightarrow> d_kind e = Class \<Longrightarrow>
              \<exists>e1. getDefn T1 n = Some e1 \<and> d_kind e1 = Class"
  proof -
    fix n e
    assume e: "getDefn T n = Some e" "d_kind e = Class"
    from p1 have "map_option d_kind (getDefn T1 n) = map_option d_kind (getDefn T n)"
      by (simp add: idsProgress_def sameKinds_def)
    with e show "\<exists>e1. getDefn T1 n = Some e1 \<and> d_kind e1 = Class"
      by (cases "getDefn T1 n") auto
  qed
  have "\<forall>n \<in> set (nm # rest). \<forall>e. getDefn T n = Some e \<longrightarrow> d_kind e = Class \<longrightarrow> laidOut T' n"
  proof (intro ballI allI impI)
    fix n e
    assume n: "n \<in> set (nm # rest)" and e: "getDefn T n = Some e" "d_kind e = Class"
    show "laidOut T' n"
    proof (cases "n = nm")
      case True
      with e d p1 have "laidOut T1 nm" by simp
      with p2 True show ?thesis by (simp add: idsProgress_def)
    next
      case False
      with n have "n \<in> set rest" by simp
      with lo sk [OF e] show ?thesis by blast
    qed
  qed
  with p1 p2 show ?case using idsProgress_trans by blast
qed

lemma freshTables_inv: "freshTables T \<Longrightarrow> idsInv T"
proof -
  assume f: "freshTables T"
  have "\<And>n d. getDefn T n = Some d \<Longrightarrow> d_name d = n \<and> n \<noteq> [] \<and> d_className d = []"
  proof -
    fix n d
    assume "getDefn T n = Some d"
    then have "(n, d) \<in> set (knownTypes T)"
      by (simp add: getDefn_def map_of_SomeD)
    with f show "d_name d = n \<and> n \<noteq> [] \<and> d_className d = []"
      by (auto simp: freshTables_def list_all_iff)
  qed
  then show "idsInv T"
    unfolding idsInv_def wellFormedTables_def by blast
qed

lemma layoutTypes_distinct_ids:
  assumes fresh: "freshTables T" and run: "layoutTypes fuel T = Some (Inr T')"
    and ne: "n1 \<noteq> n2"
    and c1: "getDefn T' n1 = Some c1" "d_kind c1 = Class"
    and c2: "getDefn T' n2 = Some c2" "d_kind c2 = Class"
  shows "d_classId c1 \<noteq> d_classId c2"
proof -
  from fresh have inv: "idsInv T" by (rule freshTables_inv)
  from layoutTypesLoop_progress [OF run [unfolded layoutTypes_def] inv]
  have p: "idsProgress T T'"
    and lo: "\<forall>n \<in> set (allTypes T). \<forall>d. getDefn T n = Some d \<longrightarrow> d_kind d = Class \<longrightarrow> laidOut T' n"
    by simp_all
  have laid: "\<And>n c. getDefn T' n = Some c \<Longrightarrow> d_kind c = Class \<Longrightarrow> d_className c \<noteq> []"
  proof -
    fix n c
    assume c: "getDefn T' n = Some c" "d_kind c = Class"
    from p have "map_option d_kind (getDefn T' n) = map_option d_kind (getDefn T n)"
      by (simp add: idsProgress_def sameKinds_def)
    with c obtain d where d: "getDefn T n = Some d" "d_kind d = Class"
      by (cases "getDefn T n") auto
    then have "n \<in> set (allTypes T)"
      by (auto simp: allTypes_def getDefn_def dest: map_of_SomeD intro: rev_image_eqI)
    with lo d have "laidOut T' n" by blast
    with c show "d_className c \<noteq> []" by (simp add: laidOut_def)
  qed
  from p have "idsInv T'" by (simp add: idsProgress_def)
  with ne c1(1) c2(1) laid [OF c1] laid [OF c2] show ?thesis
    unfolding idsInv_def by blast
qed

text \<open>
  C5. For every name over the alphabet A-Z, a-z, 0-9, _ and > (of a length
  below 2^32, which every JavaScript string has), \<^verbatim>\<open>computeClassId\<close>
  returns the value of the specification's recurrence; whatever it returns is
  nonnegative and below 2^28; and when the layout pass returns tables, any two
  different classes in them have different identifiers, so that two classes
  with equal identifiers make the pass fail, as the classes AI and BA do.
\<close>

theorem class_id_recurrence_range_and_uniqueness:
  "(\<forall>nm. length nm < 2 ^ 32 \<longrightarrow> set nm \<subseteq> classNameAlphabet \<longrightarrow>
        computeClassId nm = Inr (int (specClassId nm)))
   \<and> (\<forall>nm cid. computeClassId nm = Inr cid \<longrightarrow> 0 \<le> cid \<and> cid < 2 ^ 28)
   \<and> (\<forall>fuel T T' n1 n2 c1 c2.
        freshTables T \<longrightarrow> layoutTypes fuel T = Some (Inr T') \<longrightarrow> n1 \<noteq> n2 \<longrightarrow>
        getDefn T' n1 = Some c1 \<longrightarrow> d_kind c1 = Class \<longrightarrow>
        getDefn T' n2 = Some c2 \<longrightarrow> d_kind c2 = Class \<longrightarrow>
        d_classId c1 \<noteq> d_classId c2)
   \<and> computeClassId ''AI'' = Inr 136 \<and> computeClassId ''BA'' = Inr 136
   \<and> layoutPasses 10 collisionScenario = Some (Inl (DuplicateClassId ''BA'' 136))"
proof (intro conjI allI impI)
  fix nm :: string
  assume "length nm < 2 ^ 32" "set nm \<subseteq> classNameAlphabet"
  then show "computeClassId nm = Inr (int (specClassId nm))"
    unfolding computeClassId_def specClassId_def by (rule classIdLoop_refines)
next
  fix nm cid
  assume c: "computeClassId nm = Inr cid"
  have "nm \<noteq> [] \<or> (0 \<le> int (length nm) \<and> int (length nm) < 2 ^ 28)"
    by (cases nm) simp_all
  with c have "0 \<le> cid \<and> cid < 2 ^ 28"
    unfolding computeClassId_def by (rule classIdLoop_range)
  then show "0 \<le> cid" "cid < 2 ^ 28" by simp_all
next
  fix fuel T T' n1 n2 c1 c2
  assume "freshTables T" "layoutTypes fuel T = Some (Inr T')" "n1 \<noteq> n2"
    "getDefn T' n1 = Some c1" "d_kind c1 = Class"
    "getDefn T' n2 = Some c2" "d_kind c2 = Class"
  then show "d_classId c1 \<noteq> d_classId c2"
    by (rule layoutTypes_distinct_ids)
qed code_simp+

theorem class_id_recurrence_range_and_uniqueness_witness:
  "length ''A>B'' < (2::nat) ^ 32 \<and> set ''A>B'' \<subseteq> classNameAlphabet
   \<and> computeClassId ''A>B'' = Inr (int (specClassId ''A>B''))
   \<and> computeClassId ''A>B'' = Inr 2041
   \<and> freshTables (tablesOf (Some (resolvePasses abcScenario)))
   \<and> layoutTypes 10 (tablesOf (Some (resolvePasses abcScenario)))
        = Some (Inr (tablesOf (layoutPasses 10 abcScenario)))
   \<and> map_option d_kind (definedType (layoutPasses 10 abcScenario) ''A'') = Some Class
   \<and> map_option d_kind (definedType (layoutPasses 10 abcScenario) ''B'') = Some Class
   \<and> map_option d_classId (definedType (layoutPasses 10 abcScenario) ''A'')
        \<noteq> map_option d_classId (definedType (layoutPasses 10 abcScenario) ''B'')"
proof -
  note claim = class_id_recurrence_range_and_uniqueness
  have l: "length ''A>B'' < (2::nat) ^ 32" by simp
  have s: "set ''A>B'' \<subseteq> classNameAlphabet" by (simp add: classNameAlphabet_def)
  from claim l s have r: "computeClassId ''A>B'' = Inr (int (specClassId ''A>B''))" by blast
  have v: "computeClassId ''A>B'' = Inr 2041" by code_simp
  have f: "freshTables (tablesOf (Some (resolvePasses abcScenario)))" by code_simp
  have run: "layoutTypes 10 (tablesOf (Some (resolvePasses abcScenario)))
        = Some (Inr (tablesOf (layoutPasses 10 abcScenario)))" by code_simp
  obtain cA where a: "getDefn (tablesOf (layoutPasses 10 abcScenario)) ''A'' = Some cA"
    and ka: "d_kind cA = Class"
    and da: "definedType (layoutPasses 10 abcScenario) ''A'' = Some cA"
  proof -
    have "map_option d_kind (getDefn (tablesOf (layoutPasses 10 abcScenario)) ''A'') = Some Class"
      and "definedType (layoutPasses 10 abcScenario) ''A''
             = getDefn (tablesOf (layoutPasses 10 abcScenario)) ''A''"
      by code_simp+
    then show ?thesis using that by auto
  qed
  obtain cB where b: "getDefn (tablesOf (layoutPasses 10 abcScenario)) ''B'' = Some cB"
    and kb: "d_kind cB = Class"
    and db: "definedType (layoutPasses 10 abcScenario) ''B'' = Some cB"
  proof -
    have "map_option d_kind (getDefn (tablesOf (layoutPasses 10 abcScenario)) ''B'') = Some Class"
      and "definedType (layoutPasses 10 abcScenario) ''B''
             = getDefn (tablesOf (layoutPasses 10 abcScenario)) ''B''"
      by code_simp+
    then show ?thesis using that by auto
  qed
  have ne: "''A'' \<noteq> ''B''" by simp
  from claim f run ne a ka b kb have "d_classId cA \<noteq> d_classId cB" by blast
  with l s r v f run da db ka kb show ?thesis by simp
qed

subsection \<open>Layout\<close>

text \<open>
  C1. A class without a base starts at size 4 and alignment 4, and for
  \<^verbatim>\<open>Point { x:int32; y:int32 }\<close> the layout is SIZE 12, ALIGN 4, x at 4 and
  y at 8, as the claim says. The claim that every declared field of every
  class lies at an offset of at least 4 fails on the code: a struct without
  fields gets alignment 0, and rounding the running size up to alignment 0
  with \<^verbatim>\<open>(size + 0 - 1) & ~(0 - 1)\<close> yields 0. In
  \<^verbatim>\<open>class K { e:E; x:int32 }\<close> with the empty struct \<^verbatim>\<open>E\<close>, both e and
  the int32 field x are placed at offset 0, on top of the class identifier.
\<close>

theorem class_id_slot_overlapped_after_empty_struct:
  "map_option d_size (definedType (typePasses 10 pointScenario) ''Point'') = Some 12
   \<and> map_option d_align (definedType (typePasses 10 pointScenario) ''Point'') = Some 4
   \<and> map_option ent_offset (fieldEntry (typePasses 10 pointScenario) ''Point'' ''x'') = Some 4
   \<and> map_option ent_offset (fieldEntry (typePasses 10 pointScenario) ''Point'' ''y'') = Some 8
   \<and> map_option d_align (definedType (typePasses 10 emptyStructScenario) ''E'') = Some 0
   \<and> map_option ent_offset (fieldEntry (typePasses 10 emptyStructScenario) ''K'' ''e'') = Some 0
   \<and> map_option ent_offset (fieldEntry (typePasses 10 emptyStructScenario) ''K'' ''x'') = Some 0"
  by code_simp

text \<open>
  C2. \<^verbatim>\<open>struct Pair { x:float64; y:int32 }\<close> has SIZE 16 and ALIGN 8 (the
  size 12 after y is rounded up to the alignment). In the class
  \<^verbatim>\<open>PairBox { pad1:float32; pad2:float64; p:Pair; pad3:int32 }\<close> the fields
  lie at 4, 8, 16 and 32; the map also holds p_x at 16 and p_y at 24, with the
  expand flag and the type of Pair's entries x and y.
\<close>

theorem pair_and_pairbox_layout:
  "map_option d_size (definedType (typePasses 10 pairBoxScenario) ''Pair'') = Some 16
   \<and> map_option d_align (definedType (typePasses 10 pairBoxScenario) ''Pair'') = Some 8
   \<and> fieldEntry (typePasses 10 pairBoxScenario) ''Pair'' ''x''
       = Some (mkMapEntry ''x'' True 0 (PrimRef (mkPrimitive ''float64'' 8 False)))
   \<and> fieldEntry (typePasses 10 pairBoxScenario) ''Pair'' ''y''
       = Some (mkMapEntry ''y'' True 8 (PrimRef (mkPrimitive ''int32'' 4 True)))
   \<and> fieldEntry (typePasses 10 pairBoxScenario) ''PairBox'' ''pad1''
       = Some (mkMapEntry ''pad1'' True 4 (PrimRef (mkPrimitive ''float32'' 4 False)))
   \<and> fieldEntry (typePasses 10 pairBoxScenario) ''PairBox'' ''pad2''
       = Some (mkMapEntry ''pad2'' True 8 (PrimRef (mkPrimitive ''float64'' 8 False)))
   \<and> fieldEntry (typePasses 10 pairBoxScenario) ''PairBox'' ''p''
       = Some (mkMapEntry ''p'' False 16 (UserRef ''Pair''))
   \<and> fieldEntry (typePasses 10 pairBoxScenario) ''PairBox'' ''pad3''
       = Some (mkMapEntry ''pad3'' True 32 (PrimRef (mkPrimitive ''int32'' 4 True)))
   \<and> fieldEntry (typePasses 10 pairBoxScenario) ''PairBox'' ''p_x''
       = Some (mkMapEntry ''p_x'' True 16 (PrimRef (mkPrimitive ''float64'' 8 False)))
   \<and> fieldEntry (typePasses 10 pairBoxScenario) ''PairBox'' ''p_y''
       = Some (mkMapEntry ''p_y'' True 24 (PrimRef (mkPrimitive ''int32'' 4 True)))"
  by code_simp

subsection \<open>Virtual tables\<close>

lemma nextName_not_init:
  "nextName fuel T it = Some (Inr ((n, inh), it')) \<Longrightarrow> n \<noteq> ''init''"
proof (induction fuel arbitrary: it)
  case 0
  then show ?case by simp
next
  case (Suc fuel)
  then show ?case
    by (auto simp: Let_def split: option.splits if_splits sum.splits bool.splits)
qed

lemma vtableLoop_no_init:
  "vtableLoop fuel T cls it vt = Some (Inr vt') \<Longrightarrow>
   ''init'' \<notin> set (map virt_name vt) \<Longrightarrow> ''init'' \<notin> set (map virt_name vt')"
proof (induction fuel arbitrary: it vt)
  case 0
  then show ?case by simp
next
  case (Suc fuel)
  show ?case
  proof (cases "nextName (Suc fuel) T it")
    case None
    with Suc.prems show ?thesis by simp
  next
    case (Some r)
    show ?thesis
    proof (cases r)
      case (Inl e)
      with Some Suc.prems show ?thesis by simp
    next
      case (Inr x)
      obtain mname inh it1 where x: "x = ((mname, inh), it1)"
        by (metis prod.exhaust)
      have ni: "mname \<noteq> ''init''"
        using Some Inr x nextName_not_init by blast
      show ?thesis
      proof (cases "mname = []")
        case True
        with Some Inr x Suc.prems show ?thesis by simp
      next
        case False
        with Some Inr x Suc.prems(1) obtain rc def where
          rest: "vtableLoop fuel T cls it1
                   (vt @ [\<lparr>virt_name = mname, virt_reverseCases = rc, virt_default = def\<rparr>])
                 = Some (Inr vt')"
          by (simp split: option.splits sum.splits if_splits)
        from Suc.IH [OF rest] ni Suc.prems(2) show ?thesis by simp
      qed
    qed
  qed
qed

lemma createVirtualsFor_no_init:
  assumes "createVirtualsFor fuel T nm = Some (Inr T')"
    and "\<forall>(n, d) \<in> set (knownTypes T). ''init'' \<notin> set (vtableNames d)"
  shows "\<forall>(n, d) \<in> set (knownTypes T'). ''init'' \<notin> set (vtableNames d)"
proof -
  from assms(1) obtain cls vt where
    c: "getDefn T nm = Some cls" and
    v: "vtableLoop fuel T cls (newVirtualMethodNameIterator nm) [] = Some (Inr vt)" and
    T': "T' = putDefn T (cls\<lparr>d_vtable := Some vt\<rparr>)"
    by (auto simp: createVirtualsFor_def split: option.splits sum.splits)
  have "''init'' \<notin> set (map virt_name vt)"
    using vtableLoop_no_init [OF v] by simp
  then have new: "''init'' \<notin> set (vtableNames (cls\<lparr>d_vtable := Some vt\<rparr>))"
    by (simp add: vtableNames_def)
  have "set (knownTypes T') \<subseteq> insert (d_name cls, cls\<lparr>d_vtable := Some vt\<rparr>) (set (knownTypes T))"
    using set_js_put by (simp add: T' putDefn_def)
  with new assms(2) show ?thesis by auto
qed

lemma createVirtualsLoop_no_init:
  "createVirtualsLoop fuel T nms = Some (Inr T') \<Longrightarrow>
   \<forall>(n, d) \<in> set (knownTypes T). ''init'' \<notin> set (vtableNames d) \<Longrightarrow>
   \<forall>(n, d) \<in> set (knownTypes T'). ''init'' \<notin> set (vtableNames d)"
proof (induction nms arbitrary: T)
  case Nil
  then show ?case by simp
next
  case (Cons nm rest)
  from Cons.prems(1) obtain t where t: "getDefn T nm = Some t"
    by (auto split: option.splits)
  show ?case
  proof (cases "d_kind t = Class")
    case True
    with t Cons.prems(1) obtain T1 where
      a: "createVirtualsFor fuel T nm = Some (Inr T1)" and
      b: "createVirtualsLoop fuel T1 rest = Some (Inr T')"
      by (auto split: option.splits sum.splits)
    from createVirtualsFor_no_init [OF a Cons.prems(2)] Cons.IH [OF b] show ?thesis by blast
  next
    case False
    with t Cons.prems(1) have "createVirtualsLoop fuel T rest = Some (Inr T')" by simp
    from Cons.IH [OF this Cons.prems(2)] show ?thesis .
  qed
qed

text \<open>
  C6. For \<^verbatim>\<open>class A { init; f }\<close>, \<^verbatim>\<open>class B extends A { f }\<close> and
  \<^verbatim>\<open>class C extends B { }\<close> the vtable of A has one entry, for f: the class
  identifier of A dispatches to \<^verbatim>\<open>A.f_impl\<close>, those of B and C to
  \<^verbatim>\<open>B.f_impl\<close>. And whenever the virtual-table pass returns, started on
  tables in which no vtable exists yet, no vtable of any definition has an
  entry named init.
\<close>

theorem vtable_dispatch_and_init_never_virtual:
  "(\<forall>fuel T T'.
      list_all (\<lambda>(n, d). d_vtable d = None) (knownTypes T) \<longrightarrow>
      createVirtuals fuel T = Some (Inr T') \<longrightarrow>
      list_all (\<lambda>(n, d). ''init'' \<notin> set (vtableNames d)) (knownTypes T'))
   \<and> map_option d_classId (definedType (typePasses 10 abcScenario) ''A'') = Some 8
   \<and> map_option d_classId (definedType (typePasses 10 abcScenario) ''B'') = Some 2041
   \<and> map_option d_classId (definedType (typePasses 10 abcScenario) ''C'') = Some 196538
   \<and> vtableEntry (typePasses 10 abcScenario) ''A'' ''f''
       = Some \<lparr>virt_name = ''f'',
                virt_reverseCases = [(''A.f_impl'', [8]), (''B.f_impl'', [2041, 196538])],
                virt_default = None\<rparr>
   \<and> map_option vtableNames (definedType (typePasses 10 abcScenario) ''A'') = Some [''f'']"
proof (intro conjI allI impI)
  fix fuel T T'
  assume none: "list_all (\<lambda>(n, d). d_vtable d = None) (knownTypes T)"
    and run: "createVirtuals fuel T = Some (Inr T')"
  from none have "\<forall>(n, d) \<in> set (knownTypes T). ''init'' \<notin> set (vtableNames d)"
    by (auto simp: list_all_iff vtableNames_def)
  with run have "\<forall>(n, d) \<in> set (knownTypes T'). ''init'' \<notin> set (vtableNames d)"
    unfolding createVirtuals_def by (rule createVirtualsLoop_no_init)
  then show "list_all (\<lambda>(n, d). ''init'' \<notin> set (vtableNames d)) (knownTypes T')"
    by (simp add: list_all_iff)
qed code_simp+

theorem vtable_dispatch_and_init_never_virtual_witness:
  "list_all (\<lambda>(n, d). d_vtable d = None) (knownTypes (tablesOf (layoutPasses 10 abcScenario)))
   \<and> createVirtuals 10 (tablesOf (layoutPasses 10 abcScenario))
       = Some (Inr (tablesOf (typePasses 10 abcScenario)))
   \<and> list_all (\<lambda>(n, d). ''init'' \<notin> set (vtableNames d))
       (knownTypes (tablesOf (typePasses 10 abcScenario)))
   \<and> map_option (\<lambda>d. map meth_name (d_methods d))
       (definedType (typePasses 10 abcScenario) ''A'') = Some [''init'', ''f'']"
proof -
  have h1: "list_all (\<lambda>(n, d). d_vtable d = None)
              (knownTypes (tablesOf (layoutPasses 10 abcScenario)))"
    by code_simp
  have h2: "createVirtuals 10 (tablesOf (layoutPasses 10 abcScenario))
              = Some (Inr (tablesOf (typePasses 10 abcScenario)))"
    by code_simp
  have h3: "map_option (\<lambda>d. map meth_name (d_methods d))
              (definedType (typePasses 10 abcScenario) ''A'') = Some [''init'', ''f'']"
    by code_simp
  from vtable_dispatch_and_init_never_virtual h1 h2 h3 show ?thesis
    by blast
qed

subsection \<open>The helper log2\<close>

text \<open>
  C9. The claim asks log2 to throw for every x \<le> 0. The guard of the source
  tests the not yet initialised counter, so it never fires: log2 returns for
  every input, and returns 0 at 0 and at negative numbers.
\<close>

theorem log2_never_throws_at_nonpositive:
  "log2 0 = Inr 0 \<and> log2 (- 5) = Inr 0 \<and> (\<forall>x. log2 x \<noteq> Inl (Log2Error x))"
  by (simp add: log2_def)

subsection \<open>Lexical collector\<close>

lemma collectBody_error:
  "collectBody filename i ls st = Inl e \<Longrightarrow>
   \<exists>n l. l \<in> set ls \<and> e = SyntaxError filename n (''Not a property or method: '' @ l)"
proof (induction ls arbitrary: i st)
  case Nil
  then show ?case by simp
next
  case (Cons l ls)
  from Cons.prems have
    "e = SyntaxError filename (Suc i) (''Not a property or method: '' @ l)
     \<or> (\<exists>i2 st2. collectBody filename i2 ls st2 = Inl e)"
    by (simp split: if_splits option.splits) blast+
  then show ?case
  proof
    assume "e = SyntaxError filename (Suc i) (''Not a property or method: '' @ l)"
    then show ?thesis by auto
  next
    assume "\<exists>i2 st2. collectBody filename i2 ls st2 = Inl e"
    then obtain i2 st2 where "collectBody filename i2 ls st2 = Inl e" by blast
    from Cons.IH [OF this] show ?thesis by auto
  qed
qed

lemma collectBody_rest_set:
  "collectBody filename i ls st = Inr (st', i', rest) \<Longrightarrow> set rest \<subseteq> set ls"
proof (induction ls arbitrary: i st)
  case Nil
  then show ?case by simp
next
  case (Cons l ls)
  from Cons.prems have
    "rest = ls \<or> (\<exists>i2 st2. collectBody filename i2 ls st2 = Inr (st', i', rest))"
    by (simp split: if_splits option.splits) blast+
  then show ?case
  proof
    assume "rest = ls"
    then show ?thesis by auto
  next
    assume "\<exists>i2 st2. collectBody filename i2 ls st2 = Inr (st', i', rest)"
    then obtain i2 st2 where "collectBody filename i2 ls st2 = Inr (st', i', rest)" by blast
    from Cons.IH [OF this] show ?thesis by auto
  qed
qed

lemma collectLoop_error:
  "collectLoop filename i lines defs nlines = Inl e \<Longrightarrow>
   (\<exists>n. e = SyntaxError filename n ''Malformed definition line'')
   \<or> (\<exists>n l. l \<in> set lines \<and> e = SyntaxError filename n (''Not a property or method: '' @ l))"
proof (induction "length lines" arbitrary: lines i defs nlines rule: less_induct)
  case less
  show ?case
  proof (cases lines)
    case Nil
    with less.prems show ?thesis by simp
  next
    case (Cons l ls)
    show ?thesis
    proof (cases "re_test start_re l")
      case False
      with less.prems Cons have "collectLoop filename (Suc i) ls defs (nlines @ [l]) = Inl e"
        by simp
      from less.hyps [OF _ this] Cons show ?thesis by auto
    next
      case True
      let ?hdr = "case re_exec struct_re l 0 of
                 Some m \<Rightarrow> Inr (''struct'', groupOrEmpty m 1, [])
               | None \<Rightarrow>
                   (case re_exec class_re l 0 of
                      Some m \<Rightarrow> Inr (''class'', groupOrEmpty m 1, groupOrEmpty m 2)
                    | None \<Rightarrow>
                        Inl (SyntaxError filename (Suc i) ''Malformed definition line''))"
      show ?thesis
      proof (cases ?hdr)
        case (Inl e1)
        then have "e1 = SyntaxError filename (Suc i) ''Malformed definition line''"
          by (simp split: option.splits)
        moreover from less.prems Cons True Inl have "e = e1" by simp
        ultimately show ?thesis by blast
      next
        case (Inr h)
        obtain kind name inherit where h: "h = (kind, name, inherit)" by (cases h)
        show ?thesis
        proof (cases "collectBody filename (Suc i) ls startCollecting")
          case (Inl e2)
          with less.prems Cons True Inr h have "e = e2" by simp
          with collectBody_error [OF Inl] Cons show ?thesis by auto
        next
          case body: (Inr r)
          obtain st i' rest where r: "r = (st, i', rest)" by (cases r)
          from body r have b: "collectBody filename (Suc i) ls startCollecting = Inr (st, i', rest)"
            by simp
          from collectBody_rest [OF b] Cons have shorter: "length rest < length lines" by simp
          from less.prems Cons True Inr h b have
            "\<exists>ds. collectLoop filename i' rest ds nlines = Inl e" by auto
          then obtain ds where "collectLoop filename i' rest ds nlines = Inl e" by blast
          from less.hyps [OF shorter this] collectBody_rest_set [OF b] Cons show ?thesis by auto
        qed
      qed
    qed
  qed
qed

lemma isHeader_headerOf: "isHeader l \<longleftrightarrow> headerOf prev l \<noteq> None"
  by (simp add: isHeader_def headerOf_def split: option.splits)

lemma isProperty_propertyOf: "isProperty l \<longleftrightarrow> propertyOf k l \<noteq> None"
  by (simp add: isProperty_def propertyOf_def split: option.splits)

lemma collectBody_step:
  "\<not> re_test end_re l \<Longrightarrow>
   collectBody filename i (l # ls) st =
     (case headerOf (method_type st) l of
        Some (kind, name, first) \<Rightarrow>
          collectBody filename (Suc i) ls
            (st\<lparr>methods := flushMethod (Suc i) st, in_method := True,
                 method_type := kind, method_name := name, mbody := [first]\<rparr>)
      | None \<Rightarrow>
          (case propertyOf (Suc i) l of
             Some p \<Rightarrow> collectBody filename (Suc i) ls (st\<lparr>properties := properties st @ [p]\<rparr>)
           | None \<Rightarrow>
               if in_method st then
                 collectBody filename (Suc i) ls (st\<lparr>mbody := mbody st @ [l]\<rparr>)
               else if re_test blank_re l then collectBody filename (Suc i) ls st
               else Inl (SyntaxError filename (Suc i) (''Not a property or method: '' @ l))))"
  by (simp add: headerOf_def propertyOf_def split: option.splits)


lemma propertiesRead_Nil: "propertiesRead k [] = []"
  by (simp add: propertiesRead_def map_filter_simps)

lemma propertiesRead_Cons:
  "propertiesRead k (l # ls) =
     (if isHeader l then propertiesRead (Suc k) ls
      else case propertyOf k l of
             None \<Rightarrow> propertiesRead (Suc k) ls
           | Some p \<Rightarrow> p # propertiesRead (Suc k) ls)"
  by (simp add: propertiesRead_def map_filter_simps split: option.splits)

lemma collectBody_in_method:
  assumes "list_all (\<lambda>x. \<not> re_test end_re x) ls" and "in_method st"
  shows "\<exists>st'. collectBody filename i ls st = Inr (st', i + length ls, [])
     \<and> properties st' = properties st @ propertiesRead (Suc i) ls
     \<and> flushMethod (i + length ls) st' =
         methods st @
         mkMethod (i + length (takeWhile (\<lambda>x. \<not> isHeader x) ls)
                     + (if dropWhile (\<lambda>x. \<not> isHeader x) ls = [] then 0 else 1))
           (method_type st) (method_name st)
           (mbody st @ bodyLines (takeWhile (\<lambda>x. \<not> isHeader x) ls))
         # methodsRead (method_type st) (Suc i + length (takeWhile (\<lambda>x. \<not> isHeader x) ls))
             (dropWhile (\<lambda>x. \<not> isHeader x) ls)"
  using assms
proof (induction ls arbitrary: i st)
  case Nil
  then show ?case
    by (simp add: flushMethod_def propertiesRead_Nil bodyLines_def)
next
  case (Cons l ls)
  from Cons.prems have noend: "\<not> re_test end_re l"
    and rest: "list_all (\<lambda>x. \<not> re_test end_re x) ls" by simp_all
  note step = collectBody_step [OF noend, of filename i ls st]
  show ?case
  proof (cases "headerOf (method_type st) l")
    case (Some h)
    obtain kind name first where h: "h = (kind, name, first)" by (cases h)
    let ?st2 = "st\<lparr>methods := flushMethod (Suc i) st, in_method := True,
                 method_type := kind, method_name := name, mbody := [first]\<rparr>"
    have hd: "isHeader l" using Some by (simp add: isHeader_headerOf [of l "method_type st"])
    from Cons.IH [OF rest, of ?st2 "Suc i"] obtain st' where
      r: "collectBody filename (Suc i) ls ?st2 = Inr (st', Suc i + length ls, [])"
      and p: "properties st' = properties ?st2 @ propertiesRead (Suc (Suc i)) ls"
      and m: "flushMethod (Suc i + length ls) st' =
         methods ?st2 @
         mkMethod (Suc i + length (takeWhile (\<lambda>x. \<not> isHeader x) ls)
                     + (if dropWhile (\<lambda>x. \<not> isHeader x) ls = [] then 0 else 1))
           (method_type ?st2) (method_name ?st2)
           (mbody ?st2 @ bodyLines (takeWhile (\<lambda>x. \<not> isHeader x) ls))
         # methodsRead (method_type ?st2) (Suc (Suc i) + length (takeWhile (\<lambda>x. \<not> isHeader x) ls))
             (dropWhile (\<lambda>x. \<not> isHeader x) ls)"
      by auto
    have c: "collectBody filename i (l # ls) st = Inr (st', i + length (l # ls), [])"
      using step Some h r by simp
    have p2: "properties st' = properties st @ propertiesRead (Suc i) (l # ls)"
      using p hd by (simp add: propertiesRead_Cons)
    have m2: "flushMethod (i + length (l # ls)) st' =
         methods st @
         mkMethod (i + length (takeWhile (\<lambda>x. \<not> isHeader x) (l # ls))
                     + (if dropWhile (\<lambda>x. \<not> isHeader x) (l # ls) = [] then 0 else 1))
           (method_type st) (method_name st)
           (mbody st @ bodyLines (takeWhile (\<lambda>x. \<not> isHeader x) (l # ls)))
         # methodsRead (method_type st) (Suc i + length (takeWhile (\<lambda>x. \<not> isHeader x) (l # ls)))
             (dropWhile (\<lambda>x. \<not> isHeader x) (l # ls))"
      using m hd Some h Cons.prems(2)
      by (simp add: flushMethod_def bodyLines_def)
    from c p2 m2 show ?thesis by blast
  next
    case None
    have nh: "\<not> isHeader l" using None by (simp add: isHeader_headerOf [of l "method_type st"])
    show ?thesis
    proof (cases "propertyOf (Suc i) l")
      case (Some pr)
      let ?st2 = "st\<lparr>properties := properties st @ [pr]\<rparr>"
      have ip: "isProperty l" using Some by (simp add: isProperty_propertyOf [of l "Suc i"])
      have im: "in_method ?st2" using Cons.prems(2) by simp
      from Cons.IH [OF rest im, of "Suc i"] obtain st' where
        r: "collectBody filename (Suc i) ls ?st2 = Inr (st', Suc i + length ls, [])"
        and p: "properties st' = properties ?st2 @ propertiesRead (Suc (Suc i)) ls"
        and m: "flushMethod (Suc i + length ls) st' =
           methods ?st2 @
           mkMethod (Suc i + length (takeWhile (\<lambda>x. \<not> isHeader x) ls)
                       + (if dropWhile (\<lambda>x. \<not> isHeader x) ls = [] then 0 else 1))
             (method_type ?st2) (method_name ?st2)
             (mbody ?st2 @ bodyLines (takeWhile (\<lambda>x. \<not> isHeader x) ls))
           # methodsRead (method_type ?st2) (Suc (Suc i) + length (takeWhile (\<lambda>x. \<not> isHeader x) ls))
               (dropWhile (\<lambda>x. \<not> isHeader x) ls)"
        by auto
      have c: "collectBody filename i (l # ls) st = Inr (st', i + length (l # ls), [])"
        using step None Some r by simp
      have p2: "properties st' = properties st @ propertiesRead (Suc i) (l # ls)"
        using p nh Some by (simp add: propertiesRead_Cons)
      have m2: "flushMethod (i + length (l # ls)) st' =
           methods st @
           mkMethod (i + length (takeWhile (\<lambda>x. \<not> isHeader x) (l # ls))
                       + (if dropWhile (\<lambda>x. \<not> isHeader x) (l # ls) = [] then 0 else 1))
             (method_type st) (method_name st)
             (mbody st @ bodyLines (takeWhile (\<lambda>x. \<not> isHeader x) (l # ls)))
           # methodsRead (method_type st) (Suc i + length (takeWhile (\<lambda>x. \<not> isHeader x) (l # ls)))
               (dropWhile (\<lambda>x. \<not> isHeader x) (l # ls))"
        using m nh ip by (simp add: bodyLines_def)
      from c p2 m2 show ?thesis by blast
    next
      case np: None
      let ?st2 = "st\<lparr>mbody := mbody st @ [l]\<rparr>"
      have ip: "\<not> isProperty l" using np by (simp add: isProperty_propertyOf [of l "Suc i"])
      have im: "in_method ?st2" using Cons.prems(2) by simp
      from Cons.IH [OF rest im, of "Suc i"] obtain st' where
        r: "collectBody filename (Suc i) ls ?st2 = Inr (st', Suc i + length ls, [])"
        and p: "properties st' = properties ?st2 @ propertiesRead (Suc (Suc i)) ls"
        and m: "flushMethod (Suc i + length ls) st' =
           methods ?st2 @
           mkMethod (Suc i + length (takeWhile (\<lambda>x. \<not> isHeader x) ls)
                       + (if dropWhile (\<lambda>x. \<not> isHeader x) ls = [] then 0 else 1))
             (method_type ?st2) (method_name ?st2)
             (mbody ?st2 @ bodyLines (takeWhile (\<lambda>x. \<not> isHeader x) ls))
           # methodsRead (method_type ?st2) (Suc (Suc i) + length (takeWhile (\<lambda>x. \<not> isHeader x) ls))
               (dropWhile (\<lambda>x. \<not> isHeader x) ls)"
        by auto
      have c: "collectBody filename i (l # ls) st = Inr (st', i + length (l # ls), [])"
        using step None np r Cons.prems(2) by simp
      have p2: "properties st' = properties st @ propertiesRead (Suc i) (l # ls)"
        using p nh np by (simp add: propertiesRead_Cons)
      have m2: "flushMethod (i + length (l # ls)) st' =
           methods st @
           mkMethod (i + length (takeWhile (\<lambda>x. \<not> isHeader x) (l # ls))
                       + (if dropWhile (\<lambda>x. \<not> isHeader x) (l # ls) = [] then 0 else 1))
             (method_type st) (method_name st)
             (mbody st @ bodyLines (takeWhile (\<lambda>x. \<not> isHeader x) (l # ls)))
           # methodsRead (method_type st) (Suc i + length (takeWhile (\<lambda>x. \<not> isHeader x) (l # ls)))
               (dropWhile (\<lambda>x. \<not> isHeader x) (l # ls))"
        using m nh ip by (simp add: bodyLines_def)
      from c p2 m2 show ?thesis by blast
    qed
  qed
qed


lemma firstBadLine_Nil: "firstBadLine k [] = None"
  by (simp add: firstBadLine_def)

lemma firstBadLine_Cons:
  "firstBadLine k (l # ls) =
     (if isHeader l then None
      else if \<not> isProperty l \<and> \<not> re_test blank_re l then Some (k, l)
      else firstBadLine (Suc k) ls)"
  by (simp add: firstBadLine_def)

lemma collectBody_outside_method:
  assumes "list_all (\<lambda>x. \<not> re_test end_re x) ls" and "\<not> in_method st"
    and "firstBadLine (Suc i) ls = None"
  shows "\<exists>st'. collectBody filename i ls st = Inr (st', i + length ls, [])
     \<and> properties st' = properties st @ propertiesRead (Suc i) ls
     \<and> flushMethod (i + length ls) st' = methods st @ methodsRead (method_type st) (Suc i) ls"
  using assms
proof (induction ls arbitrary: i st)
  case Nil
  then show ?case by (simp add: flushMethod_def propertiesRead_Nil)
next
  case (Cons l ls)
  from Cons.prems have noend: "\<not> re_test end_re l"
    and rest: "list_all (\<lambda>x. \<not> re_test end_re x) ls" by simp_all
  note step = collectBody_step [OF noend, of filename i ls st]
  show ?case
  proof (cases "headerOf (method_type st) l")
    case (Some h)
    obtain kind name first where h: "h = (kind, name, first)" by (cases h)
    let ?st2 = "st\<lparr>methods := flushMethod (Suc i) st, in_method := True,
                 method_type := kind, method_name := name, mbody := [first]\<rparr>"
    have hd: "isHeader l" using Some by (simp add: isHeader_headerOf [of l "method_type st"])
    have im: "in_method ?st2" by simp
    from collectBody_in_method [OF rest im, of filename "Suc i"] obtain st' where
      r: "collectBody filename (Suc i) ls ?st2 = Inr (st', Suc i + length ls, [])"
      and p: "properties st' = properties ?st2 @ propertiesRead (Suc (Suc i)) ls"
      and m: "flushMethod (Suc i + length ls) st' =
         methods ?st2 @
         mkMethod (Suc i + length (takeWhile (\<lambda>x. \<not> isHeader x) ls)
                     + (if dropWhile (\<lambda>x. \<not> isHeader x) ls = [] then 0 else 1))
           (method_type ?st2) (method_name ?st2)
           (mbody ?st2 @ bodyLines (takeWhile (\<lambda>x. \<not> isHeader x) ls))
         # methodsRead (method_type ?st2) (Suc (Suc i) + length (takeWhile (\<lambda>x. \<not> isHeader x) ls))
             (dropWhile (\<lambda>x. \<not> isHeader x) ls)"
      by auto
    have c: "collectBody filename i (l # ls) st = Inr (st', i + length (l # ls), [])"
      using step Some h r by simp
    have p2: "properties st' = properties st @ propertiesRead (Suc i) (l # ls)"
      using p hd by (simp add: propertiesRead_Cons)
    have m2: "flushMethod (i + length (l # ls)) st' =
         methods st @ methodsRead (method_type st) (Suc i) (l # ls)"
      using m Some h Cons.prems(2) by (simp add: flushMethod_def)
    from c p2 m2 show ?thesis by blast
  next
    case None
    have nh: "\<not> isHeader l" using None by (simp add: isHeader_headerOf [of l "method_type st"])
    from Cons.prems(3) nh have ok: "isProperty l \<or> re_test blank_re l"
      and bad: "firstBadLine (Suc (Suc i)) ls = None"
      by (auto simp: firstBadLine_Cons split: if_splits)
    show ?thesis
    proof (cases "propertyOf (Suc i) l")
      case (Some pr)
      let ?st2 = "st\<lparr>properties := properties st @ [pr]\<rparr>"
      have im: "\<not> in_method ?st2" using Cons.prems(2) by simp
      from Cons.IH [OF rest im bad] obtain st' where
        r: "collectBody filename (Suc i) ls ?st2 = Inr (st', Suc i + length ls, [])"
        and p: "properties st' = properties ?st2 @ propertiesRead (Suc (Suc i)) ls"
        and m: "flushMethod (Suc i + length ls) st' =
                  methods ?st2 @ methodsRead (method_type ?st2) (Suc (Suc i)) ls"
        by auto
      have c: "collectBody filename i (l # ls) st = Inr (st', i + length (l # ls), [])"
        using step None Some r by simp
      have p2: "properties st' = properties st @ propertiesRead (Suc i) (l # ls)"
        using p nh Some by (simp add: propertiesRead_Cons)
      have m2: "flushMethod (i + length (l # ls)) st' =
           methods st @ methodsRead (method_type st) (Suc i) (l # ls)"
        using m None by simp
      from c p2 m2 show ?thesis by blast
    next
      case np: None
      then have "\<not> isProperty l" by (simp add: isProperty_propertyOf [of l "Suc i"])
      with ok have blank: "re_test blank_re l" by simp
      from Cons.IH [OF rest Cons.prems(2) bad] obtain st' where
        r: "collectBody filename (Suc i) ls st = Inr (st', Suc i + length ls, [])"
        and p: "properties st' = properties st @ propertiesRead (Suc (Suc i)) ls"
        and m: "flushMethod (Suc i + length ls) st' =
                  methods st @ methodsRead (method_type st) (Suc (Suc i)) ls"
        by auto
      have c: "collectBody filename i (l # ls) st = Inr (st', i + length (l # ls), [])"
        using step None np r Cons.prems(2) blank by simp
      have p2: "properties st' = properties st @ propertiesRead (Suc i) (l # ls)"
        using p nh np by (simp add: propertiesRead_Cons)
      have m2: "flushMethod (i + length (l # ls)) st' =
           methods st @ methodsRead (method_type st) (Suc i) (l # ls)"
        using m None by simp
      from c p2 m2 show ?thesis by blast
    qed
  qed
qed

lemma collectBody_bad_line:
  assumes "list_all (\<lambda>x. \<not> re_test end_re x) ls" and "\<not> in_method st"
    and "firstBadLine (Suc i) ls = Some (n, x)"
  shows "collectBody filename i ls st
           = Inl (SyntaxError filename n (''Not a property or method: '' @ x))"
  using assms
proof (induction ls arbitrary: i st)
  case Nil
  then show ?case by (simp add: firstBadLine_Nil)
next
  case (Cons l ls)
  from Cons.prems have noend: "\<not> re_test end_re l"
    and rest: "list_all (\<lambda>x. \<not> re_test end_re x) ls" by simp_all
  note step = collectBody_step [OF noend, of filename i ls st]
  from Cons.prems(3) have nh: "\<not> isHeader l"
    by (auto simp: firstBadLine_Cons split: if_splits)
  then have None: "headerOf (method_type st) l = None"
    using isHeader_headerOf [of l "method_type st"] by blast
  show ?case
  proof (cases "propertyOf (Suc i) l")
    case (Some pr)
    let ?st2 = "st\<lparr>properties := properties st @ [pr]\<rparr>"
    have ip: "isProperty l" using Some by (simp add: isProperty_propertyOf [of l "Suc i"])
    with Cons.prems(3) nh have bad: "firstBadLine (Suc (Suc i)) ls = Some (n, x)"
      by (simp add: firstBadLine_Cons)
    have im: "\<not> in_method ?st2" using Cons.prems(2) by simp
    from Cons.IH [OF rest im bad] step None Some show ?thesis by simp
  next
    case np: None
    then have ip: "\<not> isProperty l" by (simp add: isProperty_propertyOf [of l "Suc i"])
    show ?thesis
    proof (cases "re_test blank_re l")
      case True
      with Cons.prems(3) nh have bad: "firstBadLine (Suc (Suc i)) ls = Some (n, x)"
        by (simp add: firstBadLine_Cons)
      from Cons.IH [OF rest Cons.prems(2) bad] step None np True Cons.prems(2)
      show ?thesis by simp
    next
      case False
      with Cons.prems(3) nh ip have "n = Suc i" "x = l"
        by (simp_all add: firstBadLine_Cons)
      with step None np False Cons.prems(2) show ?thesis by simp
    qed
  qed
qed

lemma collectLoop_skip:
  "list_all (\<lambda>x. \<not> re_test start_re x) pre \<Longrightarrow>
   collectLoop filename i (pre @ rest) defs nlines
     = collectLoop filename (i + length pre) rest defs (nlines @ pre)"
  by (induction pre arbitrary: i nlines) simp_all

lemma collectLoop_eof_in_definition:
  assumes start: "re_test start_re l"
    and noend: "list_all (\<lambda>x. \<not> re_test end_re x) ls"
    and d: "definitionRead filename (Suc i) (length nlines) l ls = Some d"
    and good: "firstBadLine (Suc (Suc i)) ls = None"
  shows "collectLoop filename i (l # ls) defs nlines = Inr (defs @ [d], nlines)"
proof -
  have "\<not> in_method startCollecting" by (simp add: startCollecting_def)
  from collectBody_outside_method [OF noend this good, of filename] obtain st' where
    r: "collectBody filename (Suc i) ls startCollecting = Inr (st', Suc i + length ls, [])"
    and p: "properties st' = propertiesRead (Suc (Suc i)) ls"
    and m: "flushMethod (Suc i + length ls) st' = methodsRead Virtual (Suc (Suc i)) ls"
    by (auto simp: startCollecting_def)
  show ?thesis
  proof (cases "re_exec struct_re l 0")
    case (Some ms)
    with d start r p m show ?thesis by (simp add: definitionRead_def)
  next
    case None
    show ?thesis
    proof (cases "re_exec class_re l 0")
      case (Some mc)
      with None d start r p m show ?thesis by (simp add: definitionRead_def)
    next
      case nc: None
      with None d show ?thesis by (simp add: definitionRead_def)
    qed
  qed
qed

lemma collectLoop_eof_bad_line:
  assumes start: "re_test start_re l"
    and noend: "list_all (\<lambda>x. \<not> re_test end_re x) ls"
    and d: "definitionRead filename (Suc i) (length nlines) l ls = Some d"
    and bad: "firstBadLine (Suc (Suc i)) ls = Some (n, x)"
  shows "collectLoop filename i (l # ls) defs nlines
           = Inl (SyntaxError filename n (''Not a property or method: '' @ x))"
proof -
  have "\<not> in_method startCollecting" by (simp add: startCollecting_def)
  from collectBody_bad_line [OF noend this bad, of filename] have
    r: "collectBody filename (Suc i) ls startCollecting
          = Inl (SyntaxError filename n (''Not a property or method: '' @ x))" .
  show ?thesis
  proof (cases "re_exec struct_re l 0")
    case (Some ms)
    with start r show ?thesis by simp
  next
    case None
    show ?thesis
    proof (cases "re_exec class_re l 0")
      case (Some mc)
      with None start r show ?thesis by simp
    next
      case nc: None
      with None d show ?thesis by (simp add: definitionRead_def)
    qed
  qed
qed

lemma collectLoop_malformed:
  assumes start: "re_test start_re l"
    and d: "definitionRead filename (Suc i) (length nlines) l ls = None"
  shows "collectLoop filename i (l # ls) defs nlines
           = Inl (SyntaxError filename (Suc i) ''Malformed definition line'')"
  using assms by (simp add: definitionRead_def split: option.splits)


text \<open>
  C8, the claim: at the end of the input inside a definition the collector
  raises an error. The source has no such check: the inner loop ends when
  the lines run out, and the definition is recorded with what was read.
\<close>

theorem collector_returns_at_end_of_input_counterexample:
  "collectDefinitions ''t.js.parlang'' [''var x = 1;'', ''@shared class Point {'', ''  x: int32'']
     = Inr ([ClassDefn ''t.js.parlang'' 2 ''Point'' [] [mkProp 3 ''x'' NoQual False ''int32''] [] 1],
            [''var x = 1;''])"
  by code_simp

text \<open>
  C8, as the code has it. The collector raises two errors only, for a
  malformed opener and for a line of a definition that is neither a
  property nor a method nor blank. For an input that ends inside its first
  definition (lines without an opener, an opener, and lines none of which
  is an end marker) the result is determined: when the opener is well formed
  and every line before the first method header is a property line or
  blank, the collector returns the one definition, with every property read
  from the lines and every method read from them, and the lines before the
  opener; when one of those lines is neither, it raises the error for the
  first such line; when the opener is malformed, it raises the error for the
  opener. No other error exists.
\<close>

theorem collector_errors_and_end_of_input:
  "(\<forall>filename lines e.
      collectDefinitions filename lines = Inl e \<longrightarrow>
      (\<exists>n. e = SyntaxError filename n ''Malformed definition line'')
      \<or> (\<exists>n l. l \<in> set lines \<and> e = SyntaxError filename n (''Not a property or method: '' @ l)))
   \<and> (\<forall>filename pre l ls d.
        list_all (\<lambda>x. \<not> re_test start_re x) pre \<and> re_test start_re l
          \<and> list_all (\<lambda>x. \<not> re_test end_re x) ls
          \<and> definitionRead filename (Suc (length pre)) (length pre) l ls = Some d
          \<and> firstBadLine (Suc (Suc (length pre))) ls = None \<longrightarrow>
        collectDefinitions filename (pre @ l # ls) = Inr ([d], pre))
   \<and> (\<forall>filename pre l ls d n x.
        list_all (\<lambda>x. \<not> re_test start_re x) pre \<and> re_test start_re l
          \<and> list_all (\<lambda>x. \<not> re_test end_re x) ls
          \<and> definitionRead filename (Suc (length pre)) (length pre) l ls = Some d
          \<and> firstBadLine (Suc (Suc (length pre))) ls = Some (n, x) \<longrightarrow>
        collectDefinitions filename (pre @ l # ls)
          = Inl (SyntaxError filename n (''Not a property or method: '' @ x)))
   \<and> (\<forall>filename pre l ls.
        list_all (\<lambda>x. \<not> re_test start_re x) pre \<and> re_test start_re l
          \<and> definitionRead filename (Suc (length pre)) (length pre) l ls = None \<longrightarrow>
        collectDefinitions filename (pre @ l # ls)
          = Inl (SyntaxError filename (Suc (length pre)) ''Malformed definition line''))"
proof (intro conjI allI impI)
  fix filename lines e
  assume "collectDefinitions filename lines = Inl e"
  then show "(\<exists>n. e = SyntaxError filename n ''Malformed definition line'')
      \<or> (\<exists>n l. l \<in> set lines \<and> e = SyntaxError filename n (''Not a property or method: '' @ l))"
    unfolding collectDefinitions_def by (rule collectLoop_error)
next
  fix filename pre l ls d
  assume h: "list_all (\<lambda>x. \<not> re_test start_re x) pre \<and> re_test start_re l
          \<and> list_all (\<lambda>x. \<not> re_test end_re x) ls
          \<and> definitionRead filename (Suc (length pre)) (length pre) l ls = Some d
          \<and> firstBadLine (Suc (Suc (length pre))) ls = None"
  then have "collectLoop filename (length pre) (l # ls) [] pre = Inr ([] @ [d], pre)"
    by (intro collectLoop_eof_in_definition) simp_all
  with h show "collectDefinitions filename (pre @ l # ls) = Inr ([d], pre)"
    by (simp add: collectDefinitions_def collectLoop_skip del: collectLoop.simps)
next
  fix filename pre l ls d n x
  assume h: "list_all (\<lambda>x. \<not> re_test start_re x) pre \<and> re_test start_re l
          \<and> list_all (\<lambda>x. \<not> re_test end_re x) ls
          \<and> definitionRead filename (Suc (length pre)) (length pre) l ls = Some d
          \<and> firstBadLine (Suc (Suc (length pre))) ls = Some (n, x)"
  then have "collectLoop filename (length pre) (l # ls) [] pre
               = Inl (SyntaxError filename n (''Not a property or method: '' @ x))"
    by (intro collectLoop_eof_bad_line [where d = d]) simp_all
  with h show "collectDefinitions filename (pre @ l # ls)
          = Inl (SyntaxError filename n (''Not a property or method: '' @ x))"
    by (simp add: collectDefinitions_def collectLoop_skip del: collectLoop.simps)
next
  fix filename pre l ls
  assume h: "list_all (\<lambda>x. \<not> re_test start_re x) pre \<and> re_test start_re l
          \<and> definitionRead filename (Suc (length pre)) (length pre) l ls = None"
  then have "collectLoop filename (length pre) (l # ls) [] pre
               = Inl (SyntaxError filename (Suc (length pre)) ''Malformed definition line'')"
    by (intro collectLoop_malformed) simp_all
  with h show "collectDefinitions filename (pre @ l # ls)
          = Inl (SyntaxError filename (Suc (length pre)) ''Malformed definition line'')"
    by (simp add: collectDefinitions_def collectLoop_skip del: collectLoop.simps)
qed

theorem collector_errors_and_end_of_input_witness:
  "list_all (\<lambda>x. \<not> re_test start_re x) [''var x = 1;'']
   \<and> re_test start_re ''@shared class Point {''
   \<and> list_all (\<lambda>x. \<not> re_test end_re x)
        [''  x: int32'', ''  @method f(self) {'', ''    return 1;'']
   \<and> definitionRead ''t.js.parlang'' 2 1 ''@shared class Point {''
        [''  x: int32'', ''  @method f(self) {'', ''    return 1;'']
       = Some (ClassDefn ''t.js.parlang'' 2 ''Point'' []
                 [mkProp 3 ''x'' NoQual False ''int32'']
                 [mkMethod 5 Virtual ''f'' [''(self) {'', ''    return 1;'']] 1)
   \<and> firstBadLine 3 [''  x: int32'', ''  @method f(self) {'', ''    return 1;''] = None
   \<and> collectDefinitions ''t.js.parlang''
        [''var x = 1;'', ''@shared class Point {'', ''  x: int32'', ''  @method f(self) {'',
         ''    return 1;'']
       = Inr ([ClassDefn ''t.js.parlang'' 2 ''Point'' []
                 [mkProp 3 ''x'' NoQual False ''int32'']
                 [mkMethod 5 Virtual ''f'' [''(self) {'', ''    return 1;'']] 1],
              [''var x = 1;''])
   \<and> list_all (\<lambda>x. \<not> re_test end_re x) [''  x: int32'', ''garbage'']
   \<and> firstBadLine 3 [''  x: int32'', ''garbage''] = Some (4, ''garbage'')
   \<and> collectDefinitions ''t.js.parlang''
        [''var x = 1;'', ''@shared class Point {'', ''  x: int32'', ''garbage'']
       = Inl (SyntaxError ''t.js.parlang'' 4 ''Not a property or method: garbage'')
   \<and> re_test start_re ''@shared class Point''
   \<and> definitionRead ''t.js.parlang'' 2 1 ''@shared class Point'' [] = None
   \<and> collectDefinitions ''t.js.parlang'' [''var x = 1;'', ''@shared class Point'']
       = Inl (SyntaxError ''t.js.parlang'' 2 ''Malformed definition line'')
   \<and> ((\<exists>n. SyntaxError ''t.js.parlang'' 2 ''Malformed definition line''
             = SyntaxError ''t.js.parlang'' n ''Malformed definition line'')
       \<or> (\<exists>n l. l \<in> set [''var x = 1;'', ''@shared class Point'']
             \<and> SyntaxError ''t.js.parlang'' 2 ''Malformed definition line''
                 = SyntaxError ''t.js.parlang'' n (''Not a property or method: '' @ l)))"
proof -
  let ?f = "''t.js.parlang''"
  let ?pre = "[''var x = 1;'']"
  let ?l = "''@shared class Point {''"
  let ?ls = "[''  x: int32'', ''  @method f(self) {'', ''    return 1;'']"
  let ?bad = "[''  x: int32'', ''garbage'']"
  let ?d = "ClassDefn ''t.js.parlang'' 2 ''Point'' []
                 [mkProp 3 ''x'' NoQual False ''int32'']
                 [mkMethod 5 Virtual ''f'' [''(self) {'', ''    return 1;'']] 1"
  note claim = collector_errors_and_end_of_input
  from claim have
    a: "\<And>filename lines e. collectDefinitions filename lines = Inl e \<Longrightarrow>
          (\<exists>n. e = SyntaxError filename n ''Malformed definition line'')
          \<or> (\<exists>n l. l \<in> set lines \<and> e = SyntaxError filename n (''Not a property or method: '' @ l))"
    by blast
  from claim have
    b: "\<And>filename pre l ls d.
          list_all (\<lambda>x. \<not> re_test start_re x) pre \<Longrightarrow> re_test start_re l \<Longrightarrow>
          list_all (\<lambda>x. \<not> re_test end_re x) ls \<Longrightarrow>
          definitionRead filename (Suc (length pre)) (length pre) l ls = Some d \<Longrightarrow>
          firstBadLine (Suc (Suc (length pre))) ls = None \<Longrightarrow>
          collectDefinitions filename (pre @ l # ls) = Inr ([d], pre)"
    by blast
  from claim have
    c: "\<And>filename pre l ls d n x.
          list_all (\<lambda>x. \<not> re_test start_re x) pre \<Longrightarrow> re_test start_re l \<Longrightarrow>
          list_all (\<lambda>x. \<not> re_test end_re x) ls \<Longrightarrow>
          definitionRead filename (Suc (length pre)) (length pre) l ls = Some d \<Longrightarrow>
          firstBadLine (Suc (Suc (length pre))) ls = Some (n, x) \<Longrightarrow>
          collectDefinitions filename (pre @ l # ls)
            = Inl (SyntaxError filename n (''Not a property or method: '' @ x))"
    by blast
  from claim have
    d: "\<And>filename pre l ls.
          list_all (\<lambda>x. \<not> re_test start_re x) pre \<Longrightarrow> re_test start_re l \<Longrightarrow>
          definitionRead filename (Suc (length pre)) (length pre) l ls = None \<Longrightarrow>
          collectDefinitions filename (pre @ l # ls)
            = Inl (SyntaxError filename (Suc (length pre)) ''Malformed definition line'')"
    by blast
  have h1: "list_all (\<lambda>x. \<not> re_test start_re x) ?pre" by code_simp
  have h2: "re_test start_re ?l" by code_simp
  have h3: "list_all (\<lambda>x. \<not> re_test end_re x) ?ls" by code_simp
  have h4: "definitionRead ?f 2 1 ?l ?ls = Some ?d" by code_simp
  have h5: "firstBadLine 3 ?ls = None" by code_simp
  have i4: "definitionRead ?f (Suc (length ?pre)) (length ?pre) ?l ?ls = Some ?d" by code_simp
  have i5: "firstBadLine (Suc (Suc (length ?pre))) ?ls = None" by code_simp
  from b [OF h1 h2 h3 i4 i5] have r1:
    "collectDefinitions ?f
       [''var x = 1;'', ''@shared class Point {'', ''  x: int32'', ''  @method f(self) {'',
        ''    return 1;'']
     = Inr ([?d], ?pre)"
    by simp
  have h6: "list_all (\<lambda>x. \<not> re_test end_re x) ?bad" by code_simp
  have h7: "firstBadLine 3 ?bad = Some (4, ''garbage'')" by code_simp
  have i6: "definitionRead ?f (Suc (length ?pre)) (length ?pre) ?l ?bad
              = Some (ClassDefn ?f 2 ''Point'' [] [mkProp 3 ''x'' NoQual False ''int32''] [] 1)"
    by code_simp
  have i7: "firstBadLine (Suc (Suc (length ?pre))) ?bad = Some (4, ''garbage'')" by code_simp
  from c [OF h1 h2 h6 i6 i7] have r2:
    "collectDefinitions ?f
       [''var x = 1;'', ''@shared class Point {'', ''  x: int32'', ''garbage'']
     = Inl (SyntaxError ?f 4 ''Not a property or method: garbage'')"
    by simp
  have h8: "re_test start_re ''@shared class Point''" by code_simp
  have h9: "definitionRead ?f 2 1 ''@shared class Point'' [] = None" by code_simp
  have i9: "definitionRead ?f (Suc (length ?pre)) (length ?pre) ''@shared class Point'' [] = None"
    by code_simp
  from d [OF h1 h8 i9] have r3:
    "collectDefinitions ?f [''var x = 1;'', ''@shared class Point'']
     = Inl (SyntaxError ?f 2 ''Malformed definition line'')"
    by simp
  note r4 = a [OF r3]
  from h1 h2 h3 h4 h5 r1 h6 h7 r2 h8 h9 r3 r4 show ?thesis by blast
qed

subsection \<open>Global macro expander\<close>

text \<open>The tables of the scenarios, evaluated once.\<close>

lemma pointTables_eval:
  "pointTables =
     \<lparr>knownTypes =
        [(''Point'',
          (ClassDefn ''t.js.parlang'' 1 ''Point'' []
             [(mkProp 2 ''x'' NoQual False ''int32'')\<lparr>prop_typeRef := Some (PrimRef builtin_int32)\<rparr>,
              (mkProp 3 ''y'' NoQual False ''int32'')\<lparr>prop_typeRef := Some (PrimRef builtin_int32)\<rparr>]
             [] 0)
          \<lparr>d_size := 12, d_align := 4,
           d_map := Some [(''x'', mkMapEntry ''x'' True 4 (PrimRef builtin_int32)),
                          (''y'', mkMapEntry ''y'' True 8 (PrimRef builtin_int32))],
           d_className := ''Point'', d_classId := 141717, d_vtable := Some []\<rparr>)],
      knownIds = [(141717, ''Point'')]\<rparr>"
  by code_simp

lemma boxTables_eval:
  "boxTables =
     \<lparr>knownTypes =
        [(''Box'',
          (ClassDefn ''t.js.parlang'' 1 ''Box'' []
             [(mkProp 2 ''initInstance'' NoQual False ''int32'')
                \<lparr>prop_typeRef := Some (PrimRef builtin_int32)\<rparr>]
             [] 0)
          \<lparr>d_size := 8, d_align := 4,
           d_map := Some [(''initInstance'', mkMapEntry ''initInstance'' True 4 (PrimRef builtin_int32))],
           d_className := ''Box'', d_classId := 1841, d_vtable := Some []\<rparr>)],
      knownIds = [(1841, ''Box'')]\<rparr>"
  by code_simp

declare pointTables_eval [code]
declare boxTables_eval [code]



lemma findType_unknown:
  "map_of builtinTypes n = None \<Longrightarrow> \<not> isOwn (knownTypes T) n \<Longrightarrow> \<exists>e. findType T n = Inl e"
  by (simp add: findType_def hasOwnProperty_def)

lemma newMacro_unknown_class:
  "grp ms 2 = Some c \<Longrightarrow> js_get (knownTypes T) c = Absent \<Longrightarrow>
   newMacro expand T s p ms = Some (Inl (UnknownTypeArgumentToNew c))"
  by (simp add: newMacro_def Let_def)

lemma newMacro_unknown_array:
  assumes "grp ms 2 = None" and "findType T (groupOrEmpty ms 1) = Inl e"
  shows "\<exists>e'. newMacro expand T s p ms = Some (Inl e')"
proof (cases "allArgs s (p + length (matched s ms))")
  case (Inl e2)
  with assms show ?thesis by (simp add: newMacro_def Let_def)
next
  case (Inr r)
  obtain as wh where "r = (as, wh)" by (cases r)
  with Inr assms show ?thesis by (simp add: newMacro_def Let_def)
qed

lemma arrMacro_unknown:
  "findType T (groupOrEmpty ms 1) = Inl e \<Longrightarrow> arrMacro expand T s p ms = Some (Inl e)"
  by (simp add: arrMacro_def Let_def)

lemma accMacro_absent:
  "js_get (knownTypes T) (groupOrEmpty ms 1) = Absent \<Longrightarrow>
   accMacro expand T s p ms = Some (Inr (s, p + length (matched s ms)))"
  by (simp add: accMacro_def Let_def)

lemma accMacro_inherited:
  "js_get (knownTypes T) (groupOrEmpty ms 1) = Inherited \<Longrightarrow>
   accMacro expand T s p ms = Some (Inl TypeError)"
  by (simp add: accMacro_def Let_def)

text \<open>
  C3, the claim: the setter and the reference of the field x are written
  \<^verbatim>\<open>Point.x.set(p, 10)\<close> and \<^verbatim>\<open>Point.x.ref(p)\<close>. The expander leaves both
  texts as they are.
\<close>

theorem accessor_syntax_counterexample:
  "expandMacrosIn pointTables ''Point.x.set(p, 10)'' = Some (Inr ''Point.x.set(p, 10)'')
   \<and> expandMacrosIn pointTables ''Point.x.set(p, 10)'' \<noteq> Some (Inr ''(_mem_int32[(p+4)>>2] = 10)'')
   \<and> expandMacrosIn pointTables ''Point.x.ref(p)'' = Some (Inr ''Point.x.ref(p)'')
   \<and> expandMacrosIn pointTables ''Point.x.ref(p)'' \<noteq> Some (Inr ''(p+4)'')"
  by code_simp

text \<open>
  C3, as the code has it. The field x of the class Point is an int32 at
  offset 4, and the expander rewrites \<^verbatim>\<open>Point.x(p)\<close> to
  \<^verbatim>\<open>(_mem_int32[(p+4)>>2])\<close>, \<^verbatim>\<open>Point.set_x(p, 10)\<close> to
  \<^verbatim>\<open>(_mem_int32[(p+4)>>2] = 10)\<close> and \<^verbatim>\<open>Point.ref_x(p)\<close> to \<^verbatim>\<open>(p+4)\<close>:
  the setter and the reference are written with the prefixes \<^verbatim>\<open>set_\<close> and
  \<^verbatim>\<open>ref_\<close> of the field name, as \<^verbatim>\<open>acc_re\<close> reads them.
\<close>

theorem accessor_macro_expansion:
  "map_option ent_offset (fieldEntry (Some (Inr pointTables)) ''Point'' ''x'') = Some 4
   \<and> map_option ent_type (fieldEntry (Some (Inr pointTables)) ''Point'' ''x'')
       = Some (PrimRef builtin_int32)
   \<and> expandMacrosIn pointTables ''Point.x(p)'' = Some (Inr ''(_mem_int32[(p+4)>>2])'')
   \<and> expandMacrosIn pointTables ''Point.set_x(p, 10)'' = Some (Inr ''(_mem_int32[(p+4)>>2] = 10)'')
   \<and> expandMacrosIn pointTables ''Point.ref_x(p)'' = Some (Inr ''(p+4)'')"
  by code_simp

text \<open>
  C4, the claim: the allocator macro is written \<^verbatim>\<open>new Point\<close> and
  \<^verbatim>\<open>new int32.Array(7)\<close>, and an unknown type name after it is an error.
  The expander leaves these texts as they are, with a known type name and
  with an unknown one.
\<close>

theorem allocator_syntax_counterexample:
  "expandMacrosIn pointTables ''new Point'' = Some (Inr ''new Point'')
   \<and> expandMacrosIn pointTables ''new Point'' \<noteq> Some (Inr ''(Point.initInstance(Parlang.alloc(12,4)))'')
   \<and> expandMacrosIn pointTables ''new int32.Array(7)'' = Some (Inr ''new int32.Array(7)'')
   \<and> expandMacrosIn pointTables ''new Foo'' = Some (Inr ''new Foo'')"
  by code_simp

text \<open>
  C4, as the code has it. The marker is \<^verbatim>\<open>@new\<close>: for the class Point of
  size 12 and alignment 4, \<^verbatim>\<open>@new Point\<close> becomes
  \<^verbatim>\<open>(Point.initInstance(Parlang.alloc(12,4)))\<close> and \<^verbatim>\<open>@new array(int32, 7)\<close>
  becomes \<^verbatim>\<open>(Parlang.alloc(4 * 7, 4))\<close>. A class name after \<^verbatim>\<open>@new\<close> that
  \<^verbatim>\<open>knownTypes\<close> has no property for is an error, and so is an element type of
  \<^verbatim>\<open>@new array\<close> that is neither a primitive type nor a key of
  \<^verbatim>\<open>knownTypes\<close>.
\<close>

theorem allocator_macro_expansion:
  "map_option d_size (definedType (Some (Inr pointTables)) ''Point'') = Some 12
   \<and> map_option d_align (definedType (Some (Inr pointTables)) ''Point'') = Some 4
   \<and> expandMacrosIn pointTables ''@new Point'' = Some (Inr ''(Point.initInstance(Parlang.alloc(12,4)))'')
   \<and> expandMacrosIn pointTables ''@new array(int32, 7)'' = Some (Inr ''(Parlang.alloc(4 * 7, 4))'')
   \<and> expandMacrosIn pointTables ''@new Foo'' = Some (Inl (UnknownTypeArgumentToNew ''Foo''))
   \<and> expandMacrosIn pointTables ''@new array(Foo, 7)'' = Some (Inl (UnknownTypeInSizeofType ''Foo''))
   \<and> (\<forall>expand T s p ms c.
        grp ms 2 = Some c \<and> js_get (knownTypes T) c = Absent \<longrightarrow>
        newMacro expand T s p ms = Some (Inl (UnknownTypeArgumentToNew c)))
   \<and> (\<forall>expand T s p ms.
        grp ms 2 = None \<and> map_of builtinTypes (groupOrEmpty ms 1) = None
          \<and> \<not> isOwn (knownTypes T) (groupOrEmpty ms 1) \<longrightarrow>
        (\<exists>e. newMacro expand T s p ms = Some (Inl e)))"
proof -
  have concrete:
    "map_option d_size (definedType (Some (Inr pointTables)) ''Point'') = Some 12
     \<and> map_option d_align (definedType (Some (Inr pointTables)) ''Point'') = Some 4
     \<and> expandMacrosIn pointTables ''@new Point'' = Some (Inr ''(Point.initInstance(Parlang.alloc(12,4)))'')
     \<and> expandMacrosIn pointTables ''@new array(int32, 7)'' = Some (Inr ''(Parlang.alloc(4 * 7, 4))'')
     \<and> expandMacrosIn pointTables ''@new Foo'' = Some (Inl (UnknownTypeArgumentToNew ''Foo''))
     \<and> expandMacrosIn pointTables ''@new array(Foo, 7)'' = Some (Inl (UnknownTypeInSizeofType ''Foo''))"
    by code_simp
  have cls: "\<forall>expand T s p ms c.
        grp ms 2 = Some c \<and> js_get (knownTypes T) c = Absent \<longrightarrow>
        newMacro expand T s p ms = Some (Inl (UnknownTypeArgumentToNew c))"
    by (simp add: newMacro_unknown_class)
  have arr: "\<forall>expand T s p ms.
        grp ms 2 = None \<and> map_of builtinTypes (groupOrEmpty ms 1) = None
          \<and> \<not> isOwn (knownTypes T) (groupOrEmpty ms 1) \<longrightarrow>
        (\<exists>e. newMacro expand T s p ms = Some (Inl e))"
    using findType_unknown newMacro_unknown_array by blast
  from concrete cls arr show ?thesis by blast
qed

theorem allocator_macro_expansion_witness:
  "re_exec new_re ''@new Foo'' 0 = Some \<lparr>m_index = 0, m_end = 8, m_groups = [(2, ''Foo'')]\<rparr>
   \<and> js_get (knownTypes pointTables) ''Foo'' = Absent
   \<and> newMacro (\<lambda>arg. None) pointTables ''@new Foo'' 0
        \<lparr>m_index = 0, m_end = 8, m_groups = [(2, ''Foo'')]\<rparr>
       = Some (Inl (UnknownTypeArgumentToNew ''Foo''))
   \<and> re_exec new_re ''@new array(Foo, 7)'' 0
       = Some \<lparr>m_index = 0, m_end = 15, m_groups = [(1, ''Foo'')]\<rparr>
   \<and> map_of builtinTypes ''Foo'' = None
   \<and> \<not> isOwn (knownTypes pointTables) ''Foo''
   \<and> (\<exists>e. newMacro (\<lambda>arg. None) pointTables ''@new array(Foo, 7)'' 0
              \<lparr>m_index = 0, m_end = 15, m_groups = [(1, ''Foo'')]\<rparr> = Some (Inl e))"
proof -
  have h1: "re_exec new_re ''@new Foo'' 0 = Some \<lparr>m_index = 0, m_end = 8, m_groups = [(2, ''Foo'')]\<rparr>"
    by code_simp
  have h2: "js_get (knownTypes pointTables) ''Foo'' = Absent" by code_simp
  have h3: "grp \<lparr>m_index = 0, m_end = 8, m_groups = [(2, ''Foo'')]\<rparr> 2 = Some ''Foo''"
    by (simp add: grp_def)
  have h4: "re_exec new_re ''@new array(Foo, 7)'' 0
       = Some \<lparr>m_index = 0, m_end = 15, m_groups = [(1, ''Foo'')]\<rparr>"
    by code_simp
  have h5: "grp \<lparr>m_index = 0, m_end = 15, m_groups = [(1, ''Foo'')]\<rparr> 2 = None"
    by (simp add: grp_def)
  have h6: "groupOrEmpty \<lparr>m_index = 0, m_end = 15, m_groups = [(1, ''Foo'')]\<rparr> 1 = ''Foo''"
    by (simp add: groupOrEmpty_def grp_def)
  have h7: "map_of builtinTypes ''Foo'' = None" by code_simp
  have h8: "\<not> isOwn (knownTypes pointTables) ''Foo''" by code_simp
  from allocator_macro_expansion have
    a: "\<And>expand T s p ms c. grp ms 2 = Some c \<Longrightarrow> js_get (knownTypes T) c = Absent \<Longrightarrow>
          newMacro expand T s p ms = Some (Inl (UnknownTypeArgumentToNew c))"
    and b: "\<And>expand T s p ms. grp ms 2 = None \<Longrightarrow> map_of builtinTypes (groupOrEmpty ms 1) = None \<Longrightarrow>
          \<not> isOwn (knownTypes T) (groupOrEmpty ms 1) \<Longrightarrow> \<exists>e. newMacro expand T s p ms = Some (Inl e)"
    by blast+
  from h7 h8 h6 have h9:
    "map_of builtinTypes (groupOrEmpty \<lparr>m_index = 0, m_end = 15, m_groups = [(1, ''Foo'')]\<rparr> 1) = None"
    "\<not> isOwn (knownTypes pointTables) (groupOrEmpty \<lparr>m_index = 0, m_end = 15, m_groups = [(1, ''Foo'')]\<rparr> 1)"
    by simp_all
  note r1 = a [OF h3 h2, of "\<lambda>arg. None" "''@new Foo''" 0]
  note r2 = b [OF h5 h9, of "\<lambda>arg. None" "''@new array(Foo, 7)''" 0]
  from h1 h2 r1 h4 h7 h8 r2 show ?thesis by blast
qed

text \<open>
  C10. The array macro looks its type name up with \<^verbatim>\<open>findType\<close>, which
  raises an error for a name that is neither a primitive type nor a key of
  \<^verbatim>\<open>knownTypes\<close>. The accessor macro reads \<^verbatim>\<open>knownTypes[className]\<close>: for a
  name that \<^verbatim>\<open>knownTypes\<close> has no property for it leaves the text as it is,
  but for a name inherited from \<^verbatim>\<open>Object.prototype\<close>, which is no type
  either, it raises a TypeError.
\<close>

theorem accessor_macro_type_error_on_inherited_names:
  "(\<forall>expand T s p ms.
      map_of builtinTypes (groupOrEmpty ms 1) = None \<and> \<not> isOwn (knownTypes T) (groupOrEmpty ms 1) \<longrightarrow>
      (\<exists>e. arrMacro expand T s p ms = Some (Inl e)))
   \<and> (\<forall>expand T s p ms.
        js_get (knownTypes T) (groupOrEmpty ms 1) = Absent \<longrightarrow>
        accMacro expand T s p ms = Some (Inr (s, p + length (matched s ms))))
   \<and> (\<forall>expand T s p ms.
        js_get (knownTypes T) (groupOrEmpty ms 1) = Inherited \<longrightarrow>
        accMacro expand T s p ms = Some (Inl TypeError))
   \<and> expandMacrosIn pointTables ''Foo.array_get(a, 1)'' = Some (Inl (UnknownTypeInSizeofType ''Foo''))
   \<and> expandMacrosIn pointTables ''Foo.array_set(a, 1, v)'' = Some (Inl (UnknownTypeInSizeofType ''Foo''))
   \<and> expandMacrosIn pointTables ''Foo.x(a)'' = Some (Inr ''Foo.x(a)'')
   \<and> \<not> isOwn (knownTypes pointTables) ''toString''
   \<and> map_of builtinTypes ''toString'' = None
   \<and> expandMacrosIn pointTables ''toString.call(x)'' = Some (Inl TypeError)
   \<and> expandMacrosIn pointTables ''Object.prototype.hasOwnProperty.call(o, k)'' = Some (Inl TypeError)"
proof -
  have concrete:
   "expandMacrosIn pointTables ''Foo.array_get(a, 1)'' = Some (Inl (UnknownTypeInSizeofType ''Foo''))
   \<and> expandMacrosIn pointTables ''Foo.array_set(a, 1, v)'' = Some (Inl (UnknownTypeInSizeofType ''Foo''))
   \<and> expandMacrosIn pointTables ''Foo.x(a)'' = Some (Inr ''Foo.x(a)'')
   \<and> \<not> isOwn (knownTypes pointTables) ''toString''
   \<and> map_of builtinTypes ''toString'' = None
   \<and> expandMacrosIn pointTables ''toString.call(x)'' = Some (Inl TypeError)
   \<and> expandMacrosIn pointTables ''Object.prototype.hasOwnProperty.call(o, k)'' = Some (Inl TypeError)"
    by code_simp
  have arr: "\<forall>expand T s p ms.
      map_of builtinTypes (groupOrEmpty ms 1) = None \<and> \<not> isOwn (knownTypes T) (groupOrEmpty ms 1) \<longrightarrow>
      (\<exists>e. arrMacro expand T s p ms = Some (Inl e))"
    using findType_unknown arrMacro_unknown by blast
  have acc1: "\<forall>expand T s p ms.
        js_get (knownTypes T) (groupOrEmpty ms 1) = Absent \<longrightarrow>
        accMacro expand T s p ms = Some (Inr (s, p + length (matched s ms)))"
    by (simp add: accMacro_absent)
  have acc2: "\<forall>expand T s p ms.
        js_get (knownTypes T) (groupOrEmpty ms 1) = Inherited \<longrightarrow>
        accMacro expand T s p ms = Some (Inl TypeError)"
    by (simp add: accMacro_inherited)
  from concrete arr acc1 acc2 show ?thesis by blast
qed


theorem accessor_macro_type_error_on_inherited_names_witness:
  "re_exec arr_re ''Foo.array_get(a, 1)'' 0
     = Some \<lparr>m_index = 0, m_end = 14, m_groups = [(2, ''get''), (1, ''Foo'')]\<rparr>
   \<and> map_of builtinTypes ''Foo'' = None
   \<and> \<not> isOwn (knownTypes pointTables) ''Foo''
   \<and> (\<exists>e. arrMacro (\<lambda>arg. None) pointTables ''Foo.array_get(a, 1)'' 0
              \<lparr>m_index = 0, m_end = 14, m_groups = [(2, ''get''), (1, ''Foo'')]\<rparr> = Some (Inl e))
   \<and> re_exec acc_re ''Foo.x(a)'' 0
       = Some \<lparr>m_index = 0, m_end = 6, m_groups = [(3, ''x''), (1, ''Foo'')]\<rparr>
   \<and> js_get (knownTypes pointTables) ''Foo'' = Absent
   \<and> accMacro (\<lambda>arg. None) pointTables ''Foo.x(a)'' 0
        \<lparr>m_index = 0, m_end = 6, m_groups = [(3, ''x''), (1, ''Foo'')]\<rparr>
       = Some (Inr (''Foo.x(a)'', 6))
   \<and> re_exec acc_re ''toString.call(x)'' 0
       = Some \<lparr>m_index = 0, m_end = 14, m_groups = [(3, ''call''), (1, ''toString'')]\<rparr>
   \<and> js_get (knownTypes pointTables) ''toString'' = Inherited
   \<and> accMacro (\<lambda>arg. None) pointTables ''toString.call(x)'' 0
        \<lparr>m_index = 0, m_end = 14, m_groups = [(3, ''call''), (1, ''toString'')]\<rparr>
       = Some (Inl TypeError)"
proof -
  let ?m1 = "\<lparr>m_index = 0, m_end = 14, m_groups = [(2, ''get''), (1, ''Foo'')]\<rparr>"
  let ?m2 = "\<lparr>m_index = 0, m_end = 6, m_groups = [(3, ''x''), (1, ''Foo'')]\<rparr>"
  let ?m3 = "\<lparr>m_index = 0, m_end = 14, m_groups = [(3, ''call''), (1, ''toString'')]\<rparr>"
  have e1: "re_exec arr_re ''Foo.array_get(a, 1)'' 0 = Some ?m1" by code_simp
  have e2: "re_exec acc_re ''Foo.x(a)'' 0 = Some ?m2" by code_simp
  have e3: "re_exec acc_re ''toString.call(x)'' 0 = Some ?m3" by code_simp
  have g1: "groupOrEmpty ?m1 1 = ''Foo''" by (simp add: groupOrEmpty_def grp_def)
  have g2: "groupOrEmpty ?m2 1 = ''Foo''" by (simp add: groupOrEmpty_def grp_def)
  have g3: "groupOrEmpty ?m3 1 = ''toString''" by (simp add: groupOrEmpty_def grp_def)
  have l2: "length (matched ''Foo.x(a)'' ?m2) = 6" by (simp add: matched_def)
  have b: "map_of builtinTypes ''Foo'' = None" by code_simp
  have o: "\<not> isOwn (knownTypes pointTables) ''Foo''" by code_simp
  have a: "js_get (knownTypes pointTables) ''Foo'' = Absent" by code_simp
  have i: "js_get (knownTypes pointTables) ''toString'' = Inherited" by code_simp
  from accessor_macro_type_error_on_inherited_names have
    arr: "\<And>expand T s p ms. map_of builtinTypes (groupOrEmpty ms 1) = None \<Longrightarrow>
            \<not> isOwn (knownTypes T) (groupOrEmpty ms 1) \<Longrightarrow>
            \<exists>e. arrMacro expand T s p ms = Some (Inl e)"
    and acc1: "\<And>expand T s p ms. js_get (knownTypes T) (groupOrEmpty ms 1) = Absent \<Longrightarrow>
            accMacro expand T s p ms = Some (Inr (s, p + length (matched s ms)))"
    and acc2: "\<And>expand T s p ms. js_get (knownTypes T) (groupOrEmpty ms 1) = Inherited \<Longrightarrow>
            accMacro expand T s p ms = Some (Inl TypeError)"
    by blast+
  have r1: "\<exists>e. arrMacro (\<lambda>arg. None) pointTables ''Foo.array_get(a, 1)'' 0 ?m1 = Some (Inl e)"
    by (rule arr) (simp_all only: g1 b o not_False_eq_True)
  have r2: "accMacro (\<lambda>arg. None) pointTables ''Foo.x(a)'' 0 ?m2 = Some (Inr (''Foo.x(a)'', 6))"
    using acc1 [of pointTables ?m2 "\<lambda>arg. None" "''Foo.x(a)''" 0] a by (simp only: g2 l2) simp
  have r3: "accMacro (\<lambda>arg. None) pointTables ''toString.call(x)'' 0 ?m3 = Some (Inl TypeError)"
    by (rule acc2) (simp only: g3 i)
  from e1 b o r1 e2 a r2 e3 i r3 show ?thesis by blast
qed


subsubsection \<open>The expansion of a line with one call\<close>







































lemma plainText_append: "plainText (xs @ ys) \<longleftrightarrow> plainText xs \<and> plainText ys"
  by (auto simp: plainText_def)




































end
